(* ===== verification/Prelude.thy ===== *)
theory Prelude
  imports Main "HOL-Library.Word"
begin

text \<open>
  Shared vocabulary of the development: the faults a C statement can run into, the result
  type of a C function that may fault, sequencing of such functions, and folds over lists
  with faults.

  A value \<open>Inl f\<close> says that the C code has undefined behaviour (or aborts) at that point,
  \<open>Inr x\<close> that it returns \<open>x\<close>. A pointer that may be \<open>NULL\<close> is an \<open>option\<close>.
\<close>

named_theorems res_simps "equations of the fault monad"

section \<open>Faults\<close>

datatype fault =
    Null_Deref        \<comment> \<open>a NULL pointer is dereferenced\<close>
  | Type_Confusion    \<comment> \<open>memory is read at a type it was not written at\<close>
  | Over_Read         \<comment> \<open>a read past the end of an object\<close>
  | Buffer_Overflow   \<comment> \<open>a write past the end of an object\<close>
  | Uninit_Read       \<comment> \<open>an object is read that was never written\<close>
  | Int_Range         \<comment> \<open>signed arithmetic or a conversion leaves its range\<close>
  | Use_After_Free    \<comment> \<open>a read or write through a pointer to freed memory\<close>
  | Blocked           \<comment> \<open>a blocking receive waits for input that was not sent\<close>
  | Double_Free       \<comment> \<open>an allocation is freed twice\<close>
  | Assert_Fail       \<comment> \<open>an \<open>assert\<close> of the source does not hold\<close>
  | Exits             \<comment> \<open>\<open>exit\<close>: no fault, but the process ends\<close>
  | Execs "string list"  \<comment> \<open>\<open>execv\<close>: the process goes on as another program\<close>

type_synonym 'a res = "fault + 'a"

fun rbind :: "'a res \<Rightarrow> ('a \<Rightarrow> 'b res) \<Rightarrow> 'b res" where
  "rbind (Inl e) f = Inl e"
| "rbind (Inr x) f = f x"

definition guard :: "fault \<Rightarrow> bool \<Rightarrow> unit res" where
  "guard e b = (if b then Inr () else Inl e)"

fun returns :: "'a res \<Rightarrow> bool" where
  "returns (Inl e) = False"
| "returns (Inr x) = True"

lemma returns_iff: "returns r \<longleftrightarrow> (\<exists>x. r = Inr x)"
  by (cases r) auto

lemma rbind_Inr_iff [res_simps]: "rbind r f = Inr y \<longleftrightarrow> (\<exists>x. r = Inr x \<and> f x = Inr y)"
  by (cases r) auto

lemma rbind_returns_iff: "returns (rbind r f) \<longleftrightarrow> (\<exists>x. r = Inr x \<and> returns (f x))"
  by (cases r) auto

lemma rbind_returnsI: "r = Inr x \<Longrightarrow> returns (f x) \<Longrightarrow> returns (rbind r f)"
  by simp

lemma rbind_assoc: "rbind (rbind r f) g = rbind r (\<lambda>x. rbind (f x) g)"
  by (cases r) auto

lemma rbind_cong [fundef_cong]:
  "r = r' \<Longrightarrow> (\<And>x. r' = Inr x \<Longrightarrow> f x = g x) \<Longrightarrow> rbind r f = rbind r' g"
  by (cases r') auto

lemma guard_Inr_iff [res_simps]: "guard e b = Inr u \<longleftrightarrow> b"
  by (simp add: guard_def)

lemma guard_True [simp]: "guard e True = Inr ()"
  by (simp add: guard_def)

lemma guard_False [simp]: "guard e False = Inl e"
  by (simp add: guard_def)

lemma rbind_split:
  "P (rbind r f) \<longleftrightarrow> (\<forall>e. r = Inl e \<longrightarrow> P (Inl e)) \<and> (\<forall>x. r = Inr x \<longrightarrow> P (f x))"
  by (cases r) auto

section \<open>Folds with faults\<close>

fun rfold :: "('x \<Rightarrow> 's \<Rightarrow> 's res) \<Rightarrow> 'x list \<Rightarrow> 's \<Rightarrow> 's res" where
  "rfold f [] s = Inr s"
| "rfold f (x # xs) s = rbind (f x s) (rfold f xs)"

lemma rfold_append: "rfold f (xs @ ys) s = rbind (rfold f xs s) (rfold f ys)"
  by (induction xs arbitrary: s) (auto simp: rbind_assoc cong: rbind_cong)

lemma rfold_invariant:
  assumes "\<And>x s s'. x \<in> set xs \<Longrightarrow> I s \<Longrightarrow> f x s = Inr s' \<Longrightarrow> I s'"
    and "I s" and "rfold f xs s = Inr s'"
  shows "I s'"
  using assms
proof (induction xs arbitrary: s)
  case Nil
  then show ?case by simp
next
  case (Cons x xs)
  from Cons.prems(3) obtain s1 where "f x s = Inr s1" and "rfold f xs s1 = Inr s'"
    by (auto simp: res_simps)
  with Cons.prems(1,2) Cons.IH show ?case by (meson list.set_intros)
qed

lemma rfold_returns:
  assumes "\<And>x s. x \<in> set xs \<Longrightarrow> I s \<Longrightarrow> \<exists>s'. f x s = Inr s' \<and> I s'"
    and "I s"
  shows "\<exists>s'. rfold f xs s = Inr s' \<and> I s'"
  using assms
proof (induction xs arbitrary: s)
  case Nil
  then show ?case by simp
next
  case (Cons x xs)
  obtain s1 where "f x s = Inr s1" and "I s1"
    using Cons.prems by (meson list.set_intros(1))
  with Cons show ?case by simp
qed

section \<open>Splitting at a character\<close>

lemma takeWhile_stop: "\<forall>x \<in> set a. P x \<Longrightarrow> \<not> P c \<Longrightarrow> takeWhile P (a @ c # s) = a"
  by (simp add: takeWhile_append2)

lemma dropWhile_stop: "\<forall>x \<in> set a. P x \<Longrightarrow> \<not> P c \<Longrightarrow> dropWhile P (a @ c # s) = c # s"
  by (simp add: dropWhile_append2)

section \<open>Machine integers of the program\<close>

type_synonym u64 = "64 word"
type_synonym i32 = "32 word"

text \<open>A conversion of a C \<open>int\<close> to \<open>uint64_t\<close> sign-extends; \<open>int\<close> arithmetic that
  leaves the range is undefined.\<close>

definition int_range :: "int \<Rightarrow> bool" where
  "int_range i \<longleftrightarrow> - 2147483648 \<le> i \<and> i \<le> 2147483647"

definition int_res :: "int \<Rightarrow> int res" where
  "int_res i = (if int_range i then Inr i else Inl Int_Range)"

definition u64_of_int :: "int \<Rightarrow> u64" where
  "u64_of_int i = word_of_int i"

lemma int_res_Inr_iff [res_simps]: "int_res i = Inr j \<longleftrightarrow> int_range i \<and> j = i"
  by (auto simp: int_res_def)

lemma u64_of_int_nonneg: "0 \<le> i \<Longrightarrow> int_range i \<Longrightarrow> unat (u64_of_int i) = nat i"
  by (simp add: u64_of_int_def int_range_def unat_eq_nat_uint uint_word_of_int take_bit_int_eq_self_iff
      take_bit_int_eq_self)

end
