(* ===== verification/C_Strings.thy ===== *)
theory C_Strings
  imports Prelude
begin

text \<open>
  The part of the C standard library the program uses on strings. A C string is a list of
  characters without the NUL character; a byte buffer is any list of characters. The
  functions follow ISO C (\<open>strlen\<close>, \<open>memcmp\<close>, \<open>strtok\<close>, \<open>atoi\<close>,
  \<open>printf\<close>'s \<open>%d\<close>/\<open>%ld\<close>, \<open>scanf\<close>'s \<open>%2hhx\<close>, \<open>snprintf\<close>).
\<close>

section \<open>NUL-terminated strings\<close>

abbreviation NUL :: char where
  "NUL \<equiv> CHR 0x00"

text \<open>The string a reader sees in a buffer that was copied and then terminated.\<close>

definition cstr :: "string \<Rightarrow> string" where
  "cstr bs = takeWhile (\<lambda>c. c \<noteq> NUL) bs"

definition is_cstr :: "string \<Rightarrow> bool" where
  "is_cstr s \<longleftrightarrow> NUL \<notin> set s"

lemma is_cstr_cstr [simp]: "is_cstr (cstr bs)"
  unfolding is_cstr_def cstr_def using set_takeWhileD by fastforce

lemma cstr_id [simp]: "is_cstr s \<Longrightarrow> cstr s = s"
  by (auto simp: is_cstr_def cstr_def takeWhile_eq_all_conv)

lemma is_cstr_Nil [simp]: "is_cstr []"
  by (simp add: is_cstr_def)

lemma is_cstr_append [simp]: "is_cstr (s @ t) \<longleftrightarrow> is_cstr s \<and> is_cstr t"
  by (auto simp: is_cstr_def)

lemma is_cstr_Cons [simp]: "is_cstr (c # s) \<longleftrightarrow> c \<noteq> NUL \<and> is_cstr s"
  by (auto simp: is_cstr_def)

text \<open>
  \<open>memcmp(raw, key, n) == 0\<close> for a byte buffer of length \<open>n\<close> and a C string \<open>key\<close>, whose
  object has one byte more than its length. The first differing byte decides; when all of
  the key's object agrees and \<open>n\<close> is larger still, the comparison reads past it.
\<close>

definition memcmp_key :: "string \<Rightarrow> string \<Rightarrow> bool res" where
  "memcmp_key raw key =
     (let obj = key @ [NUL] in
      if length raw \<le> length obj then Inr (raw = take (length raw) obj)
      else if take (length obj) raw = obj then Inl Over_Read
      else Inr False)"

lemma memcmp_key_cstr: "is_cstr raw \<Longrightarrow> memcmp_key raw key = Inr (raw = take (length raw) key)"
proof -
  assume raw: "is_cstr raw"
  have "take (Suc (length key)) raw \<noteq> key @ [NUL]"
    using raw by (metis append_take_drop_id is_cstr_Cons is_cstr_append)
  moreover have "(raw = take (length raw) (key @ [NUL])) = (raw = take (length raw) key)"
    if "length raw \<le> Suc (length key)"
  proof (cases "length raw \<le> length key")
    case False
    with that have "length raw = Suc (length key)" by simp
    with raw show ?thesis
      by (metis False append.right_neutral is_cstr_Cons is_cstr_append length_append_singleton
          nat_le_linear take_all)
  qed simp
  moreover have "raw \<noteq> take (length raw) key" if "\<not> length raw \<le> Suc (length key)"
    using that by (metis length_take min.cobounded1 min.commute not_less_eq_eq nat_le_linear)
  ultimately show ?thesis
    by (auto simp: memcmp_key_def Let_def)
qed

section \<open>Decimal numbers\<close>

definition digit_char :: "nat \<Rightarrow> char" where
  "digit_char d = char_of (48 + d)"

definition is_digit :: "char \<Rightarrow> bool" where
  "is_digit c \<longleftrightarrow> 48 \<le> (of_char c :: nat) \<and> (of_char c :: nat) \<le> 57"

definition digit_val :: "char \<Rightarrow> nat" where
  "digit_val c = of_char c - 48"

fun show_nat :: "nat \<Rightarrow> string" where
  "show_nat n = (if n < 10 then [digit_char n] else show_nat (n div 10) @ [digit_char (n mod 10)])"

declare show_nat.simps [simp del]

text \<open>\<open>%d\<close> and \<open>%ld\<close>\<close>

definition show_int :: "int \<Rightarrow> string" where
  "show_int i = (if i < 0 then CHR ''-'' # show_nat (nat (- i)) else show_nat (nat i))"

definition is_space :: "char \<Rightarrow> bool" where
  "is_space c \<longleftrightarrow> c = CHR '' '' \<or> 9 \<le> (of_char c :: nat) \<and> (of_char c :: nat) \<le> 13"

fun digits_val :: "nat \<Rightarrow> string \<Rightarrow> nat" where
  "digits_val acc [] = acc"
| "digits_val acc (c # cs) = (if is_digit c then digits_val (acc * 10 + digit_val c) cs else acc)"

text \<open>\<open>atoi\<close>: leading white space, an optional sign, digits; a value outside \<open>int\<close> is
  undefined behaviour.\<close>

definition atoi :: "string \<Rightarrow> int res" where
  "atoi s =
     (case dropWhile is_space s of
        [] \<Rightarrow> Inr 0
      | c # cs \<Rightarrow>
          int_res (if c = CHR ''-'' then - int (digits_val 0 cs)
                   else if c = CHR ''+'' then int (digits_val 0 cs)
                   else int (digits_val 0 (c # cs))))"

lemma digit_char_facts:
  assumes "d < 10"
  shows "is_digit (digit_char d)" "digit_val (digit_char d) = d" "digit_char d \<noteq> CHR ''-''"
    "digit_char d \<noteq> CHR ''+''" "digit_char d \<noteq> CHR '':''" "\<not> is_space (digit_char d)"
    "digit_char d \<noteq> NUL"
proof -
  have *: "(of_char (digit_char d) :: nat) = 48 + d"
    using assms by (simp add: digit_char_def)
  show "is_digit (digit_char d)" "digit_val (digit_char d) = d"
    using assms * by (auto simp: is_digit_def digit_val_def)
  show "digit_char d \<noteq> CHR ''-''" "digit_char d \<noteq> CHR ''+''" "digit_char d \<noteq> CHR '':''"
    "digit_char d \<noteq> NUL"
    using assms * by auto
  show "\<not> is_space (digit_char d)"
    using assms * by (auto simp: is_space_def)
qed

lemma digit_chars:
  "digit_char 0 = CHR ''0''" "digit_char (Suc 0) = CHR ''1''" "digit_char 1 = CHR ''1''" "digit_char 2 = CHR ''2''"
  "digit_char 3 = CHR ''3''" "digit_char 4 = CHR ''4''" "digit_char 5 = CHR ''5''" "digit_char 6 = CHR ''6''"
  "digit_char 7 = CHR ''7''" "digit_char 8 = CHR ''8''" "digit_char 9 = CHR ''9''"
  by code_simp+

lemma show_nat_digits: "c \<in> set (show_nat n) \<Longrightarrow> \<exists>d<10. c = digit_char d"
proof (induction n rule: show_nat.induct)
  case (1 n)
  show ?case
  proof (cases "n < 10")
    case True
    with 1 show ?thesis by (auto simp: show_nat.simps [of n])
  next
    case False
    with 1 have "(\<exists>d<10. c = digit_char d) \<or> c = digit_char (n mod 10)"
      by (auto simp: show_nat.simps [of n])
    moreover have "n mod 10 < 10" by simp
    ultimately show ?thesis by blast
  qed
qed

lemma show_nat_not_Nil [simp]: "show_nat n \<noteq> []"
  by (subst show_nat.simps) simp

lemma digits_val_append:
  "(\<And>c. c \<in> set xs \<Longrightarrow> is_digit c) \<Longrightarrow> digits_val a (xs @ ys) = digits_val (digits_val a xs) ys"
  by (induction xs arbitrary: a) auto

lemma digits_val_show_nat: "digits_val 0 (show_nat n) = n"
proof (induction n rule: show_nat.induct)
  case (1 n)
  show ?case
  proof (cases "n < 10")
    case True
    then show ?thesis by (simp add: show_nat.simps [of n] digit_char_facts)
  next
    case False
    have dig: "is_digit c" if "c \<in> set (show_nat (n div 10))" for c
      using show_nat_digits [OF that] digit_char_facts(1) by blast
    have "digits_val 0 (show_nat n) = digits_val (digits_val 0 (show_nat (n div 10))) [digit_char (n mod 10)]"
      using False digits_val_append [of "show_nat (n div 10)", OF dig]
      by (simp add: show_nat.simps [of n])
    also have "\<dots> = n"
      using 1 [OF False] by (simp add: digit_char_facts)
    finally show ?thesis .
  qed
qed

lemma atoi_show_int:
  assumes "int_range i"
  shows "atoi (show_int i) = Inr i"
proof -
  obtain c cs where c: "show_nat (nat i) = c # cs"
    by (cases "show_nat (nat i)") auto
  then obtain d where "d < 10" "c = digit_char d"
    using show_nat_digits [of c "nat i"] by auto
  note f = digit_char_facts [OF \<open>d < 10\<close>, folded \<open>c = digit_char d\<close>]
  have "atoi (c # cs) = int_res (int (digits_val 0 (c # cs)))"
    using f by (simp add: atoi_def)
  then have pos: "0 \<le> i \<Longrightarrow> ?thesis"
    using assms digits_val_show_nat [of "nat i"] by (simp add: c show_int_def int_res_def)
  have neg: "i < 0 \<Longrightarrow> ?thesis"
    using assms by (simp add: atoi_def show_int_def is_space_def digits_val_show_nat int_res_def)
  from pos neg show ?thesis by linarith
qed

lemma show_int_not_Nil [simp]: "show_int i \<noteq> []"
  by (simp add: show_int_def)

lemma show_int_set:
  "c \<in> set (show_int i) \<Longrightarrow> c = CHR ''-'' \<or> (\<exists>d<10. c = digit_char d)"
  by (auto simp: show_int_def split: if_splits dest: show_nat_digits)

lemma show_int_no_colon [simp]: "CHR '':'' \<notin> set (show_int i)"
  using show_int_set digit_char_facts(5) by fastforce

lemma show_int_cstr [simp]: "is_cstr (show_int i)"
  unfolding is_cstr_def using show_int_set digit_char_facts(7) by fastforce

section \<open>Tokens\<close>

text \<open>
  The successive results of \<open>strtok(s, d)\<close>, \<open>strtok(NULL, d)\<close>, \<dots> for a delimiter set of
  one character: the maximal runs of other characters, none of them empty.
\<close>

function strtok_all :: "char \<Rightarrow> string \<Rightarrow> string list" where
  "strtok_all d s =
     (case dropWhile (\<lambda>c. c = d) s of
        [] \<Rightarrow> []
      | c # cs \<Rightarrow> (c # takeWhile (\<lambda>x. x \<noteq> d) cs) # strtok_all d (dropWhile (\<lambda>x. x \<noteq> d) cs))"
  by pat_completeness auto
termination
proof (relation "measure (\<lambda>(d, s). length s)")
  fix d :: char and s c and cs :: string
  assume "dropWhile (\<lambda>c. c = d) s = c # cs"
  then have "length cs < length s"
    by (metis Suc_le_lessD length_Cons length_dropWhile_le)
  then have "length (dropWhile (\<lambda>x. x \<noteq> d) cs) < length s"
    using length_dropWhile_le order_le_less_trans by blast
  then show "((d, dropWhile (\<lambda>x. x \<noteq> d) cs), (d, s)) \<in> measure (\<lambda>(d, s). length s)"
    by simp
qed simp

declare strtok_all.simps [simp del]

lemma strtok_all_Nil [simp]: "strtok_all d [] = []"
  by (simp add: strtok_all.simps)

lemma strtok_all_delim: "strtok_all d (d # s) = strtok_all d s"
  by (simp add: strtok_all.simps [of d "d # s"] strtok_all.simps [of d s])

lemma strtok_all_field:
  assumes "a \<noteq> []" and "d \<notin> set a"
  shows "strtok_all d (a @ d # s) = a # strtok_all d s"
proof -
  obtain c cs where a: "a = c # cs" using assms(1) by (cases a) auto
  have "c \<noteq> d" "takeWhile (\<lambda>x. x \<noteq> d) (cs @ d # s) = cs"
    "dropWhile (\<lambda>x. x \<noteq> d) (cs @ d # s) = d # s"
    using assms(2) by (auto simp: a takeWhile_append dropWhile_append)
  then show ?thesis
    by (simp add: a strtok_all.simps [of d "c # cs @ d # s"] strtok_all_delim)
qed

lemma strtok_all_last:
  assumes "a \<noteq> []" and "d \<notin> set a"
  shows "strtok_all d a = [a]"
proof -
  obtain c cs where a: "a = c # cs" using assms(1) by (cases a) auto
  have "c \<noteq> d" "takeWhile (\<lambda>x. x \<noteq> d) cs = cs" "dropWhile (\<lambda>x. x \<noteq> d) cs = []"
    using assms(2) by (auto simp: a takeWhile_eq_all_conv)
  then show ?thesis
    by (simp add: a strtok_all.simps [of d "c # cs"] del: takeWhile_eq_all_conv dropWhile_eq_Nil_conv)
qed

lemma strtok_all_tokens: "t \<in> set (strtok_all d s) \<Longrightarrow> t \<noteq> [] \<and> d \<notin> set t"
proof (induction d s rule: strtok_all.induct)
  case (1 d s)
  show ?case
  proof (cases "dropWhile (\<lambda>c. c = d) s")
    case Nil
    with 1 show ?thesis by (simp add: strtok_all.simps [of d s])
  next
    case (Cons c cs)
    have "c \<noteq> d" using hd_dropWhile [of "\<lambda>c. c = d" s] Cons by simp
    with 1 Cons show ?thesis
      by (auto simp: strtok_all.simps [of d s] dest: set_takeWhileD)
  qed
qed

section \<open>Hexadecimal bytes\<close>

definition hex_val :: "char \<Rightarrow> nat option" where
  "hex_val c =
     (let n = (of_char c :: nat) in
      if 48 \<le> n \<and> n \<le> 57 then Some (n - 48)
      else if 65 \<le> n \<and> n \<le> 70 then Some (n - 55)
      else if 97 \<le> n \<and> n \<le> 102 then Some (n - 87)
      else None)"

text \<open>\<open>sscanf(s, "%2hhx", &b)\<close> on two hexadecimal digits stores their value. Other input may
  leave \<open>b\<close> as it was, which is uninitialised in the program, or accept a sign, a prefix or
  white space; no behaviour is claimed for it.\<close>

definition scan_hex_byte :: "char \<Rightarrow> char \<Rightarrow> char res" where
  "scan_hex_byte a b =
     (case (hex_val a, hex_val b) of
        (Some x, Some y) \<Rightarrow> Inr (char_of (16 * x + y))
      | _ \<Rightarrow> Inl Uninit_Read)"

definition hex_digit :: "nat \<Rightarrow> char" where
  "hex_digit n = (if n < 10 then char_of (48 + n) else char_of (55 + n))"

definition show_hex_byte :: "char \<Rightarrow> string" where
  "show_hex_byte c = [hex_digit (of_char c div 16), hex_digit (of_char c mod 16)]"

lemma hex_val_digit: "n < 16 \<Longrightarrow> hex_val (hex_digit n) = Some n"
  by (auto simp: hex_val_def hex_digit_def Let_def)

lemma scan_show_hex_byte:
  "scan_hex_byte (hex_digit (of_char c div 16)) (hex_digit (of_char c mod 16)) = Inr c"
proof -
  have "(of_char c :: nat) < 256" by (rule nat_of_char_less_256)
  then have "(of_char c :: nat) div 16 < 16" by linarith
  then show ?thesis
    by (simp add: scan_hex_byte_def hex_val_digit)
qed

text \<open>\<open>strtol(s, NULL, base)\<close> for a base up to 16: leading white space, a sign, \<open>0x\<close> for base 16,
  digits of the base; a value outside \<open>long\<close> gives the nearest one.\<close>

definition base_digit :: "nat \<Rightarrow> char \<Rightarrow> nat option" where
  "base_digit base c = (case hex_val c of Some d \<Rightarrow> if d < base then Some d else None | None \<Rightarrow> None)"

fun base_val :: "nat \<Rightarrow> nat \<Rightarrow> string \<Rightarrow> nat" where
  "base_val base acc [] = acc"
| "base_val base acc (c # cs) =
     (case base_digit base c of Some d \<Rightarrow> base_val base (acc * base + d) cs | None \<Rightarrow> acc)"

fun skip_0x :: "string \<Rightarrow> string" where
  "skip_0x (a # b # c # s) =
     (if a = CHR ''0'' \<and> (b = CHR ''x'' \<or> b = CHR ''X'') \<and> hex_val c \<noteq> None then c # s else a # b # c # s)"
| "skip_0x s = s"

definition long_clamp :: "int \<Rightarrow> int" where
  "long_clamp i = max (-9223372036854775808) (min 9223372036854775807 i)"

definition strtol :: "nat \<Rightarrow> string \<Rightarrow> int" where
  "strtol base s =
     (let t = dropWhile is_space s;
          (neg, u) = (case t of c # cs \<Rightarrow> if c = CHR ''-'' then (True, cs) else if c = CHR ''+'' then (False, cs)
                                        else (False, t)
                              | [] \<Rightarrow> (False, []));
          v = int (base_val base 0 (if base = 16 then skip_0x u else u))
      in long_clamp (if neg then - v else v))"

section \<open>Bounded output\<close>

text \<open>\<open>snprintf(buf, n, "%s", s)\<close> for \<open>n > 0\<close>, and \<open>sprintf\<close> into an array of \<open>n\<close> bytes.\<close>

definition snprintf_str :: "nat \<Rightarrow> string \<Rightarrow> string" where
  "snprintf_str n s = take (n - 1) s"

definition sprintf_buf :: "nat \<Rightarrow> string \<Rightarrow> string res" where
  "sprintf_buf n s = (if length s < n then Inr s else Inl Buffer_Overflow)"

lemma sprintf_buf_Inr_iff [res_simps]: "sprintf_buf n s = Inr t \<longleftrightarrow> length s < n \<and> t = s"
  by (auto simp: sprintf_buf_def)

lemma snprintf_str_length: "0 < n \<Longrightarrow> length (snprintf_str n s) < n"
  by (simp add: snprintf_str_def)

section \<open>A string used as a format\<close>

text \<open>
  Two calls of \<open>log_err\<close> pass a string of a peer where the format belongs (\<^verbatim>\<open>src/logger.c\<close>):
  \<open>vsprintf\<close> writes it into a buffer of 1024 - 128 bytes, and a conversion in it reads an
  argument that was not passed. \<open>%%\<close> is the only one without an argument; as the conversions
  are not interpreted here, any percent sign counts as such a read.
\<close>

definition log_format :: "string \<Rightarrow> unit res" where
  "log_format fmt =
     (if CHR ''%'' \<in> set fmt then Inl Uninit_Read
      else if length fmt < 896 then Inr () else Inl Buffer_Overflow)"

lemma log_format_Inr_iff [res_simps]: "log_format fmt = Inr u \<longleftrightarrow> CHR ''%'' \<notin> set fmt \<and> length fmt < 896"
  by (auto simp: log_format_def)

end
