(* ===== verification/Czmq.thy ===== *)
theory Czmq
  imports C_Strings
begin

text \<open>
  The containers of the program as data. \<open>zhash_t\<close> is a finite map from strings with an
  unspecified iteration order: an association list with one entry per key, whose order is
  the order the next iteration would take. \<open>zlist_t\<close> is a list with the cursor that
  \<open>zlist_first\<close> and \<open>zlist_next\<close> move; a cursor that has run off the end (or was never
  set) is \<open>None\<close>, and \<open>zlist_next\<close> then starts at the head, which the program relies on.
  \<open>keyed_store\<close> is the contract of a hash table, \<open>iteration\<close> the contract between
  \<open>zhash_foreach\<close> and its callback.
\<close>

section \<open>Hash tables\<close>

type_synonym 'v zhash = "(string \<times> 'v) list"

definition zh_lookup :: "string \<Rightarrow> 'v zhash \<Rightarrow> 'v option" where
  "zh_lookup k h = map_of h k"

text \<open>\<open>zhash_insert\<close> leaves an entry that is already present unchanged.\<close>

definition zh_insert :: "string \<Rightarrow> 'v \<Rightarrow> 'v zhash \<Rightarrow> 'v zhash" where
  "zh_insert k v h = (if zh_lookup k h = None then h @ [(k, v)] else h)"

definition zh_delete :: "string \<Rightarrow> 'v zhash \<Rightarrow> 'v zhash" where
  "zh_delete k h = filter (\<lambda>e. fst e \<noteq> k) h"

text \<open>The item stored under \<open>k\<close> is changed through a pointer to it.\<close>

definition zh_modify :: "string \<Rightarrow> 'v \<Rightarrow> 'v zhash \<Rightarrow> 'v zhash" where
  "zh_modify k v h = map (\<lambda>e. if fst e = k then (k, v) else e) h"

definition zh_keys :: "'v zhash \<Rightarrow> string list" where
  "zh_keys h = map fst h"

definition zh_wf :: "'v zhash \<Rightarrow> bool" where
  "zh_wf h \<longleftrightarrow> distinct (zh_keys h)"

lemma zh_lookup_Nil [simp]: "zh_lookup k [] = None"
  by (simp add: zh_lookup_def)

lemma zh_lookup_Cons: "zh_lookup k ((k', v) # h) = (if k = k' then Some v else zh_lookup k h)"
  by (simp add: zh_lookup_def)

lemma zh_lookup_insert:
  "zh_lookup k (zh_insert k' v h) =
     (if k = k' \<and> zh_lookup k h = None then Some v else zh_lookup k h)"
  by (auto simp: zh_insert_def zh_lookup_def map_add_def split: option.splits)

lemma zh_lookup_delete: "zh_lookup k (zh_delete k' h) = (if k = k' then None else zh_lookup k h)"
  by (induction h) (auto simp: zh_delete_def zh_lookup_def)

lemma zh_lookup_modify:
  "zh_lookup k (zh_modify k' v h) =
     (if k = k' \<and> zh_lookup k h \<noteq> None then Some v else zh_lookup k h)"
  by (induction h) (auto simp: zh_modify_def zh_lookup_def)

lemma zh_keys_iff: "k \<in> set (zh_keys h) \<longleftrightarrow> zh_lookup k h \<noteq> None"
  by (simp add: zh_keys_def zh_lookup_def map_of_eq_None_iff)

lemma zh_wf_Nil [simp]: "zh_wf []"
  by (simp add: zh_wf_def zh_keys_def)

lemma zh_wf_insert: "zh_wf h \<Longrightarrow> zh_wf (zh_insert k v h)"
  using zh_keys_iff [of k h] by (auto simp: zh_insert_def zh_wf_def zh_keys_def)

lemma zh_wf_delete: "zh_wf h \<Longrightarrow> zh_wf (zh_delete k h)"
  by (induction h) (auto simp: zh_wf_def zh_keys_def zh_delete_def)

lemma zh_keys_modify [simp]: "zh_keys (zh_modify k v h) = zh_keys h"
  by (induction h) (auto simp: zh_keys_def zh_modify_def)

lemma zh_wf_modify: "zh_wf h \<Longrightarrow> zh_wf (zh_modify k v h)"
  by (simp add: zh_wf_def)

lemma zh_lookup_in_set: "zh_wf h \<Longrightarrow> (k, v) \<in> set h \<longleftrightarrow> zh_lookup k h = Some v"
  by (simp add: zh_wf_def zh_keys_def zh_lookup_def map_of_eq_Some_iff)

text \<open>The iteration order is not part of the table: a permutation is the same table.\<close>

definition zh_same :: "'v zhash \<Rightarrow> 'v zhash \<Rightarrow> bool" where
  "zh_same h h' \<longleftrightarrow> zh_wf h' \<and> set h' = set h"

lemma zh_same_lookup: "zh_wf h \<Longrightarrow> zh_same h h' \<Longrightarrow> zh_lookup k h' = zh_lookup k h"
  unfolding zh_same_def by (metis not_None_eq zh_lookup_in_set)

subsection \<open>The contract of a hash table\<close>

locale keyed_store =
  fixes lookup :: "string \<Rightarrow> 's \<Rightarrow> 'v option"
    and insert_new :: "string \<Rightarrow> 'v \<Rightarrow> 's \<Rightarrow> 's"
    and delete :: "string \<Rightarrow> 's \<Rightarrow> 's"
    and modify :: "string \<Rightarrow> 'v \<Rightarrow> 's \<Rightarrow> 's"
  assumes lookup_insert: "lookup k (insert_new k' v s) =
      (if k = k' \<and> lookup k s = None then Some v else lookup k s)"
    and lookup_delete: "lookup k (delete k' s) = (if k = k' then None else lookup k s)"
    and lookup_modify: "lookup k (modify k' v s) =
      (if k = k' \<and> lookup k s \<noteq> None then Some v else lookup k s)"
begin

text \<open>A property of all entries is kept when the entry written has it.\<close>

lemma all_insert:
  "(\<And>k v. lookup k s = Some v \<Longrightarrow> P k v) \<Longrightarrow> P k' v' \<Longrightarrow>
   lookup k (insert_new k' v' s) = Some v \<Longrightarrow> P k v"
  by (auto simp: lookup_insert split: if_splits)

lemma all_delete:
  "(\<And>k v. lookup k s = Some v \<Longrightarrow> P k v) \<Longrightarrow> lookup k (delete k' s) = Some v \<Longrightarrow> P k v"
  by (auto simp: lookup_delete split: if_splits)

lemma all_modify:
  "(\<And>k v. lookup k s = Some v \<Longrightarrow> P k v) \<Longrightarrow> P k' v' \<Longrightarrow>
   lookup k (modify k' v' s) = Some v \<Longrightarrow> P k v"
  by (auto simp: lookup_modify split: if_splits)

text \<open>The first insertion under a key wins; a later one has no effect.\<close>

lemma insert_twice:
  "lookup k (insert_new k' w (insert_new k' v s)) = lookup k (insert_new k' v s)"
  by (auto simp: lookup_insert)

lemma first_insert_wins:
  "lookup k (fold (\<lambda>(k', v) s. insert_new k' v s) es s) =
     (case lookup k s of Some v \<Rightarrow> Some v | None \<Rightarrow> map_of es k)"
proof (induction es arbitrary: s)
  case Nil
  then show ?case by (simp split: option.splits)
next
  case (Cons e es)
  obtain k' v where e: "e = (k', v)" by (cases e)
  show ?case
    using Cons.IH [of "insert_new k' v s"]
    by (auto simp: e lookup_insert split: option.splits if_splits)
qed

lemma delete_insert_absent:
  "lookup k' s = None \<Longrightarrow> lookup k (delete k' (insert_new k' v s)) = lookup k s"
  by (auto simp: lookup_delete lookup_insert)

end

interpretation zh: keyed_store zh_lookup zh_insert zh_delete zh_modify
  by unfold_locales (auto simp: zh_lookup_insert zh_lookup_delete zh_lookup_modify)

section \<open>Iteration over a hash table\<close>

text \<open>
  \<open>zhash_foreach\<close> calls its callback on every item; a non-zero return code ends it. The table
  itself lives in the state, where \<open>get\<close> finds it; the callbacks of the program delete at
  most the item they are called on.
\<close>

fun zh_visit :: "('s \<Rightarrow> 'v zhash) \<Rightarrow> (string \<Rightarrow> 'v \<Rightarrow> 's \<Rightarrow> (int \<times> 's) res) \<Rightarrow> string list \<Rightarrow> 's \<Rightarrow>
    (int \<times> 's) res" where
  "zh_visit get cb [] s = Inr (0, s)"
| "zh_visit get cb (k # ks) s =
     (case zh_lookup k (get s) of
        None \<Rightarrow> zh_visit get cb ks s
      | Some v \<Rightarrow> rbind (cb k v s) (\<lambda>(rc, s').
          if rc \<noteq> 0 then Inr (rc, s') else zh_visit get cb ks s'))"

definition zh_foreach :: "('s \<Rightarrow> 'v zhash) \<Rightarrow> (string \<Rightarrow> 'v \<Rightarrow> 's \<Rightarrow> (int \<times> 's) res) \<Rightarrow> 's \<Rightarrow>
    (int \<times> 's) res" where
  "zh_foreach get cb s = zh_visit get cb (zh_keys (get s)) s"

text \<open>The contract between the iteration and a callback: an invariant of the state.\<close>

locale iteration =
  fixes get :: "'s \<Rightarrow> 'v zhash"
    and cb :: "string \<Rightarrow> 'v \<Rightarrow> 's \<Rightarrow> (int \<times> 's) res"
    and inv :: "'s \<Rightarrow> bool"
  assumes keeps: "inv s \<Longrightarrow> zh_lookup k (get s) = Some v \<Longrightarrow> cb k v s = Inr (rc, s') \<Longrightarrow> inv s'"
begin

lemma visit_keeps: "inv s \<Longrightarrow> zh_visit get cb ks s = Inr (rc, s') \<Longrightarrow> inv s'"
proof (induction ks arbitrary: s)
  case Nil
  then show ?case by simp
next
  case (Cons k ks)
  then show ?case
    by (auto simp: res_simps split: option.splits if_splits intro: keeps)
qed

lemma foreach_keeps: "inv s \<Longrightarrow> zh_foreach get cb s = Inr (rc, s') \<Longrightarrow> inv s'"
  by (auto simp: zh_foreach_def intro: visit_keeps)

text \<open>An iteration that is not ended early reaches every key that the invariant keeps.\<close>

lemma visit_reaches:
  assumes "\<forall>j v s rc s'. cb j v s = Inr (rc, s') \<longrightarrow> rc = 0"
    and "\<forall>s. inv s \<longrightarrow> zh_lookup k (get s) \<noteq> None"
  shows "inv s \<Longrightarrow> zh_visit get cb ks s = Inr (rc, s') \<Longrightarrow> k \<in> set ks \<Longrightarrow>
    \<exists>s1 v r. inv s1 \<and> zh_lookup k (get s1) = Some v \<and> cb k v s1 = Inr r"
proof (induction ks arbitrary: s)
  case (Cons j ks)
  show ?case
  proof (cases "zh_lookup j (get s)")
    case None
    with assms(2) Cons.prems(1) have "j \<noteq> k" by auto
    with Cons None show ?thesis by simp
  next
    case (Some v)
    obtain r s1 where item: "cb j v s = Inr (r, s1)"
      and next_: "(if r \<noteq> 0 then Inr (r, s1) else zh_visit get cb ks s1) = Inr (rc, s')"
      using Cons.prems(2) Some by (auto simp: res_simps)
    have "r = 0" using assms(1) item by blast
    with item next_ have cb: "cb j v s = Inr (0, s1)" and rest: "zh_visit get cb ks s1 = Inr (rc, s')"
      by simp_all
    show ?thesis
    proof (cases "j = k")
      case True
      with Cons.prems(1) Some cb show ?thesis by blast
    next
      case False
      with Cons.IH [OF keeps [OF Cons.prems(1) Some cb] rest] Cons.prems(3) show ?thesis by auto
    qed
  qed
qed simp

lemma foreach_reaches:
  assumes "\<forall>j v s rc s'. cb j v s = Inr (rc, s') \<longrightarrow> rc = 0"
    and "\<forall>s. inv s \<longrightarrow> zh_lookup k (get s) \<noteq> None"
    and "inv s" and "zh_foreach get cb s = Inr (rc, s')"
  shows "\<exists>s1 v r. inv s1 \<and> zh_lookup k (get s1) = Some v \<and> cb k v s1 = Inr r"
proof -
  have "k \<in> set (zh_keys (get s))" using assms(2,3) by (simp add: zh_keys_iff)
  from visit_reaches [OF assms(1-3) assms(4) [unfolded zh_foreach_def] this] show ?thesis .
qed

end

text \<open>A callback that moreover never faults under the invariant.\<close>

locale safe_iteration = iteration get cb inv
  for get :: "'s \<Rightarrow> 'v zhash"
    and cb :: "string \<Rightarrow> 'v \<Rightarrow> 's \<Rightarrow> (int \<times> 's) res"
    and inv :: "'s \<Rightarrow> bool" +
  assumes safe: "inv s \<Longrightarrow> zh_lookup k (get s) = Some v \<Longrightarrow> returns (cb k v s)"
begin

lemma visit_returns: "inv s \<Longrightarrow> returns (zh_visit get cb ks s)"
proof (induction ks arbitrary: s)
  case Nil
  then show ?case by simp
next
  case (Cons k ks)
  show ?case
  proof (cases "zh_lookup k (get s)")
    case None
    with Cons show ?thesis by simp
  next
    case (Some v)
    obtain rc s' where cb: "cb k v s = Inr (rc, s')"
      using safe [OF Cons.prems Some] by (auto simp: returns_iff)
    with keeps [OF Cons.prems Some cb] Cons.IH Some show ?thesis by simp
  qed
qed

lemma foreach_returns: "inv s \<Longrightarrow> returns (zh_foreach get cb s)"
  by (simp add: zh_foreach_def visit_returns)

end

section \<open>Lists with a cursor\<close>

record 'a zlist =
  zl_items :: "'a list"
  zl_cur :: "nat option"

definition zl_new :: "'a zlist" where
  "zl_new = \<lparr>zl_items = [], zl_cur = None\<rparr>"

definition zl_size :: "'a zlist \<Rightarrow> nat" where
  "zl_size l = length (zl_items l)"

definition zl_first :: "'a zlist \<Rightarrow> 'a option \<times> 'a zlist" where
  "zl_first l = (case zl_items l of
      [] \<Rightarrow> (None, l\<lparr>zl_cur := None\<rparr>)
    | x # _ \<Rightarrow> (Some x, l\<lparr>zl_cur := Some 0\<rparr>))"

definition zl_next :: "'a zlist \<Rightarrow> 'a option \<times> 'a zlist" where
  "zl_next l = (case zl_cur l of
      None \<Rightarrow> zl_first l
    | Some i \<Rightarrow>
        if Suc i < length (zl_items l)
        then (Some (zl_items l ! Suc i), l\<lparr>zl_cur := Some (Suc i)\<rparr>)
        else (None, l\<lparr>zl_cur := None\<rparr>))"

definition zl_append :: "'a \<Rightarrow> 'a zlist \<Rightarrow> 'a zlist" where
  "zl_append x l = \<lparr>zl_items = zl_items l @ [x], zl_cur = None\<rparr>"

text \<open>\<open>zlist_remove\<close> unlinks the first matching item; a cursor on it steps back.\<close>

fun first_index :: "('a \<Rightarrow> bool) \<Rightarrow> 'a list \<Rightarrow> nat option" where
  "first_index P [] = None"
| "first_index P (x # xs) = (if P x then Some 0 else map_option Suc (first_index P xs))"

definition remove_at :: "nat \<Rightarrow> 'a list \<Rightarrow> 'a list" where
  "remove_at i xs = take i xs @ drop (Suc i) xs"

definition zl_remove :: "('a \<Rightarrow> bool) \<Rightarrow> 'a zlist \<Rightarrow> 'a zlist" where
  "zl_remove P l = (case first_index P (zl_items l) of
      None \<Rightarrow> l
    | Some i \<Rightarrow>
        \<lparr>zl_items = remove_at i (zl_items l),
         zl_cur = (case zl_cur l of
             None \<Rightarrow> None
           | Some j \<Rightarrow> if j < i then Some j else if j = 0 then None else Some (j - 1))\<rparr>)"

text \<open>The items a run of \<open>zlist_next\<close> would still return, and the list after that run.\<close>

definition zl_rest :: "'a zlist \<Rightarrow> 'a list" where
  "zl_rest l = (case zl_cur l of None \<Rightarrow> zl_items l | Some i \<Rightarrow> drop (Suc i) (zl_items l))"

definition zl_end :: "'a zlist \<Rightarrow> 'a zlist" where
  "zl_end l = l\<lparr>zl_cur := None\<rparr>"

lemma zl_items_end [simp]: "zl_items (zl_end l) = zl_items l"
  by (simp add: zl_end_def)

lemma zl_cur_end [simp]: "zl_cur (zl_end l) = None"
  by (simp add: zl_end_def)

lemma zl_items_append [simp]: "zl_items (zl_append x l) = zl_items l @ [x]"
  by (simp add: zl_append_def)

lemma zl_items_new [simp]: "zl_items zl_new = []"
  by (simp add: zl_new_def)

text \<open>
  The two loop shapes of the program: \<open>x = start; while (x) { body; x = zlist_next(l); }\<close>,
  and the same with an early exit at the first item that satisfies a test. The fuel bounds
  the number of iterations; one more than the items left is enough.
\<close>

fun zl_each :: "nat \<Rightarrow> ('a \<Rightarrow> 's \<Rightarrow> 's res) \<Rightarrow> 'a option \<times> 'a zlist \<Rightarrow> 's \<Rightarrow> ('s \<times> 'a zlist) res"
where
  "zl_each n f (None, l) s = Inr (s, l)"
| "zl_each 0 f (Some x, l) s = Inr (s, l)"
| "zl_each (Suc n) f (Some x, l) s = rbind (f x s) (\<lambda>s'. zl_each n f (zl_next l) s')"

fun zl_search :: "nat \<Rightarrow> ('a \<Rightarrow> bool) \<Rightarrow> 'a option \<times> 'a zlist \<Rightarrow> 'a option \<times> 'a zlist" where
  "zl_search n P (None, l) = (None, l)"
| "zl_search 0 P (Some x, l) = (None, l)"
| "zl_search (Suc n) P (Some x, l) = (if P x then (Some x, l) else zl_search n P (zl_next l))"

definition zl_find :: "('a \<Rightarrow> bool) \<Rightarrow> 'a zlist \<Rightarrow> 'a option \<times> 'a zlist" where
  "zl_find P l = zl_search (Suc (zl_size l)) P (zl_first l)"

definition zl_iterate :: "('a \<Rightarrow> 's \<Rightarrow> 's res) \<Rightarrow> 'a zlist \<Rightarrow> 's \<Rightarrow> ('s \<times> 'a zlist) res" where
  "zl_iterate f l s = zl_each (Suc (zl_size l)) f (zl_first l) s"

lemma zl_next_Some_cur:
  assumes "zl_cur l = Some i"
  shows "zl_next l = (case drop (Suc i) (zl_items l) of
      [] \<Rightarrow> (None, zl_end l)
    | x # _ \<Rightarrow> (Some x, l\<lparr>zl_cur := Some (Suc i)\<rparr>))"
  using assms
  by (cases "Suc i < length (zl_items l)")
    (auto simp: zl_next_def zl_end_def Cons_nth_drop_Suc [symmetric])

lemma zl_each_tail:
  assumes "zl_cur l = Some i" and "length (drop (Suc i) (zl_items l)) < n"
  shows "zl_each n f (zl_next l) s =
    rbind (rfold f (drop (Suc i) (zl_items l)) s) (\<lambda>s'. Inr (s', zl_end l))"
  using assms
proof (induction n arbitrary: l i s)
  case 0
  then show ?case by simp
next
  case (Suc n)
  show ?case
  proof (cases "drop (Suc i) (zl_items l)")
    case Nil
    with Suc.prems(1) show ?thesis by (simp add: zl_next_Some_cur)
  next
    case (Cons x xs)
    let ?l = "l\<lparr>zl_cur := Some (Suc i)\<rparr>"
    have xs: "drop (Suc (Suc i)) (zl_items l) = xs"
      using Cons by (metis drop_Suc list.sel(3) tl_drop)
    have "zl_each n f (zl_next ?l) s' = rbind (rfold f xs s') (\<lambda>s'. Inr (s', zl_end l))" for s'
      using Suc.IH [of ?l "Suc i" s'] Suc.prems(2) Cons xs by (simp add: zl_end_def)
    then show ?thesis
      by (simp add: zl_next_Some_cur [OF Suc.prems(1)] Cons rbind_assoc cong: rbind_cong)
  qed
qed

text \<open>A loop started by \<open>zlist_first\<close> visits the items in order and leaves the cursor off the
  end; a loop continued on a list visits an item and then what its cursor has left.\<close>

lemma zl_iterate_eq:
  "zl_iterate f l s = rbind (rfold f (zl_items l) s) (\<lambda>s'. Inr (s', zl_end l))"
proof (cases "zl_items l")
  case Nil
  then show ?thesis by (simp add: zl_iterate_def zl_first_def zl_end_def)
next
  case (Cons x xs)
  let ?l = "l\<lparr>zl_cur := Some 0\<rparr>"
  have "zl_each (zl_size l) f (zl_next ?l) s' = rbind (rfold f xs s') (\<lambda>s'. Inr (s', zl_end l))" for s'
    using zl_each_tail [of ?l 0 "zl_size l" f s'] Cons by (simp add: zl_size_def zl_end_def)
  then show ?thesis
    by (simp add: zl_iterate_def zl_first_def Cons rbind_assoc cong: rbind_cong)
qed

lemma zl_each_next:
  assumes "zl_size l < n"
  shows "zl_each n f (zl_next l) s = rbind (rfold f (zl_rest l) s) (\<lambda>s'. Inr (s', zl_end l))"
proof (cases "zl_cur l")
  case (Some i)
  with assms show ?thesis
    by (simp add: zl_each_tail zl_rest_def zl_size_def)
next
  case None
  show ?thesis
  proof (cases "zl_items l")
    case Nil
    with None show ?thesis by (simp add: zl_next_def zl_first_def zl_rest_def zl_end_def)
  next
    case (Cons x xs)
    let ?l = "l\<lparr>zl_cur := Some 0\<rparr>"
    obtain m where n: "n = Suc m" and m: "length xs < m"
      using assms Cons by (cases n) (auto simp: zl_size_def)
    have "zl_each m f (zl_next ?l) s' = rbind (rfold f xs s') (\<lambda>s'. Inr (s', zl_end l))" for s'
      using zl_each_tail [of ?l 0 m f s'] Cons m by (simp add: zl_end_def)
    with None n Cons show ?thesis
      by (simp add: zl_next_def zl_first_def zl_rest_def rbind_assoc cong: rbind_cong)
  qed
qed

text \<open>The body of a loop may move to another list; what follows the first item is then the
  rest of that list.\<close>

lemma zl_each_cross:
  assumes "Suc (zl_size l) < n"
  shows "zl_each n f (Some x, l) s = rbind (rfold f (x # zl_rest l) s) (\<lambda>s'. Inr (s', zl_end l))"
proof (cases n)
  case 0
  with assms show ?thesis by simp
next
  case (Suc m)
  with assms show ?thesis by (simp add: zl_each_next rbind_assoc cong: rbind_cong)
qed

lemma zl_search_tail:
  assumes "zl_cur l = Some i" and "length (drop (Suc i) (zl_items l)) < n"
  shows "fst (zl_search n P (zl_next l)) = find P (drop (Suc i) (zl_items l)) \<and>
    zl_items (snd (zl_search n P (zl_next l))) = zl_items l"
  using assms
proof (induction n arbitrary: l i)
  case 0
  then show ?case by simp
next
  case (Suc n)
  show ?case
  proof (cases "drop (Suc i) (zl_items l)")
    case Nil
    with Suc.prems(1) show ?thesis by (simp add: zl_next_Some_cur)
  next
    case (Cons x xs)
    let ?l = "l\<lparr>zl_cur := Some (Suc i)\<rparr>"
    have xs: "drop (Suc (Suc i)) (zl_items l) = xs"
      using Cons by (metis drop_Suc list.sel(3) tl_drop)
    have "fst (zl_search n P (zl_next ?l)) = find P xs \<and>
      zl_items (snd (zl_search n P (zl_next ?l))) = zl_items l"
      using Suc.IH [of ?l "Suc i"] Suc.prems(2) Cons xs by simp
    then show ?thesis
      by (simp add: zl_next_Some_cur [OF Suc.prems(1)] Cons)
  qed
qed

lemma zl_find_eq:
  "fst (zl_find P l) = find P (zl_items l)" "zl_items (snd (zl_find P l)) = zl_items l"
proof -
  have "fst (zl_find P l) = find P (zl_items l) \<and> zl_items (snd (zl_find P l)) = zl_items l"
  proof (cases "zl_items l")
    case Nil
    then show ?thesis by (simp add: zl_find_def zl_first_def)
  next
    case (Cons x xs)
    let ?l = "l\<lparr>zl_cur := Some 0\<rparr>"
    have "fst (zl_search (zl_size l) P (zl_next ?l)) = find P xs \<and>
      zl_items (snd (zl_search (zl_size l) P (zl_next ?l))) = zl_items l"
      using zl_search_tail [of ?l 0 "zl_size l" P] Cons by (simp add: zl_size_def)
    then show ?thesis
      by (simp add: zl_find_def zl_first_def Cons)
  qed
  then show "fst (zl_find P l) = find P (zl_items l)" "zl_items (snd (zl_find P l)) = zl_items l"
    by auto
qed

lemma find_SomeD: "find P xs = Some x \<Longrightarrow> x \<in> set xs \<and> P x"
  by (auto simp: find_Some_iff)

lemma first_index_remove: 
  "distinct xs \<Longrightarrow> first_index P xs = Some i \<Longrightarrow> \<forall>x \<in> set xs. P x \<longrightarrow> x = xs ! i \<Longrightarrow>
   remove_at i xs = filter (\<lambda>x. \<not> P x) xs"
proof (induction xs arbitrary: i)
  case Nil
  then show ?case by simp
next
  case (Cons x xs)
  show ?case
  proof (cases "P x")
    case True
    with Cons.prems have "\<forall>y \<in> set xs. \<not> P y" by auto
    with True Cons.prems show ?thesis by (auto simp: remove_at_def)
  next
    case False
    then obtain j where "first_index P xs = Some j" "i = Suc j"
      using Cons.prems(2) by auto
    with False Cons show ?thesis by (auto simp: remove_at_def)
  qed
qed

lemma first_index_None: "first_index P xs = None \<longleftrightarrow> (\<forall>x \<in> set xs. \<not> P x)"
  by (induction xs) auto

lemma first_index_Some: "first_index P xs = Some i \<Longrightarrow> i < length xs \<and> P (xs ! i)"
  by (induction xs arbitrary: i) (auto split: if_splits)

lemma zl_items_remove:
  assumes "distinct (zl_items l)" and "\<And>x y. x \<in> set (zl_items l) \<Longrightarrow> y \<in> set (zl_items l) \<Longrightarrow> P x \<Longrightarrow> P y \<Longrightarrow> x = y"
  shows "zl_items (zl_remove P l) = filter (\<lambda>x. \<not> P x) (zl_items l)"
proof (cases "first_index P (zl_items l)")
  case None
  then have "filter (\<lambda>x. \<not> P x) (zl_items l) = zl_items l"
    by (simp add: first_index_None)
  with None show ?thesis by (simp add: zl_remove_def)
next
  case (Some i)
  with assms(2) first_index_Some [OF Some] have "\<forall>x \<in> set (zl_items l). P x \<longrightarrow> x = zl_items l ! i" by simp
  with Some assms(1) show ?thesis by (simp add: zl_remove_def first_index_remove)
qed

end
