(* ===== verification/Helper.thy ===== *)
theory Helper
  imports Czmq
begin

text \<open>
  \<^verbatim>\<open>src/modbus_helper.c\<close>: access to unpacked msgpack objects. An object is the tagged union
  of the msgpack library (raw bytes for strings, unsigned and negative integers in 64-bit
  fields, doubles by their bit pattern); the readers below walk its maps. Reading a member
  of the union that the tag does not select is \<open>Type_Confusion\<close>.
\<close>

section \<open>Objects\<close>

datatype mobj =
    MNil
  | MBool bool
  | MPos u64
  | MNeg u64
  | MDbl u64
  | MRaw string
  | MArr "mobj list"
  | MMap "(mobj \<times> mobj) list"

text \<open>What packing an integer and unpacking it again gives.\<close>

definition mint :: "int \<Rightarrow> mobj" where
  "mint i = (if 0 \<le> i then MPos (word_of_int i) else MNeg (word_of_int i))"

text \<open>\<open>m_pack_raw\<close> packs nothing for a \<open>NULL\<close> string.\<close>

definition m_pack_raw :: "string option \<Rightarrow> mobj list \<Rightarrow> mobj list" where
  "m_pack_raw name pk = (case name of None \<Rightarrow> pk | Some s \<Rightarrow> pk @ [MRaw s])"

section \<open>Key comparison\<close>

text \<open>\<open>memcmp(p->key.via.raw.ptr, key, p->key.via.raw.size) == 0\<close>: the map's key is a prefix of the
  one asked for.\<close>

definition key_prefix :: "mobj \<Rightarrow> string \<Rightarrow> bool res" where
  "key_prefix k key = (case k of MRaw bs \<Rightarrow> memcmp_key bs key | _ \<Rightarrow> Inl Type_Confusion)"

text \<open>The comparison of the \<open>m_get_\<close> functions also compares the lengths.\<close>

definition key_equal :: "mobj \<Rightarrow> string \<Rightarrow> bool res" where
  "key_equal k key = (case k of MRaw bs \<Rightarrow> Inr (length bs = length key \<and> bs = key) | _ \<Rightarrow> Inl Type_Confusion)"

section \<open>Lookup\<close>

text \<open>The pointer \<open>m_lookup\<close> returns: a fresh C string, or the address of the integer or of
  the object in the map.\<close>

datatype lookup_val = LStr string | LU64 u64 | LI64 u64 | LObj mobj

fun m_lookup :: "mobj \<Rightarrow> string \<Rightarrow> lookup_val option res"
  and m_lookup_kvs :: "(mobj \<times> mobj) list \<Rightarrow> string \<Rightarrow> lookup_val option res" where
  "m_lookup o1 key = (case o1 of MMap kvs \<Rightarrow> m_lookup_kvs kvs key | _ \<Rightarrow> Inr None)"
| "m_lookup_kvs [] key = Inr None"
| "m_lookup_kvs ((k, v) # kvs) key =
     (case v of
        MRaw bs \<Rightarrow> rbind (key_prefix k key) (\<lambda>b.
          if b then Inr (Some (LStr (cstr bs))) else m_lookup_kvs kvs key)
      | MPos u \<Rightarrow> rbind (key_prefix k key) (\<lambda>b.
          if b then Inr (Some (LU64 u)) else m_lookup_kvs kvs key)
      | MNeg i \<Rightarrow> rbind (key_prefix k key) (\<lambda>b.
          if b then Inr (Some (LI64 i)) else m_lookup_kvs kvs key)
      | MMap _ \<Rightarrow> rbind (key_prefix k key) (\<lambda>b.
          if b then Inr (Some (LObj v))
          else rbind (m_lookup v key) (\<lambda>data.
            case data of Some d \<Rightarrow> Inr (Some d) | None \<Rightarrow> m_lookup_kvs kvs key))
      | MArr _ \<Rightarrow> rbind (key_prefix k key) (\<lambda>b.
          if b then Inr (Some (LObj v)) else m_lookup_kvs kvs key)
      | _ \<Rightarrow> m_lookup_kvs kvs key)"

fun m_find_map_kvs :: "(mobj \<times> mobj) list \<Rightarrow> string \<Rightarrow> mobj option res" where
  "m_find_map_kvs [] key = Inr None"
| "m_find_map_kvs ((k, v) # kvs) key =
     rbind (key_prefix k key) (\<lambda>b. if b then Inr (Some v) else m_find_map_kvs kvs key)"

definition m_find_map :: "mobj \<Rightarrow> string \<Rightarrow> mobj option res" where
  "m_find_map o1 key = (case o1 of MMap kvs \<Rightarrow> m_find_map_kvs kvs key | _ \<Rightarrow> Inr None)"

section \<open>Typed readers\<close>

text \<open>The readers take the object to be a map without looking at its tag. \<open>m_get_string\<close> returns
  what the recursive call finds in a nested map; the others drop it.\<close>

fun m_get_str :: "mobj \<Rightarrow> string \<Rightarrow> string option res"
  and m_get_str_kvs :: "(mobj \<times> mobj) list \<Rightarrow> string \<Rightarrow> string option res" where
  "m_get_str o1 key = (case o1 of MMap kvs \<Rightarrow> m_get_str_kvs kvs key | _ \<Rightarrow> Inl Type_Confusion)"
| "m_get_str_kvs [] key = Inr None"
| "m_get_str_kvs ((k, v) # kvs) key =
     rbind (key_equal k key) (\<lambda>b.
       case v of
         MRaw bs \<Rightarrow> if b then Inr (Some (cstr bs)) else m_get_str_kvs kvs key
       | MMap _ \<Rightarrow> rbind (m_get_str v key) (\<lambda>value.
           case value of Some s \<Rightarrow> Inr (Some s) | None \<Rightarrow> m_get_str_kvs kvs key)
       | _ \<Rightarrow> m_get_str_kvs kvs key)"

definition m_get_string :: "mobj option \<Rightarrow> string \<Rightarrow> string option res" where
  "m_get_string o1 key = (case o1 of None \<Rightarrow> Inr None | Some ob \<Rightarrow> m_get_str ob key)"

fun m_get_u64 :: "mobj \<Rightarrow> string \<Rightarrow> u64 res"
  and m_get_u64_kvs :: "(mobj \<times> mobj) list \<Rightarrow> string \<Rightarrow> u64 res" where
  "m_get_u64 o1 key = (case o1 of MMap kvs \<Rightarrow> m_get_u64_kvs kvs key | _ \<Rightarrow> Inl Type_Confusion)"
| "m_get_u64_kvs [] key = Inr 0"
| "m_get_u64_kvs ((k, v) # kvs) key =
     rbind (key_equal k key) (\<lambda>b.
       case v of
         MPos u \<Rightarrow> if b then Inr u else m_get_u64_kvs kvs key
       | MNeg i \<Rightarrow> if b then Inr i else m_get_u64_kvs kvs key
       | MMap _ \<Rightarrow> rbind (m_get_u64 v key) (\<lambda>_. m_get_u64_kvs kvs key)
       | _ \<Rightarrow> m_get_u64_kvs kvs key)"

definition m_get_int :: "mobj option \<Rightarrow> string \<Rightarrow> u64 res" where
  "m_get_int o1 key = (case o1 of None \<Rightarrow> Inr 0 | Some ob \<Rightarrow> m_get_u64 ob key)"

fun m_get_dbl :: "mobj \<Rightarrow> string \<Rightarrow> u64 res"
  and m_get_dbl_kvs :: "(mobj \<times> mobj) list \<Rightarrow> string \<Rightarrow> u64 res" where
  "m_get_dbl o1 key = (case o1 of MMap kvs \<Rightarrow> m_get_dbl_kvs kvs key | _ \<Rightarrow> Inl Type_Confusion)"
| "m_get_dbl_kvs [] key = Inr 0"
| "m_get_dbl_kvs ((k, v) # kvs) key =
     rbind (key_equal k key) (\<lambda>b.
       case v of
         MDbl d \<Rightarrow> if b then Inr d else m_get_dbl_kvs kvs key
       | MMap _ \<Rightarrow> rbind (m_get_dbl v key) (\<lambda>_. m_get_dbl_kvs kvs key)
       | _ \<Rightarrow> m_get_dbl_kvs kvs key)"

definition m_get_double :: "mobj option \<Rightarrow> string \<Rightarrow> u64 res" where
  "m_get_double o1 key = (case o1 of None \<Rightarrow> Inr 0 | Some ob \<Rightarrow> m_get_dbl ob key)"

fun m_get_bl :: "mobj \<Rightarrow> string \<Rightarrow> bool res"
  and m_get_bl_kvs :: "(mobj \<times> mobj) list \<Rightarrow> string \<Rightarrow> bool res" where
  "m_get_bl o1 key = (case o1 of MMap kvs \<Rightarrow> m_get_bl_kvs kvs key | _ \<Rightarrow> Inl Type_Confusion)"
| "m_get_bl_kvs [] key = Inr False"
| "m_get_bl_kvs ((k, v) # kvs) key =
     rbind (key_equal k key) (\<lambda>b.
       case v of
         MBool x \<Rightarrow> if b then Inr x else m_get_bl_kvs kvs key
       | MMap _ \<Rightarrow> rbind (m_get_bl v key) (\<lambda>_. m_get_bl_kvs kvs key)
       | _ \<Rightarrow> m_get_bl_kvs kvs key)"

definition m_get_bool :: "mobj option \<Rightarrow> string \<Rightarrow> bool res" where
  "m_get_bool o1 key = (case o1 of None \<Rightarrow> Inr False | Some ob \<Rightarrow> m_get_bl ob key)"

section \<open>Unpacking into containers\<close>

datatype uval =
    UStr string
  | UPos u64
  | UNeg u64
  | UHash "(string \<times> uval) list"
  | UList "uval list"

text \<open>\<open>m_unpack_array\<close> keeps strings and integers; nested maps and arrays are skipped.\<close>

definition unpack_item :: "mobj \<Rightarrow> uval option" where
  "unpack_item x = (case x of
      MRaw bs \<Rightarrow> Some (UStr (cstr bs))
    | MPos u \<Rightarrow> Some (UPos u)
    | MNeg i \<Rightarrow> Some (UNeg i)
    | _ \<Rightarrow> None)"

definition m_unpack_array :: "uval zlist \<Rightarrow> mobj \<Rightarrow> uval zlist" where
  "m_unpack_array ptr o1 =
     (case o1 of
        MArr xs \<Rightarrow> fold (\<lambda>x l. case unpack_item x of Some u \<Rightarrow> zl_append u l | None \<Rightarrow> l) xs ptr
      | _ \<Rightarrow> ptr)"

text \<open>\<open>m_unpack_map\<close> inserts under the key's bytes up to a NUL; a key that is already there keeps
  its first value.\<close>

definition key_bytes :: "mobj \<Rightarrow> string res" where
  "key_bytes k = (case k of MRaw bs \<Rightarrow> Inr (cstr bs) | _ \<Rightarrow> Inl Type_Confusion)"

fun m_unpack_map :: "uval zhash \<Rightarrow> mobj \<Rightarrow> uval zhash res"
  and m_unpack_kvs :: "uval zhash \<Rightarrow> (mobj \<times> mobj) list \<Rightarrow> uval zhash res" where
  "m_unpack_map ptr o1 = (case o1 of MMap kvs \<Rightarrow> m_unpack_kvs ptr kvs | _ \<Rightarrow> Inr ptr)"
| "m_unpack_kvs ptr [] = Inr ptr"
| "m_unpack_kvs ptr ((k, v) # kvs) =
     rbind (key_bytes k) (\<lambda>key.
       case v of
         MMap _ \<Rightarrow> rbind (m_unpack_map [] v) (\<lambda>obj. m_unpack_kvs (zh_insert key (UHash obj) ptr) kvs)
       | MArr _ \<Rightarrow> m_unpack_kvs (zh_insert key (UList (zl_items (m_unpack_array zl_new v))) ptr) kvs
       | _ \<Rightarrow> (case unpack_item v of
                 Some u \<Rightarrow> m_unpack_kvs (zh_insert key u ptr) kvs
               | None \<Rightarrow> m_unpack_kvs ptr kvs))"

section \<open>Well-formed objects and reference readings\<close>

text \<open>Every key of every map is a string without a NUL byte: what the program's own messages
  and those of its clients look like. On such objects no reader reads the wrong member.\<close>

fun raw_keys :: "mobj \<Rightarrow> bool" and raw_keys_kvs :: "(mobj \<times> mobj) list \<Rightarrow> bool" where
  "raw_keys ob = (case ob of MMap kvs \<Rightarrow> raw_keys_kvs kvs | _ \<Rightarrow> True)"
| "raw_keys_kvs [] = True"
| "raw_keys_kvs ((k, v) # kvs) =
     ((case k of MRaw bs \<Rightarrow> is_cstr bs | _ \<Rightarrow> False) \<and> raw_keys v \<and> raw_keys_kvs kvs)"

definition key_name :: "mobj \<Rightarrow> string" where
  "key_name k = (case k of MRaw bs \<Rightarrow> bs | _ \<Rightarrow> [])"

definition is_map :: "mobj \<Rightarrow> bool" where
  "is_map ob = (case ob of MMap _ \<Rightarrow> True | _ \<Rightarrow> False)"

text \<open>All string entries in depth-first order, and the top-level entries of one kind.\<close>

fun flat_strs :: "mobj \<Rightarrow> (string \<times> string) list"
  and flat_strs_kvs :: "(mobj \<times> mobj) list \<Rightarrow> (string \<times> string) list" where
  "flat_strs ob = (case ob of MMap kvs \<Rightarrow> flat_strs_kvs kvs | _ \<Rightarrow> [])"
| "flat_strs_kvs [] = []"
| "flat_strs_kvs ((k, v) # kvs) =
     (case v of MRaw bs \<Rightarrow> [(key_name k, bs)] | MMap _ \<Rightarrow> flat_strs v | _ \<Rightarrow> []) @ flat_strs_kvs kvs"

fun top_vals :: "(mobj \<Rightarrow> 'r option) \<Rightarrow> (mobj \<times> mobj) list \<Rightarrow> (string \<times> 'r) list" where
  "top_vals sel [] = []"
| "top_vals sel ((k, v) # kvs) =
     (case sel v of Some r \<Rightarrow> [(key_name k, r)] | None \<Rightarrow> []) @ top_vals sel kvs"

lemma key_equal_raw: "(case k of MRaw bs \<Rightarrow> is_cstr bs | _ \<Rightarrow> False) \<Longrightarrow>
   key_equal k key = Inr (key_name k = key)"
  by (auto simp: key_equal_def key_name_def split: mobj.splits)

lemma key_prefix_raw: "(case k of MRaw bs \<Rightarrow> is_cstr bs | _ \<Rightarrow> False) \<Longrightarrow>
   key_prefix k key = Inr (key_name k = take (length (key_name k)) key)"
  by (auto simp: key_prefix_def key_name_def memcmp_key_cstr split: mobj.splits)

lemma key_bytes_raw: "(case k of MRaw bs \<Rightarrow> is_cstr bs | _ \<Rightarrow> False) \<Longrightarrow>
   key_bytes k = Inr (key_name k)"
  by (auto simp: key_bytes_def key_name_def split: mobj.splits)

lemmas raw_key_tests = key_equal_raw key_prefix_raw key_bytes_raw

section \<open>What the readers return\<close>

lemma m_get_str_flat:
  "raw_keys (MMap kvs) \<Longrightarrow> m_get_str (MMap kvs) key = Inr (map_option cstr (map_of (flat_strs (MMap kvs)) key))"
  "raw_keys_kvs kvs \<Longrightarrow> m_get_str_kvs kvs key = Inr (map_option cstr (map_of (flat_strs_kvs kvs) key))"
proof (induction "MMap kvs" key and kvs key arbitrary: kvs rule: m_get_str_m_get_str_kvs.induct)
  case (1 key kvs)
  then show ?case by simp
next
  case (2 key)
  then show ?case by simp
next
  case (3 k v kvs key)
  show ?case
  proof (cases v)
    case (MMap kvs')
    have nested: "m_get_str v key = Inr (map_option cstr (map_of (flat_strs v) key))"
      using 3 MMap by (simp add: raw_key_tests)
    show ?thesis
      using 3 MMap nested
      by (auto simp: raw_key_tests map_add_def split: option.splits)
  qed (use 3 in \<open>auto simp: raw_key_tests\<close>)
qed

text \<open>The contract of the readers that look at the top level of a map only.\<close>

locale flat_reader =
  fixes rd :: "mobj \<Rightarrow> string \<Rightarrow> 'r res"
    and rd_kvs :: "(mobj \<times> mobj) list \<Rightarrow> string \<Rightarrow> 'r res"
    and sel :: "mobj \<Rightarrow> 'r option"
    and dflt :: 'r
  assumes rd_map: "rd (MMap kvs) key = rd_kvs kvs key"
    and rd_Nil: "rd_kvs [] key = Inr dflt"
    and rd_Cons: "rd_kvs ((k, v) # kvs) key =
      rbind (key_equal k key) (\<lambda>b.
        case sel v of
          Some r \<Rightarrow> if b then Inr r else rd_kvs kvs key
        | None \<Rightarrow> if is_map v then rbind (rd v key) (\<lambda>_. rd_kvs kvs key) else rd_kvs kvs key)"
begin

lemma rd_total:
  "raw_keys (MMap kvs) \<Longrightarrow> returns (rd (MMap kvs) key)"
  "raw_keys_kvs kvs \<Longrightarrow> returns (rd_kvs kvs key)"
proof (induction "MMap kvs" and kvs arbitrary: kvs rule: raw_keys_raw_keys_kvs.induct)
  case (1 kvs)
  then show ?case by (simp add: rd_map)
next
  case 2
  then show ?case by (simp add: rd_Nil)
next
  case (3 k v kvs)
  then show ?case
    by (auto simp: rd_Cons raw_key_tests is_map_def returns_iff split: option.splits mobj.splits)
qed

lemma rd_top: "raw_keys_kvs kvs \<Longrightarrow>
  rd_kvs kvs key = Inr (case map_of (top_vals sel kvs) key of Some r \<Rightarrow> r | None \<Rightarrow> dflt)"
proof (induction kvs)
  case Nil
  then show ?case by (simp add: rd_Nil)
next
  case (Cons e kvs)
  obtain k v where e: "e = (k, v)" by (cases e)
  have "returns (rd v key)" if "is_map v"
    using that Cons.prems rd_total(1) [of _ key] by (auto simp: e is_map_def split: mobj.splits)
  then obtain r where "is_map v \<Longrightarrow> rd v key = Inr r"
    by (metis returns_iff)
  with Cons show ?case
    by (auto simp: e rd_Cons raw_key_tests split: option.splits)
qed

end

definition sel_int :: "mobj \<Rightarrow> u64 option" where
  "sel_int v = (case v of MPos u \<Rightarrow> Some u | MNeg i \<Rightarrow> Some i | _ \<Rightarrow> None)"

definition sel_dbl :: "mobj \<Rightarrow> u64 option" where
  "sel_dbl v = (case v of MDbl d \<Rightarrow> Some d | _ \<Rightarrow> None)"

definition sel_bool :: "mobj \<Rightarrow> bool option" where
  "sel_bool v = (case v of MBool b \<Rightarrow> Some b | _ \<Rightarrow> None)"

interpretation get_int: flat_reader m_get_u64 m_get_u64_kvs sel_int 0
  by unfold_locales (auto simp: sel_int_def is_map_def split: mobj.splits intro!: rbind_cong)

interpretation get_double: flat_reader m_get_dbl m_get_dbl_kvs sel_dbl 0
  by unfold_locales (auto simp: sel_dbl_def is_map_def split: mobj.splits intro!: rbind_cong)

interpretation get_bool: flat_reader m_get_bl m_get_bl_kvs sel_bool False
  by unfold_locales (auto simp: sel_bool_def is_map_def split: mobj.splits intro!: rbind_cong)

lemma m_find_map_kvs_eq: "raw_keys_kvs kvs \<Longrightarrow>
  m_find_map_kvs kvs key =
    Inr (map_option snd (find (\<lambda>(k, v). key_name k = take (length (key_name k)) key) kvs))"
  by (induction kvs) (auto simp: raw_key_tests)

lemma m_lookup_total:
  "raw_keys ob \<Longrightarrow> returns (m_lookup ob key)"
  "raw_keys_kvs kvs \<Longrightarrow> returns (m_lookup_kvs kvs key)"
proof (induction ob key and kvs key rule: m_lookup_m_lookup_kvs.induct)
  case (3 k v kvs key)
  show ?case
  proof (cases v)
    case (MMap kvs')
    show ?thesis
    proof (cases "key_name k = take (length (key_name k)) key")
      case True
      with "3.prems" MMap show ?thesis by (simp add: raw_key_tests)
    next
      case False
      have "returns (m_lookup v key)"
        using 3 MMap False by (auto simp: raw_key_tests)
      then obtain d where d: "m_lookup v key = Inr d"
        by (auto simp: returns_iff)
      show ?thesis
      proof (cases d)
        case None
        with 3 MMap False d have "returns (m_lookup_kvs kvs key)"
          by (auto simp: raw_key_tests)
        with None "3.prems" MMap False d show ?thesis by (simp add: raw_key_tests)
      next
        case (Some x)
        with "3.prems" MMap False d show ?thesis by (simp add: raw_key_tests)
      qed
    qed
  qed (use 3 in \<open>auto simp: raw_key_tests\<close>)
qed (auto split: mobj.splits)

lemma m_unpack_total:
  "raw_keys ob \<Longrightarrow> returns (m_unpack_map ptr ob)"
  "raw_keys_kvs kvs \<Longrightarrow> returns (m_unpack_kvs ptr kvs)"
proof (induction ptr ob and ptr kvs rule: m_unpack_map_m_unpack_kvs.induct)
  case (3 ptr k v kvs)
  show ?case
  proof (cases v)
    case (MMap kvs')
    have "returns (m_unpack_map [] v)"
      using "3.IH" "3.prems" MMap by (auto simp: raw_key_tests)
    then obtain obj where "m_unpack_map [] v = Inr obj"
      by (auto simp: returns_iff)
    with 3 MMap show ?thesis
      by (auto simp: raw_key_tests)
  qed (use 3 in \<open>auto simp: raw_key_tests unpack_item_def\<close>)
qed (auto split: mobj.splits)


text \<open>What an entry of a map becomes in the table; the table is the entries inserted in order.\<close>

definition unpack_val :: "mobj \<Rightarrow> uval option" where
  "unpack_val v = (case v of
      MMap _ \<Rightarrow> (case m_unpack_map [] v of Inr h \<Rightarrow> Some (UHash h) | Inl _ \<Rightarrow> None)
    | MArr _ \<Rightarrow> Some (UList (zl_items (m_unpack_array zl_new v)))
    | _ \<Rightarrow> unpack_item v)"

lemma m_unpack_kvs_fold:
  "raw_keys_kvs kvs \<Longrightarrow>
   m_unpack_kvs ptr kvs = Inr (fold (\<lambda>(k, v) h. zh_insert k v h) (top_vals unpack_val kvs) ptr)"
proof (induction kvs arbitrary: ptr)
  case Nil
  then show ?case by simp
next
  case (Cons e kvs)
  obtain k v where e: "e = (k, v)" by (cases e)
  show ?case
  proof (cases v)
    case (MMap kvs')
    obtain h where h: "m_unpack_map [] v = Inr h"
      using m_unpack_total(1) [of v "[]"] Cons.prems e by (auto simp: returns_iff)
    with Cons MMap show ?thesis
      by (simp add: e raw_key_tests unpack_val_def)
  qed (use Cons in \<open>auto simp: e raw_key_tests unpack_val_def unpack_item_def\<close>)
qed

lemma m_unpack_kvs_lookup:
  assumes "raw_keys_kvs kvs"
  shows "\<exists>h. m_unpack_kvs [] kvs = Inr h \<and> (\<forall>k. zh_lookup k h = map_of (top_vals unpack_val kvs) k)"
  using m_unpack_kvs_fold [OF assms, of "[]"]
    zh.first_insert_wins [where s = "[]" and es = "top_vals unpack_val kvs"]
  by simp

end
