(* ===== verification/Interface.thy ===== *)
theory Interface
  imports Helper
begin

text \<open>
  \<^verbatim>\<open>src/interface.c\<close>: an interface is one version of one function of a module name, with the
  list of the local modules and the list of the remote fabrics that provide it. Interfaces
  are allocated and never freed by the program, and messages keep pointers to them, so they
  live in a heap indexed by allocation numbers; the list of interfaces is a list of such
  numbers.
\<close>

section \<open>State\<close>

text \<open>A pointer to an allocated C string: the number of the allocation, and its contents. The
  list of local providers holds the identity pointers of the modules themselves and is
  searched by address in \<open>zlist_remove\<close>; the list of fabrics copies its strings
  (\<open>zlist_autofree\<close>).\<close>

type_synonym cptr = "nat \<times> string"

record iface =
  if_mod :: string
  if_func :: string
  if_ver :: u64
  if_global :: "string zlist"
  if_local :: "cptr zlist"

type_synonym iheap = "nat \<Rightarrow> iface"

section \<open>Operations\<close>

definition iface_new :: "string option \<Rightarrow> string option \<Rightarrow> u64 \<Rightarrow> iface option" where
  "iface_new md func ver =
     (case (md, func) of
        (Some m, Some f) \<Rightarrow>
          if ver = 0 then None
          else Some \<lparr>if_mod = m, if_func = f, if_ver = ver, if_global = zl_new, if_local = zl_new\<rparr>
      | _ \<Rightarrow> None)"

definition iface_append_global :: "iface \<Rightarrow> string \<Rightarrow> bool \<times> iface" where
  "iface_append_global i global =
     (case zl_find (\<lambda>cur. global = cur) (if_global i) of
        (Some _, l) \<Rightarrow> (False, i\<lparr>if_global := l\<rparr>)
      | (None, l) \<Rightarrow> (True, i\<lparr>if_global := zl_append global l\<rparr>))"

definition iface_append_local :: "iface \<Rightarrow> cptr \<Rightarrow> bool \<times> iface" where
  "iface_append_local i local =
     (case zl_find (\<lambda>cur. snd local = snd cur) (if_local i) of
        (Some _, l) \<Rightarrow> (False, i\<lparr>if_local := l\<rparr>)
      | (None, l) \<Rightarrow> (True, i\<lparr>if_local := zl_append local l\<rparr>))"

text \<open>
  \<open>iface_remove\<close> removes an identity from both lists of every interface and unlinks the
  interfaces left without providers, while the cursor of the list is on them. Whether
  \<open>zlist_remove\<close> finds a string of a copying list by its value or compares pointers (and
  then finds nothing) depends on the library's version: the parameter \<open>byval\<close>.
\<close>

definition iface_forget :: "bool \<Rightarrow> cptr \<Rightarrow> iface \<Rightarrow> iface" where
  "iface_forget byval ident i =
     i\<lparr>if_global := zl_remove (\<lambda>g. byval \<and> g = snd ident) (if_global i),
       if_local := zl_remove (\<lambda>p. fst p = fst ident) (if_local i)\<rparr>"

definition iface_unused :: "iface \<Rightarrow> bool" where
  "iface_unused i \<longleftrightarrow> zl_size (if_global i) = 0 \<and> zl_size (if_local i) = 0"

fun iface_remove_loop :: "nat \<Rightarrow> bool \<Rightarrow> cptr \<Rightarrow> nat option \<times> nat zlist \<Rightarrow> iheap \<Rightarrow> nat zlist \<times> iheap"
where
  "iface_remove_loop n byval ident (None, l) h = (l, h)"
| "iface_remove_loop 0 byval ident (Some a, l) h = (l, h)"
| "iface_remove_loop (Suc n) byval ident (Some a, l) h =
     (let i = iface_forget byval ident (h a);
          l' = (if iface_unused i then zl_remove (\<lambda>x. x = a) l else l)
      in iface_remove_loop n byval ident (zl_next l') (h(a := i)))"

definition iface_remove :: "bool \<Rightarrow> nat zlist \<Rightarrow> iheap \<Rightarrow> cptr \<Rightarrow> nat zlist \<times> iheap" where
  "iface_remove byval ifaces h ident =
     iface_remove_loop (Suc (zl_size ifaces)) byval ident (zl_first ifaces) h"

text \<open>\<open>iface_print\<close> writes a line into a buffer of 1024 bytes; it leaves both cursors at the end.\<close>

definition iface_print :: "iface \<Rightarrow> (string \<times> iface) res" where
  "iface_print i =
     rbind (zl_iterate (\<lambda>cur out. Inr (out @ snd cur)) (if_local i)
        (''dump_interface ['' @ if_mod i @ '':'' @ if_func i @ '':'' @ show_int (sint (if_ver i)) @ '']''
          @ ''locals['')) (\<lambda>(out1, l).
     rbind (zl_iterate (\<lambda>cur out. Inr (out @ cur)) (if_global i) (out1 @ ''] globals['')) (\<lambda>(out2, g).
     rbind (sprintf_buf 1024 (out2 @ '']'')) (\<lambda>out.
       Inr (out, i\<lparr>if_local := l, if_global := g\<rparr>))))"

section \<open>Providers\<close>

definition if_locals :: "iface \<Rightarrow> string list" where
  "if_locals i = map snd (zl_items (if_local i))"

definition if_globals :: "iface \<Rightarrow> string list" where
  "if_globals i = zl_items (if_global i)"

text \<open>No identity twice in a list.\<close>

definition iface_wf :: "iface \<Rightarrow> bool" where
  "iface_wf i \<longleftrightarrow> distinct (if_locals i) \<and> distinct (if_globals i) \<and> if_ver i \<noteq> 0"

lemma iface_append_global_items:
  "if_globals (snd (iface_append_global i g)) =
     (if g \<in> set (if_globals i) then if_globals i else if_globals i @ [g])"
  "if_locals (snd (iface_append_global i g)) = if_locals i"
  "fst (iface_append_global i g) \<longleftrightarrow> g \<notin> set (if_globals i)"
proof -
  obtain r l where f: "zl_find (\<lambda>cur. g = cur) (if_global i) = (r, l)"
    by (cases "zl_find (\<lambda>cur. g = cur) (if_global i)")
  have r: "r = find (\<lambda>cur. g = cur) (zl_items (if_global i))" "zl_items l = zl_items (if_global i)"
    using zl_find_eq [of "\<lambda>cur. g = cur" "if_global i"] f by auto
  have "r = None \<longleftrightarrow> g \<notin> set (zl_items (if_global i))"
    unfolding r by (auto simp: find_None_iff)
  with f r(2) show
    "if_globals (snd (iface_append_global i g)) =
       (if g \<in> set (if_globals i) then if_globals i else if_globals i @ [g])"
    "if_locals (snd (iface_append_global i g)) = if_locals i"
    "fst (iface_append_global i g) \<longleftrightarrow> g \<notin> set (if_globals i)"
    by (auto simp: iface_append_global_def if_globals_def if_locals_def split: option.splits)
qed

lemma iface_append_local_items:
  "zl_items (if_local (snd (iface_append_local i p))) =
     (if snd p \<in> set (if_locals i) then zl_items (if_local i) else zl_items (if_local i) @ [p])"
  "if_global (snd (iface_append_local i p)) = if_global i"
  "fst (iface_append_local i p) \<longleftrightarrow> snd p \<notin> set (if_locals i)"
proof -
  obtain r l where f: "zl_find (\<lambda>cur. snd p = snd cur) (if_local i) = (r, l)"
    by (cases "zl_find (\<lambda>cur. snd p = snd cur) (if_local i)")
  have r: "r = find (\<lambda>cur. snd p = snd cur) (zl_items (if_local i))" "zl_items l = zl_items (if_local i)"
    using zl_find_eq [of "\<lambda>cur. snd p = snd cur" "if_local i"] f by auto
  have "r = None \<longleftrightarrow> snd p \<notin> set (if_locals i)"
    unfolding r if_locals_def by (auto simp: find_None_iff image_iff)
  with f r(2) show
    "zl_items (if_local (snd (iface_append_local i p))) =
       (if snd p \<in> set (if_locals i) then zl_items (if_local i) else zl_items (if_local i) @ [p])"
    "if_global (snd (iface_append_local i p)) = if_global i"
    "fst (iface_append_local i p) \<longleftrightarrow> snd p \<notin> set (if_locals i)"
    by (auto simp: iface_append_local_def split: option.splits)
qed

lemma iface_append_local_locals:
  "if_locals (snd (iface_append_local i p)) =
     (if snd p \<in> set (if_locals i) then if_locals i else if_locals i @ [snd p])"
  using iface_append_local_items(1) [of i p] by (auto simp: if_locals_def)

lemma iface_append_local_frame:
  "if_mod (snd (iface_append_local i p)) = if_mod i"
  "if_func (snd (iface_append_local i p)) = if_func i"
  "if_ver (snd (iface_append_local i p)) = if_ver i"
  "if_globals (snd (iface_append_local i p)) = if_globals i"
  by (auto simp: iface_append_local_def if_globals_def split: prod.splits option.splits)

lemma iface_append_global_frame:
  "if_mod (snd (iface_append_global i g)) = if_mod i"
  "if_func (snd (iface_append_global i g)) = if_func i"
  "if_ver (snd (iface_append_global i g)) = if_ver i"
  "zl_items (if_local (snd (iface_append_global i g))) = zl_items (if_local i)"
  by (auto simp: iface_append_global_def split: prod.splits option.splits)

lemma iface_wf_append:
  "iface_wf i \<Longrightarrow> iface_wf (snd (iface_append_local i p))"
  "iface_wf i \<Longrightarrow> iface_wf (snd (iface_append_global i g))"
  by (auto simp: iface_wf_def iface_append_local_locals iface_append_local_frame
      iface_append_global_items iface_append_global_frame)

section \<open>Printing\<close>

lemma rfold_concat: "rfold (\<lambda>x out. Inr (out @ f x)) xs s = Inr (s @ concat (map f xs))"
  by (induction xs arbitrary: s) auto

definition iface_text :: "iface \<Rightarrow> string" where
  "iface_text i =
     ''dump_interface ['' @ if_mod i @ '':'' @ if_func i @ '':'' @ show_int (sint (if_ver i)) @ '']''
       @ ''locals['' @ concat (if_locals i) @ ''] globals['' @ concat (if_globals i) @ '']''"

definition iface_at_end :: "iface \<Rightarrow> iface" where
  "iface_at_end i = i\<lparr>if_local := zl_end (if_local i), if_global := zl_end (if_global i)\<rparr>"

lemma iface_print_eq:
  "iface_print i =
     (if length (iface_text i) < 1024 then Inr (iface_text i, iface_at_end i) else Inl Buffer_Overflow)"
proof -
  have "iface_print i = rbind (sprintf_buf 1024 (iface_text i)) (\<lambda>out. Inr (out, iface_at_end i))"
    by (simp add: iface_print_def zl_iterate_eq rfold_concat iface_text_def if_locals_def if_globals_def
        iface_at_end_def)
  then show ?thesis
    by (simp add: sprintf_buf_def del: One_nat_def)
qed

lemma iface_at_end_simps [simp]:
  "if_mod (iface_at_end i) = if_mod i" "if_func (iface_at_end i) = if_func i"
  "if_ver (iface_at_end i) = if_ver i" "if_locals (iface_at_end i) = if_locals i"
  "if_globals (iface_at_end i) = if_globals i"
  "zl_items (if_local (iface_at_end i)) = zl_items (if_local i)"
  "zl_items (if_global (iface_at_end i)) = zl_items (if_global i)"
  "zl_cur (if_global (iface_at_end i)) = None" "iface_text (iface_at_end i) = iface_text i"
  by (auto simp: iface_at_end_def if_locals_def if_globals_def iface_text_def)

lemma iface_wf_at_end [simp]: "iface_wf (iface_at_end i) = iface_wf i"
  by (simp add: iface_wf_def)

section \<open>Removal\<close>

text \<open>The cursor position between two rounds: on the last interface kept so far.\<close>

definition cursor_after :: "nat list \<Rightarrow> nat option" where
  "cursor_after ks = (if ks = [] then None else Some (length ks - 1))"

lemma zl_next_after:
  "zl_next \<lparr>zl_items = ks @ rest, zl_cur = cursor_after ks\<rparr> =
     (case rest of
        [] \<Rightarrow> (None, \<lparr>zl_items = ks, zl_cur = None\<rparr>)
      | a # r \<Rightarrow> (Some a, \<lparr>zl_items = ks @ a # r, zl_cur = cursor_after (ks @ [a])\<rparr>))"
  by (cases rest; cases ks rule: rev_cases)
    (auto simp: zl_next_def zl_first_def cursor_after_def nth_append)

lemma zl_remove_after:
  assumes "a \<notin> set ks"
  shows "zl_remove (\<lambda>x. x = a) \<lparr>zl_items = ks @ a # r, zl_cur = cursor_after (ks @ [a])\<rparr> =
    \<lparr>zl_items = ks @ r, zl_cur = cursor_after ks\<rparr>"
proof -
  have "first_index (\<lambda>x. x = a) (ks @ a # r) = Some (length ks)"
    using assms by (induction ks) auto
  then show ?thesis
    by (auto simp: zl_remove_def remove_at_def cursor_after_def)
qed

lemma iface_remove_loop_eq:
  assumes "distinct (ks @ rest)" and "length rest < n"
  shows "iface_remove_loop n byval ident (zl_next \<lparr>zl_items = ks @ rest, zl_cur = cursor_after ks\<rparr>) h =
    (\<lparr>zl_items = ks @ filter (\<lambda>a. \<not> iface_unused (iface_forget byval ident (h a))) rest, zl_cur = None\<rparr>,
     (\<lambda>a. if a \<in> set rest then iface_forget byval ident (h a) else h a))"
  using assms
proof (induction rest arbitrary: ks n h)
  case Nil
  show ?case using zl_next_after [of ks "[]"] by simp
next
  case (Cons a rest)
  obtain m where n: "n = Suc m" and m: "length rest < m"
    using Cons.prems(2) by (cases n) auto
  let ?i = "iface_forget byval ident (h a)"
  let ?h = "h(a := ?i)"
  have heap: "(\<lambda>b. if b \<in> set rest then iface_forget byval ident (?h b) else ?h b) =
      (\<lambda>b. if b \<in> set (a # rest) then iface_forget byval ident (h b) else h b)"
    using Cons.prems(1) by auto
  have kept: "filter (\<lambda>x. \<not> iface_unused (iface_forget byval ident (?h x))) rest =
      filter (\<lambda>x. \<not> iface_unused (iface_forget byval ident (h x))) rest"
    using Cons.prems(1) by (intro filter_cong) auto
  note step = zl_next_after [of ks "a # rest"]
  show ?case
  proof (cases "iface_unused ?i")
    case True
    have "distinct (ks @ rest)" and a: "a \<notin> set ks" using Cons.prems(1) by auto
    note IH = Cons.IH [OF this(1) m, of ?h, unfolded heap kept]
    from True show ?thesis
      by (simp only: n step list.case iface_remove_loop.simps Let_def if_True zl_remove_after [OF a] IH)
        simp
  next
    case False
    have "distinct ((ks @ [a]) @ rest)" using Cons.prems(1) by auto
    note IH = Cons.IH [OF this m, of ?h, unfolded heap kept, simplified append_assoc append_Cons append_Nil]
    from False show ?thesis
      by (simp only: n step list.case iface_remove_loop.simps Let_def if_False IH) simp
  qed
qed

lemma iface_remove_eq:
  assumes "distinct (zl_items ifaces)"
  shows "iface_remove byval ifaces h ident =
    (\<lparr>zl_items = filter (\<lambda>a. \<not> iface_unused (iface_forget byval ident (h a))) (zl_items ifaces),
      zl_cur = None\<rparr>,
     (\<lambda>a. if a \<in> set (zl_items ifaces) then iface_forget byval ident (h a) else h a))"
proof -
  have "zl_first ifaces = zl_next \<lparr>zl_items = [] @ zl_items ifaces, zl_cur = cursor_after []\<rparr>"
    by (simp add: zl_next_def cursor_after_def zl_first_def split: list.splits)
  then show ?thesis
    using iface_remove_loop_eq [of "[]" "zl_items ifaces"] assms
    by (simp add: iface_remove_def zl_size_def)
qed

lemma iface_forget_frame:
  "if_mod (iface_forget byval ident i) = if_mod i"
  "if_func (iface_forget byval ident i) = if_func i"
  "if_ver (iface_forget byval ident i) = if_ver i"
  by (simp_all add: iface_forget_def)

lemma set_remove_at: "set (remove_at n xs) \<subseteq> set xs"
  by (auto simp: remove_at_def dest: in_set_takeD in_set_dropD)

lemma zl_remove_subset: "set (zl_items (zl_remove P l)) \<subseteq> set (zl_items l)"
  by (cases "first_index P (zl_items l)") (auto simp: zl_remove_def dest: subsetD [OF set_remove_at])

lemma distinct_remove_at: "distinct (map f xs) \<Longrightarrow> distinct (map f (remove_at n xs))"
proof -
  assume "distinct (map f xs)"
  then have "distinct (take n (map f xs) @ drop (Suc n) (map f xs))"
    by (auto simp: set_take_disj_set_drop_if_distinct)
  then show ?thesis
    by (simp add: remove_at_def take_map drop_map)
qed

lemma distinct_zl_remove: "distinct (map f (zl_items l)) \<Longrightarrow> distinct (map f (zl_items (zl_remove P l)))"
  by (cases "first_index P (zl_items l)") (auto simp: zl_remove_def distinct_remove_at)

lemma iface_forget_subset:
  "set (zl_items (if_local (iface_forget byval ident i))) \<subseteq> set (zl_items (if_local i))"
  "set (if_locals (iface_forget byval ident i)) \<subseteq> set (if_locals i)"
  "set (if_globals (iface_forget byval ident i)) \<subseteq> set (if_globals i)"
  using zl_remove_subset by (fastforce simp: iface_forget_def if_locals_def if_globals_def)+

lemma iface_wf_forget: "iface_wf i \<Longrightarrow> iface_wf (iface_forget byval ident i)"
  using distinct_zl_remove [of snd "if_local i"] distinct_zl_remove [of id "if_global i"]
  by (simp add: iface_wf_def iface_forget_def if_locals_def if_globals_def)

lemma iface_forget_local_items:
  assumes "distinct (map fst (zl_items (if_local i)))"
  shows "zl_items (if_local (iface_forget byval ident i)) =
    filter (\<lambda>p. fst p \<noteq> fst ident) (zl_items (if_local i))"
proof -
  have "inj_on fst (set (zl_items (if_local i)))" "distinct (zl_items (if_local i))"
    using assms by (simp_all add: distinct_map)
  then show ?thesis
    by (simp add: iface_forget_def zl_items_remove inj_onD)
qed

end
