(* ===== verification/Entities.thy ===== *)
theory Entities
  imports Interface
begin

text \<open>
  The records the broker keeps about its peers: \<^verbatim>\<open>src/module.h\<close>, \<^verbatim>\<open>src/module.c\<close> (a registered
  local module process) and \<^verbatim>\<open>src/fabric.h\<close>, \<^verbatim>\<open>src/fabric.c\<close> (another broker on the network).
  \<open>addr\<close> is the number of the allocation that holds the identity string.
\<close>

section \<open>Modules\<close>

datatype mod_state = GUEST | IDLE | BUSY | STOPPING | RESTARTING

record module =
  mo_identity :: cptr
  mo_name :: string
  mo_desc :: "string option"
  mo_pid :: int
  mo_spid :: string
  mo_provides :: "uval zhash option"
  mo_state :: mod_state
  mo_need_restart :: bool

text \<open>The allocation is zeroed, so the state of a new module is the first of the enumeration.\<close>

definition module_new :: "nat \<Rightarrow> string option \<Rightarrow> string option \<Rightarrow> module option" where
  "module_new addr identity name =
     (case (identity, name) of
        (Some i, Some n) \<Rightarrow>
          Some \<lparr>mo_identity = (addr, i), mo_name = n, mo_desc = None, mo_pid = 0, mo_spid = [],
            mo_provides = None, mo_state = GUEST, mo_need_restart = False\<rparr>
      | _ \<Rightarrow> None)"

section \<open>Fabrics\<close>

text \<open>\<open>fb_peer\<close> says that the peer socket has been created.\<close>

record fabric =
  fb_identity :: cptr
  fb_peer :: bool
  fb_alive :: bool

definition fab_new :: "nat \<Rightarrow> string \<Rightarrow> fabric option" where
  "fab_new addr msg =
     (case strtok_all (CHR ''@'') msg of
        prefix # identity # _ \<Rightarrow>
          Some \<lparr>fb_identity = (addr, identity), fb_peer = False, fb_alive = False\<rparr>
      | _ \<Rightarrow> None)"

lemma fab_new_beacon:
  assumes "CHR ''@'' \<notin> set pre" "pre \<noteq> []" "CHR ''@'' \<notin> set ep" "ep \<noteq> []"
  shows "fab_new a (pre @ ''@'' @ ep) = Some \<lparr>fb_identity = (a, ep), fb_peer = False, fb_alive = False\<rparr>"
  using assms by (simp add: fab_new_def strtok_all_field strtok_all_last)

lemma fab_new_identity: "fab_new a msg = Some f \<Longrightarrow>
   fst (fb_identity f) = a \<and> snd (fb_identity f) \<noteq> [] \<and> \<not> fb_alive f \<and> \<not> fb_peer f"
proof -
  assume f: "fab_new a msg = Some f"
  obtain prefix identity ts where ts: "strtok_all (CHR ''@'') msg = prefix # identity # ts"
    using f unfolding fab_new_def by (cases "strtok_all (CHR ''@'') msg" rule: remdups_adj.cases) simp_all
  have "identity \<noteq> []"
    by (rule strtok_all_tokens [of identity "CHR ''@''" msg, THEN conjunct1]) (simp add: ts)
  with f ts show ?thesis by (auto simp: fab_new_def)
qed

end
