(* ===== verification/Message.thy ===== *)
theory Message
  imports Entities
begin

text \<open>
  \<^verbatim>\<open>src/message.c\<close>: received messages and their fields, and the messages the broker builds.
  A message on the wire is a list of frames (byte strings); the payload frame holds a packed
  msgpack object. Packing and unpacking belong to the msgpack library: messages are
  described by the object, and \<open>message_fromzmq\<close> takes the unpacking function as a
  parameter, like the library's printing of a frame in hexadecimal.
\<close>

section \<open>Messages\<close>

text \<open>\<open>message_fromzmq\<close> hands out no message whose identity or action id is missing, so the two
  are plain strings here; the time stamps are microseconds in a \<open>uint64_t\<close>.\<close>

record message =
  msg_identity :: string
  msg_command :: "string option"
  msg_actionid :: string
  msg_local :: bool
  msg_object :: mobj
  msg_in_ts :: u64
  msg_out_ts :: u64
  msg_proc_ts :: u64
  msg_routed :: "string option"
  msg_iface :: "nat option"
  msg_ver :: u64
  msg_func :: "string option"
  msg_mod :: "string option"
  msg_globals :: "string zlist option"

definition message_new :: "u64 \<Rightarrow> message" where
  "message_new now =
     \<lparr>msg_identity = [], msg_command = None, msg_actionid = [], msg_local = False, msg_object = MNil,
      msg_in_ts = now, msg_out_ts = 0, msg_proc_ts = 0, msg_routed = None, msg_iface = None,
      msg_ver = 0, msg_func = None, msg_mod = None, msg_globals = None\<rparr>"

text \<open>\<open>tv.tv_sec*(uint64_t)1000000+tv.tv_usec\<close>, and the time since a stamp, with the wrap-around
  of \<open>uint64_t\<close>.\<close>

definition getTimeStamp :: "u64 \<Rightarrow> u64 \<Rightarrow> u64" where
  "getTimeStamp tv_sec tv_usec = tv_sec * 1000000 + tv_usec"

definition getInTimeDelta :: "u64 \<Rightarrow> message \<Rightarrow> u64" where
  "getInTimeDelta now msg = now - msg_in_ts msg"

definition getOutTimeDelta :: "u64 \<Rightarrow> message \<Rightarrow> u64" where
  "getOutTimeDelta now msg = now - msg_out_ts msg"

definition getProcessTimeDelta :: "u64 \<Rightarrow> message \<Rightarrow> u64" where
  "getProcessTimeDelta now msg = now - msg_proc_ts msg"

section \<open>Acceptance of a received message\<close>

definition commands :: "string list" where
  "commands = [''introduce'', ''ping'', ''pong'', ''stop'', ''call'', ''request'', ''exception'', ''result'']"

definition message_check_command :: "mobj \<Rightarrow> string option res" where
  "message_check_command ob =
     rbind (m_get_string (Some ob) ''command'') (\<lambda>value.
       case value of
         None \<Rightarrow> Inr None
       | Some v \<Rightarrow>
           if v \<in> set commands then Inr (Some v) else rbind (log_format v) (\<lambda>_. Inr None))"

definition message_check_actionid :: "mobj \<Rightarrow> string option res" where
  "message_check_actionid ob =
     rbind (m_get_string (Some ob) ''actionid'') (\<lambda>value.
       case value of
         None \<Rightarrow> Inr None
       | Some v \<Rightarrow> Inr (if length v < 5 then None else Some v))"

definition message_fromzmq :: "(string \<Rightarrow> string) \<Rightarrow> (string \<Rightarrow> mobj option) \<Rightarrow> u64 \<Rightarrow> string list \<Rightarrow> bool \<Rightarrow>
    message option res" where
  "message_fromzmq strhex unpack now msg local =
     (case msg of
        [identity_frame, payload_frame] \<Rightarrow>
          (let m = (message_new now)\<lparr>msg_local := local,
                 msg_identity := (if local then strhex identity_frame else cstr identity_frame)\<rparr>
           in if payload_frame = [] then Inr None
              else (case unpack payload_frame of
                  None \<Rightarrow> Inr None
                | Some ob \<Rightarrow>
                    if is_map ob then
                      rbind (message_check_command ob) (\<lambda>command.
                        case command of
                          None \<Rightarrow> Inr None
                        | Some c \<Rightarrow> rbind (message_check_actionid ob) (\<lambda>actionid.
                            case actionid of
                              None \<Rightarrow> Inr None
                            | Some a \<Rightarrow> Inr (Some (m\<lparr>msg_object := ob, msg_command := Some c,
                                msg_actionid := a\<rparr>))))
                    else Inr None))
      | _ \<Rightarrow> Inr None)"

text \<open>\<open>message_tomsg\<close> packs the object the message was unpacked from.\<close>

definition message_tomsg :: "message \<Rightarrow> mobj" where
  "message_tomsg m = msg_object m"

section \<open>Messages the broker builds\<close>

definition message_introduce :: "u64 \<Rightarrow> string option \<Rightarrow> mobj option" where
  "message_introduce pid actionid =
     (case actionid of
        None \<Rightarrow> None
      | Some aid \<Rightarrow> Some (MMap
          [(MRaw ''command'', MRaw ''introduce''),
           (MRaw ''body'', MMap
             [(MRaw ''pid'', MPos pid),
              (MRaw ''name'', MRaw ''modrouter''),
              (MRaw ''desc'', MRaw ''modrouter module''),
              (MRaw ''debug'', MBool True),
              (MRaw ''provides'', MMap [(MRaw ''router'', MDbl 0x3FB999999999999A)])]),
           (MRaw ''actionid'', MRaw aid)]))"

definition message_response :: "string option \<Rightarrow> string option \<Rightarrow> mobj option" where
  "message_response data actionid =
     (case (actionid, data) of
        (Some aid, Some d) \<Rightarrow> Some (MMap
          [(MRaw ''command'', MRaw ''result''),
           (MRaw ''body'', MMap
             [(MRaw ''result'', MMap [(MRaw ''introduce'', MRaw d)]),
              (MRaw ''seqno'', MPos 0)]),
           (MRaw ''actionid'', MRaw aid)])
      | _ \<Rightarrow> None)"

text \<open>\<open>sprintf(iface_path, "%s:%s:%ld", ...)\<close> into 256 bytes, for every interface that has a
  local provider.\<close>

definition iface_path :: "iface \<Rightarrow> string" where
  "iface_path i = if_mod i @ '':'' @ if_func i @ '':'' @ show_int (sint (if_ver i))"

definition add_iface_path :: "iheap \<Rightarrow> nat \<Rightarrow> string zlist \<Rightarrow> string zlist res" where
  "add_iface_path h a l =
     (if zl_size (if_local (h a)) > 0
      then rbind (sprintf_buf 256 (iface_path (h a))) (\<lambda>path. Inr (zl_append path l))
      else Inr l)"

definition message_ifacelist_response :: "nat zlist \<Rightarrow> iheap \<Rightarrow> string option \<Rightarrow> (mobj option \<times> nat zlist) res"
where
  "message_ifacelist_response ifaces h actionid =
     rbind (zl_iterate (add_iface_path h) ifaces zl_new) (\<lambda>(l, ifaces').
       case actionid of
         None \<Rightarrow> Inr (None, ifaces')
       | Some aid \<Rightarrow> rbind (zl_iterate (\<lambda>p ps. Inr (m_pack_raw (Some p) ps)) l []) (\<lambda>(paths, _).
           Inr (Some (MMap
             [(MRaw ''command'', MRaw ''result''),
              (MRaw ''body'', MMap
                [(MRaw ''result'', MMap [(MRaw ''IfaceList'', MArr paths)]),
                 (MRaw ''seqno'', MPos 0)]),
              (MRaw ''actionid'', MRaw aid)]), ifaces')))"

definition message_ifacelist_request :: "string option \<Rightarrow> mobj option" where
  "message_ifacelist_request actionid =
     (case actionid of
        None \<Rightarrow> None
      | Some aid \<Rightarrow> Some (MMap
          [(MRaw ''command'', MRaw ''request''),
           (MRaw ''body'', MMap [(MRaw ''command'', MRaw ''IfaceList'')]),
           (MRaw ''actionid'', MRaw aid)]))"

definition message_stop :: "string option \<Rightarrow> mobj option" where
  "message_stop actionid =
     (case actionid of
        None \<Rightarrow> None
      | Some aid \<Rightarrow> Some (MMap
          [(MRaw ''command'', MRaw ''stop''),
           (MRaw ''body'', MMap [(MRaw ''time'', MRaw ''0'')]),
           (MRaw ''actionid'', MRaw aid)]))"

definition message_exception :: "string option \<Rightarrow> string \<Rightarrow> int \<Rightarrow> mobj option" where
  "message_exception actionid ex_msg ex_num =
     (case actionid of
        None \<Rightarrow> None
      | Some aid \<Rightarrow> Some (MMap
          [(MRaw ''command'', MRaw ''exception''),
           (MRaw ''body'', MMap
             [(MRaw ''string'', MRaw ex_msg),
              (MRaw ''exception'', mint ex_num)]),
           (MRaw ''actionid'', MRaw aid)]))"

section \<open>Fields of a message\<close>

definition message_body :: "mobj \<Rightarrow> mobj option res" where
  "message_body ob = m_find_map ob ''body''"

definition body_string :: "string \<Rightarrow> mobj \<Rightarrow> string option res" where
  "body_string key ob =
     rbind (message_body ob) (\<lambda>body.
       case body of None \<Rightarrow> Inr None | Some b \<Rightarrow> m_get_string (Some b) key)"

definition body_int :: "string \<Rightarrow> mobj \<Rightarrow> u64 res" where
  "body_int key ob =
     rbind (message_body ob) (\<lambda>body.
       case body of None \<Rightarrow> Inr 0 | Some b \<Rightarrow> m_get_int (Some b) key)"

definition message_getReqCommand :: "message \<Rightarrow> string option res" where
  "message_getReqCommand m = body_string ''command'' (msg_object m)"

definition message_getFunc :: "message \<Rightarrow> string option res" where
  "message_getFunc m = body_string ''function'' (msg_object m)"

definition message_getModule :: "message \<Rightarrow> string option res" where
  "message_getModule m = body_string ''module'' (msg_object m)"

definition message_getExceptionString :: "message \<Rightarrow> string option res" where
  "message_getExceptionString m = body_string ''string'' (msg_object m)"

definition message_getMessage :: "message \<Rightarrow> string option res" where
  "message_getMessage m = body_string ''message'' (msg_object m)"

definition message_getName :: "message \<Rightarrow> string option res" where
  "message_getName m = body_string ''name'' (msg_object m)"

definition message_getDesc :: "message \<Rightarrow> string option res" where
  "message_getDesc m = body_string ''desc'' (msg_object m)"

text \<open>The conversion of a \<open>uint64_t\<close> to \<open>int\<close> or \<open>pid_t\<close> keeps the low 32 bits.\<close>

definition int_of_u64 :: "u64 \<Rightarrow> int" where
  "int_of_u64 u = sint (ucast u :: i32)"

definition message_getExceptionCode :: "message \<Rightarrow> int res" where
  "message_getExceptionCode m = rbind (body_int ''exception'' (msg_object m)) (\<lambda>u. Inr (int_of_u64 u))"

definition message_getPid :: "message \<Rightarrow> int res" where
  "message_getPid m = rbind (body_int ''pid'' (msg_object m)) (\<lambda>u. Inr (int_of_u64 u))"

definition message_getIfVersion :: "message \<Rightarrow> u64 res" where
  "message_getIfVersion m = body_int ''version'' (msg_object m)"

definition message_getProvides :: "message \<Rightarrow> uval zhash option res" where
  "message_getProvides m =
     rbind (message_body (msg_object m)) (\<lambda>body.
       case body of
         None \<Rightarrow> Inr None
       | Some b \<Rightarrow> rbind (m_find_map b ''provides'') (\<lambda>provides.
           case provides of
             None \<Rightarrow> Inr None
           | Some p \<Rightarrow> rbind (m_unpack_map [] p) (\<lambda>h. Inr (Some h))))"

text \<open>The list copies its items as strings; an integer item is not one.\<close>

definition uval_str :: "uval \<Rightarrow> string res" where
  "uval_str u = (case u of UStr s \<Rightarrow> Inr s | _ \<Rightarrow> Inl Type_Confusion)"

definition message_getIfaceList :: "message \<Rightarrow> string list option res" where
  "message_getIfaceList m =
     rbind (message_body (msg_object m)) (\<lambda>body.
     rbind (case body of None \<Rightarrow> Inr None | Some b \<Rightarrow> m_find_map b ''result'') (\<lambda>result.
     rbind (case result of None \<Rightarrow> Inr None | Some r \<Rightarrow> m_find_map r ''IfaceList'') (\<lambda>modlist.
       case modlist of
         None \<Rightarrow> Inr None
       | Some ml \<Rightarrow> rbind (rfold (\<lambda>u ss. rbind (uval_str u) (\<lambda>s. Inr (ss @ [s])))
             (zl_items (m_unpack_array zl_new ml)) []) (\<lambda>ss. Inr (Some ss)))))"

end
