(* ===== verification/Router.thy ===== *)
theory Router
  imports Message
begin

text \<open>
  \<^verbatim>\<open>src/modbusd.h\<close> and the routing core of \<^verbatim>\<open>src/modbusd.c\<close>: the broker's state, the sending of a
  message to a local module or to a fabric, the search for an interface, and the placing of
  a call. Sockets are not modelled; what the broker sends is appended to \<open>px_out\<close>.
\<close>

section \<open>State of the broker\<close>

text \<open>What the broker does to the outside: a message to the local peer with the given ZeroMQ
  identity bytes, a message to a fabric, a sequence of strings to the process manager, and a
  disconnect from a fabric.\<close>

datatype effect =
    To_Local string mobj
  | To_Fabric string mobj
  | To_Procman "string list"
  | Disconnect string

record config =
  cf_in_timeout :: int
  cf_out_timeout :: int
  cf_process_timeout :: int
  cf_debug :: bool

text \<open>What a handler reads from its surroundings: the clock during the event, the configuration,
  the behaviour of \<open>zlist_remove\<close> on copying lists, and the UUIDs that \<open>getActionid\<close> draws.\<close>

record env =
  ev_now :: u64
  ev_conf :: config
  ev_byval :: bool
  ev_uuid :: "nat \<Rightarrow> string"

record proxy =
  px_fabs :: "fabric zhash"
  px_modules :: "module zhash"
  px_ifaces :: "nat zlist"
  px_heap :: iheap
  px_next :: nat
  px_queue :: "message zhash"
  px_uuids :: nat
  px_out :: "effect list"

definition emit :: "effect \<Rightarrow> proxy \<Rightarrow> proxy" where
  "emit e p = p\<lparr>px_out := px_out p @ [e]\<rparr>"

definition NO_MODULES :: int where "NO_MODULES = 110"
definition MODULES_BUSY :: int where "MODULES_BUSY = 111"
definition PROCESS_TIMEOUT :: int where "PROCESS_TIMEOUT = 112"
definition GLOBAL_TIMEOUT :: int where "GLOBAL_TIMEOUT = 113"
definition LOCAL_TIMEOUT :: int where "LOCAL_TIMEOUT = 114"

definition getActionid :: "env \<Rightarrow> proxy \<Rightarrow> string \<times> proxy" where
  "getActionid E p = (ev_uuid E (px_uuids p), p\<lparr>px_uuids := Suc (px_uuids p)\<rparr>)"

section \<open>Sending\<close>

text \<open>A local identity is the hexadecimal form of a frame of five bytes.\<close>

fun hex_bytes :: "nat \<Rightarrow> string \<Rightarrow> string res" where
  "hex_bytes 0 s = Inr []"
| "hex_bytes (Suc n) (a # b # s) =
     rbind (scan_hex_byte a b) (\<lambda>c. rbind (hex_bytes n s) (\<lambda>cs. Inr (c # cs)))"
| "hex_bytes (Suc 0) [a] = (case hex_val a of Some x \<Rightarrow> Inr [char_of x] | None \<Rightarrow> Inl Uninit_Read)"
| "hex_bytes (Suc (Suc n)) [a] = Inl Over_Read"
| "hex_bytes (Suc n) [] = Inl Uninit_Read"

text \<open>An identity of more than ten characters is taken to be that of a fabric. A message to a
  fabric that is not in the list, or has no peer socket, is dropped.\<close>

definition send_message :: "mobj option \<Rightarrow> string \<Rightarrow> proxy \<Rightarrow> proxy res" where
  "send_message msg identity p =
     (case msg of
        None \<Rightarrow> Inl Assert_Fail
      | Some ob \<Rightarrow>
          if length identity > 10 then
            (case zh_lookup identity (px_fabs p) of
               Some fab \<Rightarrow> Inr (if fb_peer fab then emit (To_Fabric identity ob) p else p)
             | None \<Rightarrow> Inr p)
          else rbind (hex_bytes 5 identity) (\<lambda>val. Inr (emit (To_Local val ob) p)))"

section \<open>Looking up an interface\<close>

text \<open>The first interface of that name and function whose version is at least the one asked
  for.\<close>

definition iface_serves :: "string \<Rightarrow> string \<Rightarrow> u64 \<Rightarrow> iface \<Rightarrow> bool" where
  "iface_serves md func ver i \<longleftrightarrow> if_mod i = md \<and> if_func i = func \<and> ver \<le> if_ver i"

definition check_interface :: "string option \<Rightarrow> string option \<Rightarrow> u64 \<Rightarrow> proxy \<Rightarrow> (nat option \<times> proxy) res" where
  "check_interface md func ver p =
     (case (md, func) of
        (Some m, Some f) \<Rightarrow>
          (case zl_find (\<lambda>a. iface_serves m f ver (px_heap p a)) (px_ifaces p) of
             (r, l) \<Rightarrow> Inr (r, p\<lparr>px_ifaces := l\<rparr>))
      | _ \<Rightarrow> Inl Assert_Fail)"

section \<open>Placing a call\<close>

text \<open>First call: the interface is looked up, and a local call gets its own copy of the list of
  fabrics, with the cursor on its head. \<open>False\<close> is the return code \<open>-1\<close>.\<close>

definition copy_globals :: "message \<Rightarrow> nat \<Rightarrow> proxy \<Rightarrow> (message \<times> proxy) res" where
  "copy_globals m a p =
     (if zl_size (if_global (px_heap p a)) > 0
      then rbind (zl_iterate (\<lambda>fab l. Inr (zl_append fab l)) (if_global (px_heap p a)) zl_new)
        (\<lambda>(copy, g).
          Inr (m\<lparr>msg_globals := Some (snd (zl_first copy))\<rparr>,
               p\<lparr>px_heap := (px_heap p)(a := (px_heap p a)\<lparr>if_global := g\<rparr>)\<rparr>))
      else Inr (m, p))"

definition assign_iface :: "message \<Rightarrow> proxy \<Rightarrow> (bool \<times> message \<times> proxy) res" where
  "assign_iface m p =
     (case msg_iface m of
        Some _ \<Rightarrow> Inr (True, m, p)
      | None \<Rightarrow>
          rbind (check_interface (msg_mod m) (msg_func m) (msg_ver m) p) (\<lambda>(r, p1).
            case r of
              None \<Rightarrow> Inr (False, m, p1)
            | Some a \<Rightarrow>
                if msg_local m
                then rbind (copy_globals (m\<lparr>msg_iface := Some a\<rparr>) a p1) (\<lambda>(m2, p2). Inr (True, m2, p2))
                else Inr (True, m\<lparr>msg_iface := Some a\<rparr>, p1)))"

text \<open>
  The search for an idle module. The loop starts on the first local provider and is
  continued with \<open>zlist_next(message->iface->id_global_list)\<close>: the identities it looks at
  after the first are those of the list of fabrics, from wherever that list's cursor is. A
  lookup that fails is dereferenced.
\<close>

definition try_provider :: "module zhash \<Rightarrow> string \<Rightarrow> string option \<Rightarrow> string option res" where
  "try_provider mods ident routed =
     (case zh_lookup ident mods of
        None \<Rightarrow> Inl Null_Deref
      | Some mo \<Rightarrow> Inr (if mo_state mo = IDLE then Some (snd (mo_identity mo)) else routed))"

definition route_local :: "message \<Rightarrow> nat \<Rightarrow> proxy \<Rightarrow> (message \<times> proxy) res" where
  "route_local m a p =
     (let i = px_heap p a;
          (ident, l) = zl_first (if_local i);
          n = Suc (Suc (zl_size (if_global i)))
      in rbind (zl_each n (try_provider (px_modules p)) (map_option snd ident, if_global i) (msg_routed m))
           (\<lambda>(routed, g).
             Inr (m\<lparr>msg_routed := routed\<rparr>,
                  p\<lparr>px_heap := (px_heap p)(a := i\<lparr>if_local := l, if_global := g\<rparr>)\<rparr>)))"

definition route_global :: "message \<Rightarrow> message" where
  "route_global m =
     (case msg_globals m of
        Some gl \<Rightarrow>
          if msg_local m \<and> zl_size gl > 0 then
            (case zl_next gl of
               (Some fab, gl1) \<Rightarrow> m\<lparr>msg_routed := Some fab, msg_globals := Some gl1\<rparr>
             | (None, gl1) \<Rightarrow>
                 (case zl_first gl1 of
                    (r, gl2) \<Rightarrow> m\<lparr>msg_routed := r, msg_globals := Some gl2\<rparr>))
          else m
      | None \<Rightarrow> m)"

definition choose_route :: "message \<Rightarrow> nat \<Rightarrow> proxy \<Rightarrow> (message \<times> proxy) res" where
  "choose_route m a p =
     (if zl_size (if_local (px_heap p a)) > 0 then route_local m a p else Inr (route_global m, p))"

definition send_routed :: "env \<Rightarrow> message \<Rightarrow> proxy \<Rightarrow> (message \<times> proxy) res" where
  "send_routed E m p =
     (case msg_routed m of
        None \<Rightarrow> Inr (m, p)
      | Some via \<Rightarrow>
          (case zh_lookup via (px_modules p) of
             Some mo \<Rightarrow>
               if mo_state mo = IDLE then
                 rbind (send_message (Some (message_tomsg m)) via
                     (p\<lparr>px_modules := zh_modify via (mo\<lparr>mo_state := BUSY\<rparr>) (px_modules p)\<rparr>))
                   (\<lambda>p1. Inr (m\<lparr>msg_proc_ts := ev_now E\<rparr>, p1))
               else
                 rbind (send_message (Some (message_tomsg m)) via p)
                   (\<lambda>p1. Inr (m\<lparr>msg_out_ts := ev_now E\<rparr>, p1))
           | None \<Rightarrow>
               rbind (send_message (Some (message_tomsg m)) via p)
                 (\<lambda>p1. Inr (m\<lparr>msg_out_ts := ev_now E\<rparr>, p1))))"

definition place_call :: "env \<Rightarrow> message \<Rightarrow> proxy \<Rightarrow> (int \<times> message \<times> proxy) res" where
  "place_call E m p =
     (if msg_routed m \<noteq> None then Inr (0, m, p)
      else rbind (assign_iface m p) (\<lambda>(found, m1, p1).
        if \<not> found then Inr (-1, m1, p1)
        else (case msg_iface m1 of
            None \<Rightarrow> Inr (0, m1, p1)
          | Some a \<Rightarrow>
              rbind (choose_route m1 a p1) (\<lambda>(m2, p2).
              rbind (send_routed E m2 p2) (\<lambda>(m3, p3). Inr (0, m3, p3))))))"

text \<open>As a callback of \<open>zhash_foreach(proxy->queue, ...)\<close>.\<close>

definition place_call_item :: "env \<Rightarrow> string \<Rightarrow> message \<Rightarrow> proxy \<Rightarrow> (int \<times> proxy) res" where
  "place_call_item E key m p =
     rbind (place_call E m p) (\<lambda>(rc, m', p').
       Inr (rc, p'\<lparr>px_queue := zh_modify key m' (px_queue p')\<rparr>))"

definition place_all :: "env \<Rightarrow> proxy \<Rightarrow> proxy res" where
  "place_all E p = rbind (zh_foreach px_queue (place_call_item E) p) (\<lambda>(rc, p'). Inr p')"

end
