(* ===== verification/Handlers.thy ===== *)
theory Handlers
  imports Router
begin

text \<open>
  The message handlers and the timer and socket events of \<^verbatim>\<open>src/modbusd.c\<close>, and the beacon event
  of \<^verbatim>\<open>src/beacon.c\<close>. Each takes the state and returns the next one; the calls of the logger
  are left out, but for the arguments they dereference and for \<open>iface_print\<close>, which moves
  cursors and writes into a buffer.
\<close>

section \<open>Shared steps\<close>

definition print_iface :: "nat \<Rightarrow> proxy \<Rightarrow> proxy res" where
  "print_iface a p = rbind (iface_print (px_heap p a)) (\<lambda>(_, i). Inr (p\<lparr>px_heap := (px_heap p)(a := i)\<rparr>))"

definition print_ifaces :: "proxy \<Rightarrow> proxy res" where
  "print_ifaces p = rbind (zl_iterate print_iface (px_ifaces p) p) (\<lambda>(p', l). Inr (p'\<lparr>px_ifaces := l\<rparr>))"

definition forget_identity :: "env \<Rightarrow> cptr \<Rightarrow> proxy \<Rightarrow> proxy" where
  "forget_identity E ident p =
     (case iface_remove (ev_byval E) (px_ifaces p) (px_heap p) ident of
        (l, h) \<Rightarrow> p\<lparr>px_ifaces := l, px_heap := h\<rparr>)"

text \<open>A new interface is allocated and appended to the list; for version 0 there is none, and the
  log call that follows reads through the \<open>NULL\<close> pointer.\<close>

definition find_or_new_iface :: "string \<Rightarrow> string \<Rightarrow> u64 \<Rightarrow> proxy \<Rightarrow> (nat \<times> proxy) res" where
  "find_or_new_iface md func ver p =
     rbind (check_interface (Some md) (Some func) ver p) (\<lambda>(r, p1).
       case r of
         Some a \<Rightarrow> Inr (a, p1)
       | None \<Rightarrow>
           (case iface_new (Some md) (Some func) ver of
              None \<Rightarrow> Inl Null_Deref
            | Some i \<Rightarrow>
                Inr (px_next p1,
                  p1\<lparr>px_heap := (px_heap p1)(px_next p1 := i),
                     px_ifaces := zl_append (px_next p1) (px_ifaces p1),
                     px_next := Suc (px_next p1)\<rparr>)))"

text \<open>A module whose answer has come back is restarted if that was asked for, else it is idle
  again and the waiting calls are placed.\<close>

definition release_module :: "env \<Rightarrow> string \<Rightarrow> proxy \<Rightarrow> proxy res" where
  "release_module E ident p =
     (case zh_lookup ident (px_modules p) of
        None \<Rightarrow> Inr p
      | Some mo \<Rightarrow>
          if mo_need_restart mo then Inr (emit (To_Procman [''restart'', mo_spid mo]) p)
          else place_all E (p\<lparr>px_modules := zh_modify ident (mo\<lparr>mo_state := IDLE\<rparr>) (px_modules p)\<rparr>))"

definition drop_call :: "string \<Rightarrow> proxy \<Rightarrow> proxy" where
  "drop_call key p = p\<lparr>px_queue := zh_delete key (px_queue p)\<rparr>"

section \<open>INTRODUCE\<close>

definition provided_version :: "uval zhash \<Rightarrow> string \<Rightarrow> u64 res" where
  "provided_version provides func =
     (case zh_lookup func provides of
        None \<Rightarrow> Inl Null_Deref
      | Some (UPos u) \<Rightarrow> Inr u
      | Some (UNeg i) \<Rightarrow> Inr i
      | Some _ \<Rightarrow> Inl Type_Confusion)"

definition introduce_function :: "module \<Rightarrow> uval zhash \<Rightarrow> string \<Rightarrow> proxy \<Rightarrow> proxy res" where
  "introduce_function mo provides func p =
     rbind (provided_version provides func) (\<lambda>ver.
     rbind (find_or_new_iface (mo_name mo) func ver p) (\<lambda>(a, p1).
       print_iface a (p1\<lparr>px_heap := (px_heap p1)(a := snd (iface_append_local (px_heap p1 a) (mo_identity mo)))\<rparr>)))"

definition register_module :: "module \<Rightarrow> message \<Rightarrow> proxy \<Rightarrow> proxy res" where
  "register_module mo m p =
     (let ident = snd (mo_identity mo);
          isnew = (zh_lookup ident (px_modules p) = None);
          p1 = emit (To_Procman [''register'', mo_spid mo, mo_name mo]) p;
          p2 = p1\<lparr>px_modules := zh_insert ident mo (px_modules p1)\<rparr>
      in rbind (send_message (message_response (Some ''ok'') (Some (msg_actionid m))) (msg_identity m) p2)
           (\<lambda>p3. Inr (if isnew
              then p3\<lparr>px_modules := zh_modify ident (mo\<lparr>mo_state := IDLE\<rparr>) (px_modules p3)\<rparr>
              else p3)))"

text \<open>\<open>answer\<close> is the second string received from the process manager after the request
  \<open>check_pid\<close>; outside debug mode \<open>no\<close> ends the introduction.\<close>

definition pid_accepted :: "env \<Rightarrow> string option \<Rightarrow> bool res" where
  "pid_accepted E answer =
     (if cf_debug (ev_conf E) then Inr True
      else (case answer of None \<Rightarrow> Inl Null_Deref | Some a \<Rightarrow> Inr (a \<noteq> ''no'')))"

definition process_introduce :: "env \<Rightarrow> string option \<Rightarrow> message \<Rightarrow> proxy \<Rightarrow> proxy res" where
  "process_introduce E answer m p =
     rbind (message_getName m) (\<lambda>nm. case nm of None \<Rightarrow> Inr p | Some name \<Rightarrow>
     rbind (message_getPid m) (\<lambda>pid.
       if pid = 0 then Inr p
       else
         let p1 = emit (To_Procman [''check_pid'', show_int pid]) p in
         rbind (pid_accepted E answer) (\<lambda>known.
           if \<not> known then Inr p1
           else (case module_new (px_next p1) (Some (msg_identity m)) (Some name) of
               None \<Rightarrow> Inr p1
             | Some mo \<Rightarrow>
                 rbind (sprintf_buf 10 (show_int pid)) (\<lambda>spid.
                 rbind (message_getDesc m) (\<lambda>desc.
                 rbind (message_getProvides m) (\<lambda>provides.
                   let mo1 = mo\<lparr>mo_pid := pid, mo_spid := spid, mo_desc := desc, mo_provides := provides\<rparr>;
                       p2 = p1\<lparr>px_next := Suc (px_next p1)\<rparr>
                   in (case provides of
                         None \<Rightarrow> rbind (log_format name) (\<lambda>_. Inr p2)
                       | Some h \<Rightarrow>
                           if h = [] then rbind (log_format name) (\<lambda>_. Inr p2)
                           else rbind (rfold (introduce_function mo1 h) (zh_keys h) p2)
                                  (register_module mo1 m)))))))))"

section \<open>REQUEST\<close>

definition process_req_ifacelist :: "env \<Rightarrow> message \<Rightarrow> proxy \<Rightarrow> proxy res" where
  "process_req_ifacelist E m p =
     (let (_, p1) = getActionid E p in
      case zh_lookup (msg_identity m) (px_fabs p1) of
        None \<Rightarrow> Inr p1
      | Some fab \<Rightarrow>
          rbind (message_ifacelist_response (px_ifaces p1) (px_heap p1) (Some (msg_actionid m)))
            (\<lambda>(msg, l). send_message msg (snd (fb_identity fab)) (p1\<lparr>px_ifaces := l\<rparr>)))"

definition process_request :: "env \<Rightarrow> message \<Rightarrow> proxy \<Rightarrow> proxy res" where
  "process_request E m p =
     rbind (message_getReqCommand m) (\<lambda>command.
       case command of
         None \<Rightarrow> Inr p
       | Some c \<Rightarrow> if c = ''IfaceList'' then process_req_ifacelist E m p else Inr p)"

section \<open>EXCEPTION and RESULT\<close>

text \<open>An answer for a call of another fabric: it goes to that fabric, if it is still known.\<close>

definition answer_fabric :: "message \<Rightarrow> message \<Rightarrow> proxy \<Rightarrow> proxy res" where
  "answer_fabric m stored p =
     (case zh_lookup (msg_identity stored) (px_fabs p) of
        Some fab \<Rightarrow> send_message (Some (message_tomsg m)) (snd (fb_identity fab)) p
      | None \<Rightarrow> Inr p)"

definition process_exception :: "env \<Rightarrow> message \<Rightarrow> proxy \<Rightarrow> proxy res" where
  "process_exception E m p =
     (case zh_lookup (msg_actionid m) (px_queue p) of
        Some stored \<Rightarrow>
          if msg_local m \<and> msg_local stored then
            (case zh_lookup (msg_identity m) (px_modules p) of
               Some mo \<Rightarrow>
                 rbind (send_message (Some (message_tomsg m)) (msg_identity stored) p) (\<lambda>p1.
                   release_module E (msg_identity m) (drop_call (msg_actionid stored) p1))
             | None \<Rightarrow> Inr p)
          else if \<not> msg_local m \<and> msg_local stored then
            rbind (message_getExceptionCode m) (\<lambda>code.
              if code = MODULES_BUSY then
                rbind (place_call E stored p) (\<lambda>(rc, stored', p').
                  Inr (p'\<lparr>px_queue := zh_modify (msg_actionid m) stored' (px_queue p')\<rparr>))
              else
                rbind (send_message (Some (message_tomsg m)) (msg_identity stored) p) (\<lambda>p1.
                  Inr (drop_call (msg_actionid stored) p1)))
          else if msg_local m \<and> \<not> msg_local stored then
            rbind (answer_fabric m stored p) (\<lambda>p1.
              release_module E (msg_identity m) (drop_call (msg_actionid stored) p1))
          else Inr (drop_call (msg_actionid stored) p)
      | None \<Rightarrow> rbind (message_getExceptionString m) (\<lambda>_. Inr p))"

text \<open>One line of a fabric's interface list.\<close>

definition learn_iface :: "fabric \<Rightarrow> string \<Rightarrow> proxy \<Rightarrow> proxy res" where
  "learn_iface fab path p =
     (case strtok_all (CHR '':'') path of
        md # func # ver # _ \<Rightarrow>
          rbind (atoi ver) (\<lambda>v.
          rbind (find_or_new_iface md func (u64_of_int v) p) (\<lambda>(a, p1).
            print_iface a (p1\<lparr>px_heap := (px_heap p1)(a :=
              snd (iface_append_global (px_heap p1 a) (snd (fb_identity fab))))\<rparr>)))
      | _ \<Rightarrow> Inr p)"

text \<open>A result without a stored call is taken for an interface list; from an unknown fabric, the
  log call reads through the \<open>NULL\<close> pointer.\<close>

definition process_ifacelist :: "message \<Rightarrow> proxy \<Rightarrow> proxy res" where
  "process_ifacelist m p =
     rbind (message_getIfaceList m) (\<lambda>iflist.
       case iflist of
         None \<Rightarrow> Inr p
       | Some paths \<Rightarrow>
           (case zh_lookup (msg_identity m) (px_fabs p) of
              None \<Rightarrow> Inl Null_Deref
            | Some fab \<Rightarrow> rfold (learn_iface fab) paths p))"

definition process_result :: "env \<Rightarrow> message \<Rightarrow> proxy \<Rightarrow> proxy res" where
  "process_result E m p =
     (case zh_lookup (msg_actionid m) (px_queue p) of
        Some stored \<Rightarrow>
          if msg_local m \<and> msg_local stored then
            rbind (send_message (Some (message_tomsg m)) (msg_identity stored) p) (\<lambda>p1.
              release_module E (msg_identity m) (drop_call (msg_actionid stored) p1))
          else if \<not> msg_local m \<and> msg_local stored then
            rbind (send_message (Some (message_tomsg m)) (msg_identity stored) p) (\<lambda>p1.
              Inr (drop_call (msg_actionid stored) p1))
          else if msg_local m \<and> \<not> msg_local stored then
            rbind (answer_fabric m stored p) (\<lambda>p1.
              release_module E (msg_identity m) (drop_call (msg_actionid stored) p1))
          else Inr (drop_call (msg_actionid stored) p)
      | None \<Rightarrow> process_ifacelist m p)"

section \<open>CALL\<close>

definition refuse_call :: "message \<Rightarrow> string \<Rightarrow> int \<Rightarrow> proxy \<Rightarrow> proxy res" where
  "refuse_call m text code p =
     send_message (message_exception (Some (msg_actionid m)) text code) (msg_identity m) p"

definition process_call :: "env \<Rightarrow> message \<Rightarrow> proxy \<Rightarrow> proxy res" where
  "process_call E m0 p =
     rbind (message_getIfVersion m0) (\<lambda>ver.
     rbind (message_getModule m0) (\<lambda>md.
     rbind (message_getFunc m0) (\<lambda>func.
       let m = m0\<lparr>msg_ver := ver, msg_mod := md, msg_func := func\<rparr> in
       if md = None \<or> func = None \<or> ver = 0 then refuse_call m ''Wrong CALL structure'' 21 p
       else rbind (place_call E m p) (\<lambda>(rc, m1, p1).
         if rc \<noteq> -1 then
           if \<not> msg_local m1 \<and> msg_routed m1 = None
           then refuse_call m1 ''No modules found'' MODULES_BUSY p1
           else Inr (p1\<lparr>px_queue := zh_insert (msg_actionid m1) m1 (px_queue p1)\<rparr>)
         else refuse_call m1 ''No modules found'' MODULES_BUSY p1))))"

section \<open>MESSAGE and STOP\<close>

definition process_message :: "message \<Rightarrow> proxy \<Rightarrow> proxy res" where
  "process_message m p = rbind (message_getMessage m) (\<lambda>_. Inr p)"

definition process_stop :: "message \<Rightarrow> proxy \<Rightarrow> proxy res" where
  "process_stop m p = Inr p"

definition process_command :: "env \<Rightarrow> string option \<Rightarrow> message \<Rightarrow> proxy \<Rightarrow> proxy res" where
  "process_command E answer m p =
     (case msg_command m of
        Some command \<Rightarrow>
          if command = ''request'' then process_request E m p
          else if command = ''result'' then process_result E m p
          else if command = ''call'' then process_call E m p
          else if command = ''exception'' then process_exception E m p
          else if command = ''introduce'' then process_introduce E answer m p
          else if command = ''ping'' then Inr p
          else if command = ''pong'' then Inr p
          else if command = ''message'' then process_message m p
          else if command = ''stop'' then process_stop m p
          else Inr p
      | None \<Rightarrow> Inr p)"

section \<open>Socket events\<close>

definition s_global_event :: "(string \<Rightarrow> string) \<Rightarrow> (string \<Rightarrow> mobj option) \<Rightarrow> env \<Rightarrow> string option \<Rightarrow>
    string list \<Rightarrow> proxy \<Rightarrow> proxy res" where
  "s_global_event strhex unpack E answer msg p =
     rbind (message_fromzmq strhex unpack (ev_now E) msg False) (\<lambda>message.
       case message of
         None \<Rightarrow> Inr p
       | Some m \<Rightarrow>
           process_command E answer m
             (case zh_lookup (msg_identity m) (px_fabs p) of
                Some fab \<Rightarrow> p\<lparr>px_fabs := zh_modify (msg_identity m) (fab\<lparr>fb_alive := True\<rparr>) (px_fabs p)\<rparr>
              | None \<Rightarrow> p))"

definition s_local_event :: "(string \<Rightarrow> string) \<Rightarrow> (string \<Rightarrow> mobj option) \<Rightarrow> env \<Rightarrow> string option \<Rightarrow>
    string list \<Rightarrow> proxy \<Rightarrow> proxy res" where
  "s_local_event strhex unpack E answer msg p =
     rbind (message_fromzmq strhex unpack (ev_now E) msg True) (\<lambda>message.
       case message of
         None \<Rightarrow> Inr p
       | Some m \<Rightarrow> process_command E answer m p)"

section \<open>Timeouts of the queue\<close>

text \<open>\<open>conf->in_timeout * 1000\<close> is an \<open>int\<close> product, compared as \<open>uint64_t\<close>.\<close>

definition timeout_us :: "int \<Rightarrow> u64 res" where
  "timeout_us t = rbind (int_res (t * 1000)) (\<lambda>us. Inr (u64_of_int us))"

definition expired_in :: "env \<Rightarrow> message \<Rightarrow> bool res" where
  "expired_in E m =
     rbind (timeout_us (cf_in_timeout (ev_conf E))) (\<lambda>us.
       Inr (getInTimeDelta (ev_now E) m > us \<and> msg_proc_ts m = 0))"

definition expired_out :: "env \<Rightarrow> message \<Rightarrow> bool res" where
  "expired_out E m =
     (if msg_out_ts m \<noteq> 0 then
        rbind (timeout_us (cf_out_timeout (ev_conf E))) (\<lambda>us.
          Inr (getOutTimeDelta (ev_now E) m > us \<and> msg_routed m \<noteq> None))
      else Inr False)"

definition expired_process :: "env \<Rightarrow> message \<Rightarrow> bool res" where
  "expired_process E m =
     (if msg_proc_ts m \<noteq> 0 then
        rbind (timeout_us (cf_process_timeout (ev_conf E))) (\<lambda>us.
          Inr (getProcessTimeDelta (ev_now E) m > us \<and> msg_routed m \<noteq> None))
      else Inr False)"

text \<open>A module that did not answer in time is taken to be stuck: it is to be restarted, and
  forgotten. \<open>via\<close> is the identity in the memory of the module that got the call; when that module
  is no longer registered, its memory is freed and the lookup reads through a stale pointer.\<close>

definition give_up_module :: "env \<Rightarrow> string \<Rightarrow> proxy \<Rightarrow> proxy res" where
  "give_up_module E via p =
     (case zh_lookup via (px_modules p) of
        None \<Rightarrow> Inl Use_After_Free
      | Some mo \<Rightarrow>
          if cf_debug (ev_conf E) then Inr p
          else
            rbind (print_ifaces (forget_identity E (mo_identity mo)
                (emit (To_Procman [''restart'', mo_spid mo]) p))) (\<lambda>p1.
              Inr (p1\<lparr>px_modules := zh_delete (snd (mo_identity mo)) (px_modules p1)\<rparr>)))"

definition process_queue_item :: "env \<Rightarrow> string \<Rightarrow> message \<Rightarrow> proxy \<Rightarrow> (int \<times> proxy) res" where
  "process_queue_item E key m p =
     rbind (expired_in E m) (\<lambda>late_in.
     rbind (expired_out E m) (\<lambda>late_out.
     rbind (expired_process E m) (\<lambda>late_proc.
       let aid = Some (msg_actionid m);
           msg1 = (if late_in then message_exception aid ''All modules are busy'' MODULES_BUSY else None);
           msg2 = (if late_out then message_exception aid ''Global fabric not answered in time'' GLOBAL_TIMEOUT
                   else msg1);
           msg3 = (if late_proc then message_exception aid ''Process timeout'' PROCESS_TIMEOUT else msg2)
       in rbind (if late_proc then give_up_module E (the (msg_routed m)) p else Inr p) (\<lambda>p1.
            case msg3 of
              None \<Rightarrow> Inr (0, p1)
            | Some ob \<Rightarrow>
                rbind (send_message (Some ob) (msg_identity m) p1) (\<lambda>p2. Inr (0, drop_call key p2))))))"

definition process_queue :: "env \<Rightarrow> proxy \<Rightarrow> proxy res" where
  "process_queue E p =
     (if length (px_queue p) > 0
      then rbind (zh_foreach px_queue (process_queue_item E) p) (\<lambda>(rc, p'). Inr p')
      else Inr p)"

section \<open>Polling of the fabrics\<close>

definition get_ifacelist_item :: "env \<Rightarrow> string \<Rightarrow> fabric \<Rightarrow> proxy \<Rightarrow> (int \<times> proxy) res" where
  "get_ifacelist_item E key fab p =
     (let (actionid, p1) = getActionid E p;
          msg = message_ifacelist_request (Some actionid)
      in if fb_alive fab then
           rbind (send_message msg (snd (fb_identity fab)) p1) (\<lambda>p2.
             Inr (0, p2\<lparr>px_fabs := zh_modify key (fab\<lparr>fb_alive := False\<rparr>) (px_fabs p2)\<rparr>))
         else
           rbind (print_ifaces (forget_identity E (fb_identity fab) (emit (Disconnect key) p1))) (\<lambda>p2.
             Inr (0, p2\<lparr>px_fabs := zh_delete key (px_fabs p2)\<rparr>)))"

definition get_ifacelist_event :: "env \<Rightarrow> proxy \<Rightarrow> proxy res" where
  "get_ifacelist_event E p =
     (if length (px_fabs p) > 0
      then rbind (zh_foreach px_fabs (get_ifacelist_item E) p) (\<lambda>(rc, p'). Inr p')
      else Inr p)"

text \<open>
  A beacon of another broker. \<open>connect\<close> says whether connecting to an endpoint succeeds. When it
  fails, the entry is deleted from the table, whose destructor frees the fabric, and
  \<open>fab_destroy\<close> then frees it again.
\<close>

definition s_beacon_event :: "(string \<Rightarrow> bool) \<Rightarrow> string option \<Rightarrow> string option \<Rightarrow> proxy \<Rightarrow> proxy res" where
  "s_beacon_event connect ip msg p =
     (case (ip, msg) of
        (Some _, Some text) \<Rightarrow>
          (case fab_new (px_next p) text of
             None \<Rightarrow> Inr p
           | Some fab \<Rightarrow>
               let ident = snd (fb_identity fab) in
               if zh_lookup ident (px_fabs p) = None then
                 if connect ident then
                   Inr (p\<lparr>px_fabs := zh_insert ident (fab\<lparr>fb_peer := True, fb_alive := True\<rparr>) (px_fabs p),
                          px_next := Suc (px_next p)\<rparr>)
                 else Inl Double_Free
               else Inr p)
      | _ \<Rightarrow> Inr p)"

section \<open>Messages of the process manager\<close>

definition procman_checkpid :: "env \<Rightarrow> string \<Rightarrow> int \<Rightarrow> string \<Rightarrow> module \<Rightarrow> proxy \<Rightarrow> (int \<times> proxy) res" where
  "procman_checkpid E command pid key mo p =
     (if mo_pid mo = pid then
        rbind (if command = ''remove'' then
                 rbind (print_ifaces (forget_identity E (mo_identity mo) p)) (\<lambda>p1.
                   Inr (p1\<lparr>px_modules := zh_delete (snd (mo_identity mo)) (px_modules p1)\<rparr>))
               else Inr p) (\<lambda>p1.
        Inr (-1,
          if command = ''restart'' then
            if mo_state mo = IDLE then
              emit (To_Procman [''restart'', mo_spid mo])
                (p1\<lparr>px_modules := zh_modify key (mo\<lparr>mo_state := RESTARTING\<rparr>) (px_modules p1)\<rparr>)
            else p1\<lparr>px_modules := zh_modify key (mo\<lparr>mo_need_restart := True\<rparr>) (px_modules p1)\<rparr>
          else p1))
      else Inr (0, p))"

definition s_procman_event :: "env \<Rightarrow> string option \<Rightarrow> string option \<Rightarrow> proxy \<Rightarrow> proxy res" where
  "s_procman_event E command c_pid p =
     (case c_pid of
        None \<Rightarrow> Inl Null_Deref
      | Some s \<Rightarrow>
          rbind (atoi s) (\<lambda>pid.
            case command of
              None \<Rightarrow> Inr p
            | Some c \<Rightarrow>
                if pid = 0 then Inr p
                else rbind (zh_foreach px_modules (procman_checkpid E c pid) p) (\<lambda>(rc, p'). Inr p')))"

end
