(* ===== verification/Router_Facts.thy ===== *)
theory Router_Facts
  imports Router
begin

text \<open>
  What the routing core changes and what it leaves alone: a frame for every operation of
  \<^verbatim>\<open>Router\<close>, and \<open>place_call_effect\<close>, the abstract description of the placing of a call that
  the invariants of the broker rest on.
\<close>

named_theorems frame_simps "what an operation leaves unchanged"

section \<open>Sending\<close>

lemma emit_simps [simp]:
  "px_fabs (emit e p) = px_fabs p" "px_modules (emit e p) = px_modules p"
  "px_ifaces (emit e p) = px_ifaces p" "px_heap (emit e p) = px_heap p" "px_next (emit e p) = px_next p"
  "px_queue (emit e p) = px_queue p" "px_uuids (emit e p) = px_uuids p"
  "px_out (emit e p) = px_out p @ [e]"
  by (simp_all add: emit_def)

text \<open>The outputs of a call of \<open>send_message\<close>: none or one.\<close>

definition sends :: "mobj \<Rightarrow> string \<Rightarrow> effect list \<Rightarrow> bool" where
  "sends ob identity es \<longleftrightarrow>
     (if length identity > 10 then es \<in> {[], [To_Fabric identity ob]}
      else \<exists>val. hex_bytes 5 identity = Inr val \<and> es = [To_Local val ob])"

lemma send_message_effect:
  assumes "send_message (Some ob) identity p = Inr p'"
  shows "\<exists>es. p' = p\<lparr>px_out := px_out p @ es\<rparr> \<and> sends ob identity es"
proof (cases "length identity > 10")
  case True
  with assms have "p' = p \<or> p' = emit (To_Fabric identity ob) p"
    by (auto simp: send_message_def split: option.splits if_splits)
  with True show ?thesis
    by (elim disjE) (rule exI [of _ "[]"], simp add: sends_def,
        rule exI [of _ "[To_Fabric identity ob]"], simp add: sends_def emit_def)
next
  case False
  with assms obtain val where "hex_bytes 5 identity = Inr val" "p' = emit (To_Local val ob) p"
    by (auto simp: send_message_def res_simps)
  with False show ?thesis
    by (intro exI [of _ "[To_Local val ob]"]) (simp add: sends_def emit_def)
qed

lemma send_message_None [simp]: "send_message None identity p = Inl Assert_Fail"
  by (simp add: send_message_def)

lemma send_message_frame:
  assumes "send_message msg identity p = Inr p'"
  shows "\<exists>es. p' = p\<lparr>px_out := px_out p @ es\<rparr>"
  using assms by (cases msg) (auto dest: send_message_effect)

lemma send_message_fields:
  assumes "send_message msg identity p = Inr p'"
  shows "px_fabs p' = px_fabs p" "px_modules p' = px_modules p" "px_ifaces p' = px_ifaces p"
    "px_heap p' = px_heap p" "px_next p' = px_next p" "px_queue p' = px_queue p"
    "px_uuids p' = px_uuids p"
  using send_message_frame [OF assms] by auto

lemma hex_bytes_show: "hex_bytes (length bs) (concat (map show_hex_byte bs)) = Inr bs"
proof (induction bs)
  case Nil
  then show ?case by simp
next
  case (Cons b bs)
  then show ?case
    by (simp add: show_hex_byte_def scan_show_hex_byte)
qed

lemma show_hex_length: "length (concat (map show_hex_byte bs)) = 2 * length bs"
  by (induction bs) (auto simp: show_hex_byte_def)

text \<open>A local identity of the usual form can always be sent to.\<close>

definition hex_identity :: "string \<Rightarrow> bool" where
  "hex_identity s \<longleftrightarrow> (\<exists>bs. length bs = 5 \<and> s = concat (map show_hex_byte bs))"

lemma send_message_local:
  assumes "length bs = 5"
  shows "send_message (Some ob) (concat (map show_hex_byte bs)) p = Inr (emit (To_Local bs ob) p)"
  using hex_bytes_show [of bs] assms by (simp add: send_message_def show_hex_length)

lemma send_message_returns: "hex_identity s \<or> length s > 10 \<Longrightarrow> returns (send_message (Some ob) s p)"
  by (auto simp: hex_identity_def send_message_local) (auto simp: send_message_def split: option.splits)

section \<open>Interfaces keep their lists\<close>

text \<open>Two interfaces that differ in cursors only.\<close>

definition same_lists :: "iface \<Rightarrow> iface \<Rightarrow> bool" where
  "same_lists i i' \<longleftrightarrow> if_mod i' = if_mod i \<and> if_func i' = if_func i \<and> if_ver i' = if_ver i \<and>
     zl_items (if_local i') = zl_items (if_local i) \<and> zl_items (if_global i') = zl_items (if_global i)"

definition same_heap :: "iheap \<Rightarrow> iheap \<Rightarrow> bool" where
  "same_heap h h' \<longleftrightarrow> (\<forall>a. same_lists (h a) (h' a))"

lemma same_lists_refl [simp]: "same_lists i i"
  by (simp add: same_lists_def)

lemma same_heap_refl [simp]: "same_heap h h"
  by (simp add: same_heap_def)

lemma same_heap_trans: "same_heap h h1 \<Longrightarrow> same_heap h1 h2 \<Longrightarrow> same_heap h h2"
  by (simp add: same_heap_def same_lists_def)

lemma same_heap_upd: "same_heap h h' \<Longrightarrow> same_lists (h a) i \<Longrightarrow> same_heap h (h'(a := i))"
  by (simp add: same_heap_def)

lemma same_lists_at_end [simp]: "same_lists i (iface_at_end i)"
  by (simp add: same_lists_def)

lemma same_lists_facts:
  assumes "same_lists i i'"
  shows "if_locals i' = if_locals i" "if_globals i' = if_globals i" "iface_wf i' = iface_wf i"
    "iface_unused i' = iface_unused i" "iface_text i' = iface_text i"
    "iface_serves md func ver i' = iface_serves md func ver i"
  using assms by (auto simp: same_lists_def if_locals_def if_globals_def iface_wf_def iface_unused_def
      zl_size_def iface_text_def iface_serves_def)

text \<open>The part of the state the placing of calls does not change.\<close>

definition same_frame :: "proxy \<Rightarrow> proxy \<Rightarrow> bool" where
  "same_frame p p' \<longleftrightarrow> px_fabs p' = px_fabs p \<and> px_queue p' = px_queue p \<and> px_next p' = px_next p \<and>
     px_uuids p' = px_uuids p \<and> zl_items (px_ifaces p') = zl_items (px_ifaces p) \<and>
     same_heap (px_heap p) (px_heap p')"

lemma same_frame_refl [simp]: "same_frame p p"
  by (simp add: same_frame_def)

lemma same_frame_trans: "same_frame p p1 \<Longrightarrow> same_frame p1 p2 \<Longrightarrow> same_frame p p2"
  by (auto simp: same_frame_def intro: same_heap_trans)

section \<open>Looking up an interface\<close>

lemma check_interface_eq:
  "\<exists>l. zl_items l = zl_items (px_ifaces p) \<and>
     check_interface (Some md) (Some func) ver p =
       Inr (find (\<lambda>a. iface_serves md func ver (px_heap p a)) (zl_items (px_ifaces p)), p\<lparr>px_ifaces := l\<rparr>)"
proof -
  let ?P = "\<lambda>a. iface_serves md func ver (px_heap p a)"
  obtain r l where f: "zl_find ?P (px_ifaces p) = (r, l)" by (cases "zl_find ?P (px_ifaces p)")
  then have "r = find ?P (zl_items (px_ifaces p))" "zl_items l = zl_items (px_ifaces p)"
    using zl_find_eq [of ?P "px_ifaces p"] by auto
  with f show ?thesis by (auto simp: check_interface_def)
qed

lemma check_interface_effect:
  assumes "check_interface md func ver p = Inr (r, p')"
  shows "\<exists>m f l. md = Some m \<and> func = Some f \<and> p' = p\<lparr>px_ifaces := l\<rparr> \<and> zl_items l = zl_items (px_ifaces p) \<and>
    r = find (\<lambda>a. iface_serves m f ver (px_heap p a)) (zl_items (px_ifaces p))"
proof -
  obtain m f where mf: "md = Some m" "func = Some f"
    using assms by (cases md; cases func) (auto simp: check_interface_def)
  with check_interface_eq [of p m f ver] assms show ?thesis by auto
qed

section \<open>Messages\<close>

text \<open>Placing a call changes the routing fields of its message only.\<close>

definition same_message :: "message \<Rightarrow> message \<Rightarrow> bool" where
  "same_message m m' \<longleftrightarrow> msg_identity m' = msg_identity m \<and> msg_command m' = msg_command m \<and>
     msg_actionid m' = msg_actionid m \<and> msg_local m' = msg_local m \<and> msg_object m' = msg_object m \<and>
     msg_in_ts m' = msg_in_ts m \<and> msg_ver m' = msg_ver m \<and> msg_func m' = msg_func m \<and>
     msg_mod m' = msg_mod m \<and> (msg_iface m \<noteq> None \<longrightarrow> msg_iface m' = msg_iface m)"

lemma same_message_refl [simp]: "same_message m m"
  by (simp add: same_message_def)

lemma same_message_trans: "same_message m m1 \<Longrightarrow> same_message m1 m2 \<Longrightarrow> same_message m m2"
  by (auto simp: same_message_def)

section \<open>Assigning an interface\<close>

lemma append_all: "rfold (\<lambda>x l. Inr (zl_append x l)) xs l = Inr (fold zl_append xs l)"
  by (induction xs arbitrary: l) auto

lemma items_append_all: "zl_items (fold zl_append xs l) = zl_items l @ xs"
  by (induction xs arbitrary: l) auto

lemma copy_globals_effect:
  assumes "copy_globals m a p = Inr (m', p')"
  shows "same_message m m' \<and> msg_iface m' = msg_iface m \<and> msg_routed m' = msg_routed m \<and>
    msg_out_ts m' = msg_out_ts m \<and> msg_proc_ts m' = msg_proc_ts m \<and>
    same_frame p p' \<and> px_modules p' = px_modules p \<and> px_out p' = px_out p"
  using assms
  by (auto simp: copy_globals_def zl_iterate_eq append_all same_message_def same_frame_def
      same_lists_def intro!: same_heap_upd split: if_splits)

lemma assign_iface_effect:
  assumes "assign_iface m p = Inr (found, m', p')"
  shows "same_message m m'" "msg_routed m' = msg_routed m" "msg_out_ts m' = msg_out_ts m"
    "msg_proc_ts m' = msg_proc_ts m" "same_frame p p'" "px_modules p' = px_modules p" "px_out p' = px_out p"
    "found \<longleftrightarrow> msg_iface m' \<noteq> None"
    "msg_iface m = None \<Longrightarrow> found \<Longrightarrow> \<exists>a. msg_iface m' = Some a \<and> a \<in> set (zl_items (px_ifaces p))"
proof -
  have *: "same_message m m' \<and> msg_routed m' = msg_routed m \<and> msg_out_ts m' = msg_out_ts m \<and>
    msg_proc_ts m' = msg_proc_ts m \<and> same_frame p p' \<and> px_modules p' = px_modules p \<and> px_out p' = px_out p \<and>
    (found \<longleftrightarrow> msg_iface m' \<noteq> None) \<and>
    (msg_iface m = None \<longrightarrow> found \<longrightarrow> (\<exists>a. msg_iface m' = Some a \<and> a \<in> set (zl_items (px_ifaces p))))"
  proof (cases "msg_iface m")
    case (Some a)
    with assms show ?thesis by (auto simp: assign_iface_def)
  next
    case None
    with assms obtain r p1 where ci: "check_interface (msg_mod m) (msg_func m) (msg_ver m) p = Inr (r, p1)"
      and rest: "(case r of None \<Rightarrow> Inr (False, m, p1)
        | Some a \<Rightarrow> if msg_local m
            then rbind (copy_globals (m\<lparr>msg_iface := Some a\<rparr>) a p1) (\<lambda>(m2, p2). Inr (True, m2, p2))
            else Inr (True, m\<lparr>msg_iface := Some a\<rparr>, p1)) = Inr (found, m', p')"
      by (auto simp: assign_iface_def res_simps)
    obtain l where p1: "p1 = p\<lparr>px_ifaces := l\<rparr>" "zl_items l = zl_items (px_ifaces p)"
      and r: "\<And>a. r = Some a \<Longrightarrow> a \<in> set (zl_items (px_ifaces p))"
      using check_interface_effect [OF ci] by (auto dest: find_SomeD)
    have sf: "same_frame p p1" by (simp add: same_frame_def p1)
    show ?thesis
    proof (cases r)
      case None
      with rest sf p1 \<open>msg_iface m = None\<close> show ?thesis by auto
    next
      case (Some a)
      have sm: "same_message m (m\<lparr>msg_iface := Some a\<rparr>)"
        using \<open>msg_iface m = None\<close> by (simp add: same_message_def)
      show ?thesis
      proof (cases "msg_local m")
        case True
        with rest Some obtain m2 p2 where "copy_globals (m\<lparr>msg_iface := Some a\<rparr>) a p1 = Inr (m2, p2)"
          and "found" "m' = m2" "p' = p2"
          by (auto simp: res_simps)
        with copy_globals_effect [OF this(1)] sm sf p1 Some r show ?thesis
          by (auto intro: same_message_trans same_frame_trans)
      next
        case False
        with rest Some sm sf p1 r show ?thesis by auto
      qed
    qed
  qed
  then show "same_message m m'" "msg_routed m' = msg_routed m" "msg_out_ts m' = msg_out_ts m"
    "msg_proc_ts m' = msg_proc_ts m" "same_frame p p'" "px_modules p' = px_modules p" "px_out p' = px_out p"
    "found \<longleftrightarrow> msg_iface m' \<noteq> None"
    "msg_iface m = None \<Longrightarrow> found \<Longrightarrow> \<exists>a. msg_iface m' = Some a \<and> a \<in> set (zl_items (px_ifaces p))"
    by auto
qed

section \<open>Choosing a route\<close>

lemma route_local_eq:
  assumes "zl_items (if_local (px_heap p a)) = q # qs"
  shows "route_local m a p =
    rbind (rfold (try_provider (px_modules p)) (snd q # zl_rest (if_global (px_heap p a))) (msg_routed m))
      (\<lambda>routed. Inr (m\<lparr>msg_routed := routed\<rparr>,
        p\<lparr>px_heap := (px_heap p)(a := (px_heap p a)\<lparr>if_local := snd (zl_first (if_local (px_heap p a))),
          if_global := zl_end (if_global (px_heap p a))\<rparr>)\<rparr>))"
proof -
  have first: "zl_first (if_local (px_heap p a)) = (Some q, snd (zl_first (if_local (px_heap p a))))"
    using assms by (simp add: zl_first_def)
  have cross: "zl_each (Suc (Suc (zl_size g))) f (Some x, g) r =
      rbind (rfold f (x # zl_rest g) r) (\<lambda>s'. Inr (s', zl_end g))" for f x and g :: "string zlist" and r :: "string option"
    by (rule zl_each_cross) simp
  show ?thesis
    unfolding route_local_def Let_def
    by (subst first, simp only: prod.case option.map cross rbind_assoc rbind.simps)
qed

lemma try_provider_sound:
  assumes "rfold (try_provider mods) xs r = Inr r'"
  shows "r' = r \<or> (\<exists>k mo. k \<in> set xs \<and> zh_lookup k mods = Some mo \<and> mo_state mo = IDLE \<and>
    r' = Some (snd (mo_identity mo)))"
proof -
  let ?I = "\<lambda>r'. r' = r \<or> (\<exists>k mo. k \<in> set xs \<and> zh_lookup k mods = Some mo \<and> mo_state mo = IDLE \<and>
    r' = Some (snd (mo_identity mo)))"
  have step: "\<And>k s s'. k \<in> set xs \<Longrightarrow> ?I s \<Longrightarrow> try_provider mods k s = Inr s' \<Longrightarrow> ?I s'"
    by (auto simp: try_provider_def split: option.splits if_splits)
  have "?I r" by simp
  from rfold_invariant [where I = ?I and f = "try_provider mods", OF step this assms] show ?thesis
    by assumption
qed

lemma zl_first_items [simp]: "zl_items (snd (zl_first l)) = zl_items l"
  by (simp add: zl_first_def split: list.splits)

lemma route_local_effect:
  assumes "route_local m a p = Inr (m', p')" and "zl_size (if_local (px_heap p a)) > 0"
  shows "\<exists>r. m' = m\<lparr>msg_routed := r\<rparr> \<and> same_frame p p' \<and> px_modules p' = px_modules p \<and> px_out p' = px_out p \<and>
    (r = msg_routed m \<or> (\<exists>k mo. zh_lookup k (px_modules p) = Some mo \<and> mo_state mo = IDLE \<and>
       r = Some (snd (mo_identity mo))))"
proof -
  obtain q qs where q: "zl_items (if_local (px_heap p a)) = q # qs"
    using assms(2) by (cases "zl_items (if_local (px_heap p a))") (auto simp: zl_size_def)
  let ?i = "(px_heap p a)\<lparr>if_local := snd (zl_first (if_local (px_heap p a))),
    if_global := zl_end (if_global (px_heap p a))\<rparr>"
  obtain r where r: "rfold (try_provider (px_modules p)) (snd q # zl_rest (if_global (px_heap p a))) (msg_routed m) = Inr r"
    and m': "m' = m\<lparr>msg_routed := r\<rparr>" and p': "p' = p\<lparr>px_heap := (px_heap p)(a := ?i)\<rparr>"
    using assms(1) unfolding route_local_eq [OF q] rbind_Inr_iff by auto
  have "same_heap (px_heap p) ((px_heap p)(a := ?i))"
    by (intro same_heap_upd) (simp_all add: same_lists_def)
  with try_provider_sound [OF r] m' p' show ?thesis
    by (intro exI [of _ r]) (auto simp: same_frame_def)
qed

lemma route_global_effect:
  "same_message m (route_global m) \<and> msg_out_ts (route_global m) = msg_out_ts m \<and>
   msg_proc_ts (route_global m) = msg_proc_ts m"
  by (auto simp: route_global_def same_message_def split: option.splits prod.splits)

lemma choose_route_effect:
  assumes "choose_route m a p = Inr (m', p')"
  shows "same_message m m'" "msg_out_ts m' = msg_out_ts m" "msg_proc_ts m' = msg_proc_ts m"
    "same_frame p p'" "px_modules p' = px_modules p" "px_out p' = px_out p"
proof -
  have "same_message m m' \<and> msg_out_ts m' = msg_out_ts m \<and> msg_proc_ts m' = msg_proc_ts m \<and>
    same_frame p p' \<and> px_modules p' = px_modules p \<and> px_out p' = px_out p"
  proof (cases "zl_size (if_local (px_heap p a)) > 0")
    case True
    with assms route_local_effect [of m a p m' p'] show ?thesis
      by (auto simp: choose_route_def same_message_def)
  next
    case False
    with assms route_global_effect [of m] show ?thesis
      by (auto simp: choose_route_def)
  qed
  then show "same_message m m'" "msg_out_ts m' = msg_out_ts m" "msg_proc_ts m' = msg_proc_ts m"
    "same_frame p p'" "px_modules p' = px_modules p" "px_out p' = px_out p"
    by auto
qed

section \<open>Placing a call\<close>

text \<open>
  The abstract description: the call stays as it was and nothing is sent; or it is handed to
  a module that was idle and is now busy; or it is sent on to an identity that is not an idle
  module.
\<close>

inductive call_outcome :: "env \<Rightarrow> message \<Rightarrow> proxy \<Rightarrow> message \<Rightarrow> proxy \<Rightarrow> bool" where
  stays: "msg_routed m' = msg_routed m \<Longrightarrow> msg_out_ts m' = msg_out_ts m \<Longrightarrow>
    msg_proc_ts m' = msg_proc_ts m \<Longrightarrow> px_modules p' = px_modules p \<Longrightarrow> px_out p' = px_out p \<Longrightarrow>
    call_outcome E m p m' p'"
| handed: "msg_routed m = None \<Longrightarrow> msg_routed m' = Some via \<Longrightarrow>
    zh_lookup via (px_modules p) = Some mo \<Longrightarrow> mo_state mo = IDLE \<Longrightarrow>
    msg_out_ts m' = msg_out_ts m \<Longrightarrow> msg_proc_ts m' = ev_now E \<Longrightarrow>
    px_modules p' = zh_modify via (mo\<lparr>mo_state := BUSY\<rparr>) (px_modules p) \<Longrightarrow>
    px_out p' = px_out p @ es \<Longrightarrow> sends (msg_object m) via es \<Longrightarrow>
    call_outcome E m p m' p'"
| passed_on: "msg_routed m = None \<Longrightarrow> msg_routed m' = Some via \<Longrightarrow>
    (\<And>mo. zh_lookup via (px_modules p) = Some mo \<Longrightarrow> mo_state mo \<noteq> IDLE) \<Longrightarrow>
    msg_out_ts m' = ev_now E \<Longrightarrow> msg_proc_ts m' = msg_proc_ts m \<Longrightarrow>
    px_modules p' = px_modules p \<Longrightarrow> px_out p' = px_out p @ es \<Longrightarrow> sends (msg_object m) via es \<Longrightarrow>
    call_outcome E m p m' p'"

lemma send_routed_effect:
  assumes "send_routed E m p = Inr (m', p')"
  shows "same_message m m' \<and> same_frame p p' \<and> msg_routed m' = msg_routed m \<and>
    (msg_routed m = None \<and> m' = m \<and> p' = p \<or>
     (\<exists>via mo es. msg_routed m = Some via \<and> zh_lookup via (px_modules p) = Some mo \<and> mo_state mo = IDLE \<and>
        msg_out_ts m' = msg_out_ts m \<and> msg_proc_ts m' = ev_now E \<and>
        px_modules p' = zh_modify via (mo\<lparr>mo_state := BUSY\<rparr>) (px_modules p) \<and>
        px_out p' = px_out p @ es \<and> sends (msg_object m) via es) \<or>
     (\<exists>via es. msg_routed m = Some via \<and>
        (\<forall>mo. zh_lookup via (px_modules p) = Some mo \<longrightarrow> mo_state mo \<noteq> IDLE) \<and>
        msg_out_ts m' = ev_now E \<and> msg_proc_ts m' = msg_proc_ts m \<and>
        px_modules p' = px_modules p \<and> px_out p' = px_out p @ es \<and> sends (msg_object m) via es))"
proof (cases "msg_routed m")
  case None
  with assms show ?thesis by (simp add: send_routed_def)
next
  case (Some via)
  show ?thesis
  proof (cases "\<exists>mo. zh_lookup via (px_modules p) = Some mo \<and> mo_state mo = IDLE")
    case True
    then obtain mo where mo: "zh_lookup via (px_modules p) = Some mo" "mo_state mo = IDLE" by blast
    let ?p = "p\<lparr>px_modules := zh_modify via (mo\<lparr>mo_state := BUSY\<rparr>) (px_modules p)\<rparr>"
    obtain p1 where s: "send_message (Some (msg_object m)) via ?p = Inr p1"
      and m': "m' = m\<lparr>msg_proc_ts := ev_now E\<rparr>" "p' = p1"
      using assms Some mo by (auto simp: send_routed_def message_tomsg_def res_simps)
    from send_message_effect [OF s] m' mo Some show ?thesis
      by (auto simp: same_message_def same_frame_def)
  next
    case False
    then have busy: "\<forall>mo. zh_lookup via (px_modules p) = Some mo \<longrightarrow> mo_state mo \<noteq> IDLE" by blast
    obtain p1 where s: "send_message (Some (msg_object m)) via p = Inr p1"
      and m': "m' = m\<lparr>msg_out_ts := ev_now E\<rparr>" "p' = p1"
      using assms Some busy
      by (auto simp: send_routed_def message_tomsg_def res_simps split: option.splits)
    from send_message_effect [OF s] m' busy Some show ?thesis
      by (auto simp: same_message_def same_frame_def)
  qed
qed

lemma place_call_effect:
  assumes "place_call E m p = Inr (rc, m', p')"
  shows "same_message m m'" "same_frame p p'" "call_outcome E m p m' p'"
    "rc = 0 \<and> (msg_routed m \<noteq> None \<or> msg_iface m' \<noteq> None) \<or>
     rc = -1 \<and> msg_routed m = None \<and> msg_iface m' = None \<and> msg_routed m' = None"
    "msg_iface m = None \<Longrightarrow> msg_iface m' = Some a \<Longrightarrow> a \<in> set (zl_items (px_ifaces p))"
proof -
  have "same_message m m' \<and> same_frame p p' \<and> call_outcome E m p m' p' \<and>
    (rc = 0 \<and> (msg_routed m \<noteq> None \<or> msg_iface m' \<noteq> None) \<or>
     rc = -1 \<and> msg_routed m = None \<and> msg_iface m' = None \<and> msg_routed m' = None) \<and>
    (msg_iface m = None \<longrightarrow> msg_iface m' = Some a \<longrightarrow> a \<in> set (zl_items (px_ifaces p)))"
  proof (cases "msg_routed m")
    case (Some via)
    with assms show ?thesis
      by (auto simp: place_call_def intro: call_outcome.stays)
  next
    case None
    obtain found m1 p1 where ai: "assign_iface m p = Inr (found, m1, p1)"
      and rest: "(if \<not> found then Inr (-1, m1, p1)
        else case msg_iface m1 of
            None \<Rightarrow> Inr (0, m1, p1)
          | Some a \<Rightarrow> rbind (choose_route m1 a p1) (\<lambda>(m2, p2).
              rbind (send_routed E m2 p2) (\<lambda>(m3, p3). Inr (0, m3, p3)))) = Inr (rc, m', p')"
      using assms None by (auto simp: place_call_def res_simps)
    note A = assign_iface_effect [OF ai]
    show ?thesis
    proof (cases found)
      case False
      with rest A None show ?thesis by (auto intro: call_outcome.stays)
    next
      case True
      then obtain b where b: "msg_iface m1 = Some b" using A(8) by auto
      obtain m2 p2 where cr: "choose_route m1 b p1 = Inr (m2, p2)" and sr: "send_routed E m2 p2 = Inr (m', p')"
        and rc: "rc = 0"
        using rest True b by (auto simp: res_simps)
      note B = choose_route_effect [OF cr] and C = send_routed_effect [OF sr]
      have sm: "same_message m m'" and sf: "same_frame p p'"
        using A(1,5) B(1,4) C by (auto intro: same_message_trans same_frame_trans)
      have ob: "msg_object m2 = msg_object m"
        using A(1) B(1) by (simp add: same_message_def)
      have ifc: "msg_iface m' = Some b"
        using b B(1) C by (auto simp: same_message_def)
      from C have "call_outcome E m p m' p'"
        using None A B ob by (elim conjE disjE exE) (auto intro: call_outcome.intros)
      with sm sf rc ifc A(9) True b show ?thesis by auto
    qed
  qed
  then show "same_message m m'" "same_frame p p'" "call_outcome E m p m' p'"
    "rc = 0 \<and> (msg_routed m \<noteq> None \<or> msg_iface m' \<noteq> None) \<or>
     rc = -1 \<and> msg_routed m = None \<and> msg_iface m' = None \<and> msg_routed m' = None"
    "msg_iface m = None \<Longrightarrow> msg_iface m' = Some a \<Longrightarrow> a \<in> set (zl_items (px_ifaces p))"
    by auto
qed

inductive_cases call_outcomeE: "call_outcome E m p m' p'"

lemma call_outcome_modules:
  assumes "call_outcome E m p m' p'" and "zh_lookup k (px_modules p') = Some mo'"
  shows "\<exists>mo. zh_lookup k (px_modules p) = Some mo \<and> (mo' = mo \<or> mo' = mo\<lparr>mo_state := BUSY\<rparr>)"
  using assms by (cases rule: call_outcome.cases) (auto simp: zh_lookup_modify split: if_splits)

lemma call_outcome_keys:
  assumes "call_outcome E m p m' p'"
  shows "zh_keys (px_modules p') = zh_keys (px_modules p)"
  using assms by (cases rule: call_outcome.cases) auto

end
