(* ===== verification/Router_Inv.thy ===== *)
theory Router_Inv
  imports Handlers Router_Facts
begin

text \<open>
  The invariant of the broker's state and its preservation by the shared steps of the
  handlers. \<open>router_inv\<close> ties the tables together: modules and fabrics are stored under their
  own identities and have different addresses, the interfaces in the list have providers and
  no provider twice, a local provider is a registered module, and a queued call is stored
  under its action id. \<open>exclusive\<close> is the purpose of the \<open>BUSY\<close> state: a module that works on
  a call is not idle, and works on one call only.
\<close>

section \<open>The parts of the invariant\<close>

definition wf_modules :: "nat \<Rightarrow> module zhash \<Rightarrow> bool" where
  "wf_modules n mods \<longleftrightarrow> zh_wf mods \<and>
     (\<forall>k mo. zh_lookup k mods = Some mo \<longrightarrow>
        snd (mo_identity mo) = k \<and> fst (mo_identity mo) < n \<and> mo_state mo \<noteq> GUEST) \<and>
     (\<forall>k k' mo mo'. zh_lookup k mods = Some mo \<longrightarrow> zh_lookup k' mods = Some mo' \<longrightarrow>
        fst (mo_identity mo) = fst (mo_identity mo') \<longrightarrow> k = k')"

definition wf_fabs :: "nat \<Rightarrow> fabric zhash \<Rightarrow> bool" where
  "wf_fabs n fabs \<longleftrightarrow> zh_wf fabs \<and>
     (\<forall>k fab. zh_lookup k fabs = Some fab \<longrightarrow> snd (fb_identity fab) = k \<and> fst (fb_identity fab) < n \<and> fb_peer fab)"

definition wf_ifaces :: "nat \<Rightarrow> nat list \<Rightarrow> iheap \<Rightarrow> bool" where
  "wf_ifaces n items h \<longleftrightarrow> distinct items \<and>
     (\<forall>a \<in> set items. a < n \<and> iface_wf (h a) \<and> \<not> iface_unused (h a)) \<and>
     (\<forall>a. a \<notin> set items \<longrightarrow> zl_items (if_local (h a)) = [])"

text \<open>\<open>X\<close> holds the module that is being registered.\<close>

definition wf_providers :: "cptr set \<Rightarrow> module zhash \<Rightarrow> iheap \<Rightarrow> bool" where
  "wf_providers X mods h \<longleftrightarrow>
     (\<forall>a. \<forall>q \<in> set (zl_items (if_local (h a))).
        q \<in> X \<or> (\<exists>mo. zh_lookup (snd q) mods = Some mo \<and> mo_identity mo = q))"

definition wf_call :: "nat \<Rightarrow> message \<Rightarrow> bool" where
  "wf_call n m \<longleftrightarrow> (msg_proc_ts m \<noteq> 0 \<longrightarrow> msg_routed m \<noteq> None) \<and> (\<forall>a. msg_iface m = Some a \<longrightarrow> a < n) \<and>
     msg_mod m \<noteq> None \<and> msg_func m \<noteq> None \<and> msg_ver m \<noteq> 0"

definition wf_queue :: "nat \<Rightarrow> message zhash \<Rightarrow> bool" where
  "wf_queue n q \<longleftrightarrow> zh_wf q \<and> (\<forall>k m. zh_lookup k q = Some m \<longrightarrow> msg_actionid m = k \<and> wf_call n m)"

definition router_inv :: "proxy \<Rightarrow> bool" where
  "router_inv p \<longleftrightarrow> wf_modules (px_next p) (px_modules p) \<and> wf_fabs (px_next p) (px_fabs p) \<and>
     wf_ifaces (px_next p) (zl_items (px_ifaces p)) (px_heap p) \<and>
     wf_providers {} (px_modules p) (px_heap p) \<and> wf_queue (px_next p) (px_queue p)"

text \<open>The call \<open>m\<close> has been handed to the module \<open>via\<close>, and its answer is outstanding.\<close>

definition works_on :: "string \<Rightarrow> message \<Rightarrow> bool" where
  "works_on via m \<longleftrightarrow> msg_proc_ts m \<noteq> 0 \<and> msg_routed m = Some via"

definition exclusive_in :: "module zhash \<Rightarrow> message zhash \<Rightarrow> bool" where
  "exclusive_in mods q \<longleftrightarrow>
     (\<forall>k m via mo. zh_lookup k q = Some m \<longrightarrow> works_on via m \<longrightarrow> zh_lookup via mods = Some mo \<longrightarrow>
        mo_state mo \<noteq> IDLE) \<and>
     (\<forall>k k' m m' via. zh_lookup k q = Some m \<longrightarrow> zh_lookup k' q = Some m' \<longrightarrow>
        works_on via m \<longrightarrow> works_on via m' \<longrightarrow> k = k')"

definition exclusive :: "proxy \<Rightarrow> bool" where
  "exclusive p \<longleftrightarrow> exclusive_in (px_modules p) (px_queue p)"

text \<open>A time stamp of 0 means "not sent" to the program; exclusiveness needs a running clock.\<close>

definition broker_ok :: "env \<Rightarrow> proxy \<Rightarrow> bool" where
  "broker_ok E p \<longleftrightarrow> router_inv p \<and> (ev_now E \<noteq> 0 \<longrightarrow> exclusive p)"

section \<open>States that agree\<close>

lemma wf_ifaces_same:
  assumes "same_heap h h'"
  shows "wf_ifaces n items h' \<longleftrightarrow> wf_ifaces n items h"
proof -
  have "same_lists (h a) (h' a)" for a
    using assms by (simp add: same_heap_def)
  then have "iface_wf (h' a) = iface_wf (h a)" "iface_unused (h' a) = iface_unused (h a)"
    "zl_items (if_local (h' a)) = zl_items (if_local (h a))" for a
    using same_lists_facts(3,4) by (blast, blast, simp add: same_lists_def)
  then show ?thesis
    by (simp add: wf_ifaces_def)
qed

lemma wf_providers_same: "same_heap h h' \<Longrightarrow> wf_providers X mods h' \<longleftrightarrow> wf_providers X mods h"
  unfolding wf_providers_def same_heap_def by (simp add: same_lists_def)

lemma router_inv_same:
  assumes "same_frame p p'" and "px_modules p' = px_modules p"
  shows "router_inv p' \<longleftrightarrow> router_inv p" "exclusive p' \<longleftrightarrow> exclusive p" "broker_ok E p' \<longleftrightarrow> broker_ok E p"
proof -
  show inv: "router_inv p' \<longleftrightarrow> router_inv p"
    using assms wf_ifaces_same wf_providers_same by (auto simp: router_inv_def same_frame_def)
  show ex: "exclusive p' \<longleftrightarrow> exclusive p"
    using assms by (simp add: exclusive_def same_frame_def)
  from inv ex show "broker_ok E p' \<longleftrightarrow> broker_ok E p" by (simp add: broker_ok_def)
qed

lemma router_inv_out [simp]:
  "router_inv (p\<lparr>px_out := es\<rparr>) \<longleftrightarrow> router_inv p" "exclusive (p\<lparr>px_out := es\<rparr>) \<longleftrightarrow> exclusive p"
  "broker_ok E (p\<lparr>px_out := es\<rparr>) \<longleftrightarrow> broker_ok E p"
  "router_inv (p\<lparr>px_uuids := u\<rparr>) \<longleftrightarrow> router_inv p" "exclusive (p\<lparr>px_uuids := u\<rparr>) \<longleftrightarrow> exclusive p"
  "broker_ok E (p\<lparr>px_uuids := u\<rparr>) \<longleftrightarrow> broker_ok E p"
  by (simp_all add: router_inv_def exclusive_def broker_ok_def)

lemma router_inv_emit [simp]:
  "router_inv (emit e p) \<longleftrightarrow> router_inv p" "exclusive (emit e p) \<longleftrightarrow> exclusive p"
  "broker_ok E (emit e p) \<longleftrightarrow> broker_ok E p"
  by (simp_all add: emit_def)

lemma broker_ok_sent:
  "send_message msg identity p = Inr p' \<Longrightarrow> broker_ok E p' \<longleftrightarrow> broker_ok E p"
  by (auto dest: send_message_frame)

section \<open>Printing\<close>

lemma print_iface_effect:
  assumes "print_iface a p = Inr p'"
  shows "p' = p\<lparr>px_heap := (px_heap p)(a := iface_at_end (px_heap p a))\<rparr>" "length (iface_text (px_heap p a)) < 1024"
  using assms by (auto simp: print_iface_def iface_print_eq res_simps split: if_splits)

lemma print_iface_frame:
  assumes "print_iface a p = Inr p'"
  shows "same_frame p p'" "px_modules p' = px_modules p" "px_out p' = px_out p"
  using print_iface_effect(1) [OF assms] by (auto simp: same_frame_def intro: same_heap_upd)

lemma print_ifaces_frame:
  assumes "print_ifaces p = Inr p'"
  shows "same_frame p p' \<and> px_modules p' = px_modules p \<and> px_out p' = px_out p"
proof -
  let ?I = "\<lambda>p'. same_frame p p' \<and> px_modules p' = px_modules p \<and> px_out p' = px_out p"
  obtain p1 where run: "rfold print_iface (zl_items (px_ifaces p)) p = Inr p1"
    and p': "p' = p1\<lparr>px_ifaces := zl_end (px_ifaces p)\<rparr>"
    using assms by (auto simp: print_ifaces_def zl_iterate_eq res_simps)
  have step: "\<And>a s s'. a \<in> set (zl_items (px_ifaces p)) \<Longrightarrow> ?I s \<Longrightarrow> print_iface a s = Inr s' \<Longrightarrow> ?I s'"
    by (metis print_iface_frame same_frame_trans)
  have "?I p1"
    by (rule rfold_invariant [where I = ?I and f = print_iface, OF step _ run]) simp_all
  with p' show ?thesis
    by (simp add: same_frame_def)
qed

section \<open>Changes of a module\<close>

lemma wf_modules_modify:
  assumes "wf_modules n mods" and "zh_lookup k mods = Some mo"
    and "mo_identity mo' = mo_identity mo" and "mo_state mo' \<noteq> GUEST"
  shows "wf_modules n (zh_modify k mo' mods)"
  using assms unfolding wf_modules_def
  by (auto simp: zh_lookup_modify zh_wf_modify split: if_splits)

lemma wf_providers_modify:
  assumes "wf_providers X mods h" and "zh_lookup k mods = Some mo" and "mo_identity mo' = mo_identity mo"
  shows "wf_providers X (zh_modify k mo' mods) h"
  unfolding wf_providers_def
proof (intro allI ballI)
  fix a q assume "q \<in> set (zl_items (if_local (h a)))"
  then consider "q \<in> X" | mo1 where "zh_lookup (snd q) mods = Some mo1" "mo_identity mo1 = q"
    using assms(1) unfolding wf_providers_def by blast
  then show "q \<in> X \<or> (\<exists>mo. zh_lookup (snd q) (zh_modify k mo' mods) = Some mo \<and> mo_identity mo = q)"
    using assms(2,3) by cases (auto simp: zh_lookup_modify)
qed

lemma exclusive_modify_busy:
  assumes "exclusive_in mods q" and "mo_state mo' \<noteq> IDLE"
  shows "exclusive_in (zh_modify k mo' mods) q"
  using assms unfolding exclusive_in_def by (auto simp: zh_lookup_modify split: if_splits)

definition nobody_works :: "string \<Rightarrow> message zhash \<Rightarrow> bool" where
  "nobody_works via q \<longleftrightarrow> (\<forall>k m. zh_lookup k q = Some m \<longrightarrow> \<not> works_on via m)"

lemma exclusive_modify_idle:
  assumes "exclusive_in mods q" and "nobody_works k q"
  shows "exclusive_in (zh_modify k mo' mods) q"
  using assms unfolding exclusive_in_def nobody_works_def
  by (auto simp: zh_lookup_modify split: if_splits)

lemma exclusive_modify_keep:
  assumes "exclusive_in mods q" and "zh_lookup k mods = Some mo" and "mo_state mo' = mo_state mo"
  shows "exclusive_in (zh_modify k mo' mods) q"
  using assms unfolding exclusive_in_def
  by (auto simp: zh_lookup_modify split: if_splits)

lemma exclusive_idle: "exclusive_in mods q \<Longrightarrow> zh_lookup via mods = Some mo \<Longrightarrow> mo_state mo = IDLE \<Longrightarrow>
   nobody_works via q"
  unfolding exclusive_in_def nobody_works_def by blast

lemma router_inv_modify_module:
  assumes "router_inv p" and "zh_lookup k (px_modules p) = Some mo"
    and "mo_identity mo' = mo_identity mo" and "mo_state mo' \<noteq> GUEST"
  shows "router_inv (p\<lparr>px_modules := zh_modify k mo' (px_modules p)\<rparr>)"
  using assms wf_modules_modify [of "px_next p"] wf_providers_modify by (simp add: router_inv_def)

lemma wf_modules_delete: "wf_modules n mods \<Longrightarrow> wf_modules n (zh_delete k mods)"
  unfolding wf_modules_def by (auto simp: zh_lookup_delete zh_wf_delete split: if_splits)

lemma exclusive_delete_module: "exclusive_in mods q \<Longrightarrow> exclusive_in (zh_delete k mods) q"
  unfolding exclusive_in_def by (auto simp: zh_lookup_delete split: if_splits)

section \<open>Removal of a peer from the interfaces\<close>

lemma local_addresses:
  assumes "wf_modules n mods" and "wf_providers {} mods h" and "iface_wf (h a)"
  shows "distinct (map fst (zl_items (if_local (h a))))"
proof -
  let ?l = "zl_items (if_local (h a))"
  have d: "distinct (map snd ?l)"
    using assms(3) by (simp add: iface_wf_def if_locals_def)
  have "inj_on fst (set ?l)"
  proof (rule inj_onI)
    fix q q' assume q: "q \<in> set ?l" "q' \<in> set ?l" and eq: "fst q = fst q'"
    then obtain mo mo' where mo: "zh_lookup (snd q) mods = Some mo" "mo_identity mo = q"
        "zh_lookup (snd q') mods = Some mo'" "mo_identity mo' = q'"
      using assms(2) unfolding wf_providers_def by blast
    with eq assms(1) have "snd q = snd q'" unfolding wf_modules_def by blast
    with mo show "q = q'" by simp
  qed
  with d show ?thesis by (simp add: distinct_map)
qed

lemma wf_ifaces_remove:
  assumes "wf_ifaces n (zl_items l) h" and "iface_remove byval l h ident = (l', h')"
  shows "wf_ifaces n (zl_items l') h'"
    "zl_items l' = filter (\<lambda>a. \<not> iface_unused (iface_forget byval ident (h a))) (zl_items l)"
    "h' = (\<lambda>a. if a \<in> set (zl_items l) then iface_forget byval ident (h a) else h a)"
proof -
  have d: "distinct (zl_items l)" using assms(1) by (simp add: wf_ifaces_def)
  show l': "zl_items l' = filter (\<lambda>a. \<not> iface_unused (iface_forget byval ident (h a))) (zl_items l)"
    and h': "h' = (\<lambda>a. if a \<in> set (zl_items l) then iface_forget byval ident (h a) else h a)"
    using assms(2) unfolding iface_remove_eq [OF d] by auto
  have empty: "zl_items (if_local (iface_forget byval ident (h a))) = []"
    if "iface_unused (iface_forget byval ident (h a))" for a
    using that by (simp add: iface_unused_def zl_size_def)
  show "wf_ifaces n (zl_items l') h'"
    using assms(1) unfolding wf_ifaces_def l' h' by (auto simp: iface_wf_forget empty)
qed

lemma wf_providers_forget:
  assumes "wf_modules n mods" and "wf_providers {} mods h" and "wf_ifaces n (zl_items l) h"
    and "iface_remove byval l h (mo_identity mo) = (l', h')" and "zh_lookup k mods = Some mo"
  shows "wf_providers {} (zh_delete k mods) h'"
  unfolding wf_providers_def
proof (intro allI ballI disjI2)
  fix a q assume q: "q \<in> set (zl_items (if_local (h' a)))"
  note R = wf_ifaces_remove [OF assms(3,4)]
  have a: "a \<in> set (zl_items l)"
    using q assms(3) unfolding R(3) by (auto simp: wf_ifaces_def split: if_splits)
  then have "iface_wf (h a)" using assms(3) by (simp add: wf_ifaces_def)
  from iface_forget_local_items [OF local_addresses [OF assms(1,2) this]] q a
  have q: "q \<in> set (zl_items (if_local (h a)))" "fst q \<noteq> fst (mo_identity mo)"
    unfolding R(3) by auto
  then obtain mo' where mo': "zh_lookup (snd q) mods = Some mo'" "mo_identity mo' = q"
    using assms(2) unfolding wf_providers_def by blast
  with q(2) assms(5) have "snd q \<noteq> k" by auto
  with mo' show "\<exists>mo. zh_lookup (snd q) (zh_delete k mods) = Some mo \<and> mo_identity mo = q"
    by (simp add: zh_lookup_delete)
qed

text \<open>The three statements that remove a module or a fabric.\<close>

lemma forget_module_ok:
  assumes "broker_ok E p" and "zh_lookup k (px_modules p) = Some mo"
    and "print_ifaces (forget_identity E' (mo_identity mo) p) = Inr p'"
  shows "broker_ok E (p'\<lparr>px_modules := zh_delete (snd (mo_identity mo)) (px_modules p')\<rparr>)"
proof -
  obtain l h where r: "iface_remove (ev_byval E') (px_ifaces p) (px_heap p) (mo_identity mo) = (l, h)"
    by (cases "iface_remove (ev_byval E') (px_ifaces p) (px_heap p) (mo_identity mo)")
  let ?p = "p\<lparr>px_ifaces := l, px_heap := h, px_modules := zh_delete k (px_modules p)\<rparr>"
  have k: "snd (mo_identity mo) = k"
    using assms(1,2) by (simp add: broker_ok_def router_inv_def wf_modules_def)
  have "broker_ok E ?p"
    using assms(1,2) wf_ifaces_remove(1) [OF _ r] wf_providers_forget [OF _ _ _ r, of "px_next p" "px_modules p" k]
    by (auto simp: broker_ok_def router_inv_def exclusive_def wf_modules_delete exclusive_delete_module)
  moreover have "same_frame ?p (p'\<lparr>px_modules := zh_delete k (px_modules p')\<rparr>)"
    and "px_modules (p'\<lparr>px_modules := zh_delete k (px_modules p')\<rparr>) = px_modules ?p"
    using print_ifaces_frame [OF assms(3)] by (simp_all add: forget_identity_def r same_frame_def)
  ultimately have "broker_ok E (p'\<lparr>px_modules := zh_delete k (px_modules p')\<rparr>)"
    using router_inv_same(3) by blast
  then show ?thesis by (simp only: k)
qed

lemma wf_providers_shrink:
  assumes "wf_providers X mods h" and "\<And>a. set (zl_items (if_local (h' a))) \<subseteq> set (zl_items (if_local (h a)))"
  shows "wf_providers X mods h'"
  using assms unfolding wf_providers_def by blast

lemma wf_fabs_delete: "wf_fabs n fabs \<Longrightarrow> wf_fabs n (zh_delete k fabs)"
  unfolding wf_fabs_def by (auto simp: zh_lookup_delete zh_wf_delete split: if_splits)

lemma forget_fabric_ok:
  assumes "broker_ok E p" and "print_ifaces (forget_identity E' ident p) = Inr p'"
  shows "broker_ok E (p'\<lparr>px_fabs := zh_delete k (px_fabs p')\<rparr>)"
proof -
  obtain l h where r: "iface_remove (ev_byval E') (px_ifaces p) (px_heap p) ident = (l, h)"
    by (cases "iface_remove (ev_byval E') (px_ifaces p) (px_heap p) ident")
  have wf: "wf_ifaces (px_next p) (zl_items (px_ifaces p)) (px_heap p)"
    using assms(1) by (simp add: broker_ok_def router_inv_def)
  let ?p = "p\<lparr>px_ifaces := l, px_heap := h, px_fabs := zh_delete k (px_fabs p)\<rparr>"
  have "set (zl_items (if_local (h a))) \<subseteq> set (zl_items (if_local (px_heap p a)))" for a
    unfolding wf_ifaces_remove(3) [OF wf r] using iface_forget_subset(1) by auto
  then have "broker_ok E ?p"
    using assms(1) wf_ifaces_remove(1) [OF wf r] wf_providers_shrink [of "{}" "px_modules p" "px_heap p" h]
    by (auto simp: broker_ok_def router_inv_def exclusive_def wf_fabs_delete)
  moreover have "same_frame ?p (p'\<lparr>px_fabs := zh_delete k (px_fabs p')\<rparr>) \<and> px_modules p' = px_modules ?p"
    using print_ifaces_frame [OF assms(2)] by (simp add: forget_identity_def r same_frame_def)
  ultimately show ?thesis
    using router_inv_same(3) [of ?p "p'\<lparr>px_fabs := zh_delete k (px_fabs p')\<rparr>" E] by simp
qed

end
