(* ===== verification/Queue_Inv.thy ===== *)
theory Queue_Inv
  imports Router_Inv
begin

text \<open>
  The queue of calls keeps the invariant: placing a call, dropping one, putting one in, and
  the three iterations over the broker's tables, each an interpretation of the contract
  between \<open>zhash_foreach\<close> and its callback.
\<close>

section \<open>Placing a call\<close>

lemma works_on_same: "msg_proc_ts m' = msg_proc_ts m \<Longrightarrow> msg_routed m' = msg_routed m \<Longrightarrow>
   works_on via m' \<longleftrightarrow> works_on via m"
  by (simp add: works_on_def)

text \<open>What a placed call works on: what it worked on before, or a module no queued call works on.\<close>

definition newly_on :: "message \<Rightarrow> message \<Rightarrow> proxy \<Rightarrow> proxy \<Rightarrow> bool" where
  "newly_on m m' p p' \<longleftrightarrow> (\<forall>via. works_on via m' \<longrightarrow> works_on via m \<or>
     nobody_works via (px_queue p) \<and> (\<exists>mo. zh_lookup via (px_modules p') = Some mo \<and> mo_state mo \<noteq> IDLE))"

lemma wf_call_outcome:
  assumes "call_outcome E m p m' p'" and "same_message m m'" and "wf_call n m"
    and "msg_iface m = None \<Longrightarrow> (\<forall>a. msg_iface m' = Some a \<longrightarrow> a < n)"
  shows "wf_call n m'"
proof -
  have i: "\<forall>a. msg_iface m' = Some a \<longrightarrow> a < n"
    using assms(2-4) by (cases "msg_iface m") (auto simp: same_message_def wf_call_def)
  from assms(1) show ?thesis
    by (cases rule: call_outcome.cases)
      (use assms(2,3) i in \<open>auto simp: same_message_def wf_call_def\<close>)
qed

lemma place_call_ok:
  assumes "broker_ok E p" and "place_call E m p = Inr (rc, m', p')" and "wf_call (px_next p) m"
    and "msg_routed m = None \<longrightarrow> msg_proc_ts m = 0"
  shows "broker_ok E p'" "wf_call (px_next p') m'" "ev_now E \<noteq> 0 \<Longrightarrow> newly_on m m' p p'"
proof -
  note P = place_call_effect [OF assms(2)]
  have frame: "px_fabs p' = px_fabs p" "px_queue p' = px_queue p" "px_next p' = px_next p"
    "zl_items (px_ifaces p') = zl_items (px_ifaces p)" "same_heap (px_heap p) (px_heap p')"
    using P(2) by (auto simp: same_frame_def)
  have "\<forall>a. msg_iface m' = Some a \<longrightarrow> a < px_next p" if "msg_iface m = None"
    using P(5) [OF that] assms(1) by (auto simp: broker_ok_def router_inv_def wf_ifaces_def)
  from wf_call_outcome [OF P(3,1) assms(3) this] show "wf_call (px_next p') m'" by (simp add: frame)
  show "broker_ok E p'"
    using P(3)
  proof (cases rule: call_outcome.cases)
    case stays
    with assms(1) P(2) show ?thesis using router_inv_same(3) by blast
  next
    case (passed_on via es)
    with assms(1) P(2) show ?thesis using router_inv_same(3) by blast
  next
    case (handed via mo es)
    let ?p = "p\<lparr>px_modules := zh_modify via (mo\<lparr>mo_state := BUSY\<rparr>) (px_modules p)\<rparr>"
    have "broker_ok E ?p"
      using assms(1) handed router_inv_modify_module [of p via mo "mo\<lparr>mo_state := BUSY\<rparr>"]
      by (auto simp: broker_ok_def exclusive_def exclusive_modify_busy)
    moreover have "same_frame ?p p'" "px_modules p' = px_modules ?p"
      using P(2) handed by (simp_all add: same_frame_def)
    ultimately show ?thesis using router_inv_same(3) by blast
  qed
  assume clock: "ev_now E \<noteq> 0"
  show "newly_on m m' p p'"
    using P(3)
  proof (cases rule: call_outcome.cases)
    case stays
    then show ?thesis by (simp add: newly_on_def works_on_def)
  next
    case (passed_on via es)
    then show ?thesis using assms(4) by (simp add: newly_on_def works_on_def)
  next
    case (handed via mo es)
    have "exclusive_in (px_modules p) (px_queue p)"
      using assms(1) clock by (simp add: broker_ok_def exclusive_def)
    from exclusive_idle [OF this] handed show ?thesis
      by (auto simp: newly_on_def works_on_def zh_lookup_modify)
  qed
qed

text \<open>Writing a placed call back into the queue, and inserting a new one.\<close>

lemma exclusive_placed:
  assumes "exclusive_in mods q"
    and "\<And>via. works_on via m' \<Longrightarrow> (\<exists>m. zh_lookup k q = Some m \<and> works_on via m) \<or>
      nobody_works via q \<and> (\<exists>mo. zh_lookup via mods = Some mo \<and> mo_state mo \<noteq> IDLE)"
    and "\<And>j. zh_lookup j q' = (if j = k \<and> b then Some m' else zh_lookup j q)"
  shows "exclusive_in mods q'"
proof -
  have old: "zh_lookup j q = Some x \<Longrightarrow> works_on via x \<Longrightarrow> zh_lookup via mods = Some mo \<Longrightarrow> mo_state mo \<noteq> IDLE"
    "zh_lookup j q = Some x \<Longrightarrow> works_on via x \<Longrightarrow> zh_lookup j' q = Some x' \<Longrightarrow> works_on via x' \<Longrightarrow> j = j'"
    for j j' x x' via mo
    using assms(1) unfolding exclusive_in_def by blast+
  have new: "works_on via m' \<Longrightarrow> zh_lookup via mods = Some mo \<Longrightarrow> mo_state mo \<noteq> IDLE"
    "works_on via m' \<Longrightarrow> zh_lookup j q = Some x \<Longrightarrow> works_on via x \<Longrightarrow> j = k" for via mo j x
    using assms(2) [of via] old [of k _ via] by (auto simp: nobody_works_def)
  show ?thesis
    unfolding exclusive_in_def assms(3)
    using old new by (auto split: if_splits)
qed

lemma wf_queue_modify: "wf_queue n q \<Longrightarrow> msg_actionid m = k \<Longrightarrow> wf_call n m \<Longrightarrow> wf_queue n (zh_modify k m q)"
  unfolding wf_queue_def by (auto simp: zh_lookup_modify zh_wf_modify split: if_splits)

lemma wf_queue_insert: "wf_queue n q \<Longrightarrow> wf_call n m \<Longrightarrow> wf_queue n (zh_insert (msg_actionid m) m q)"
  unfolding wf_queue_def by (auto simp: zh_lookup_insert zh_wf_insert split: if_splits)

lemma wf_queue_delete: "wf_queue n q \<Longrightarrow> wf_queue n (zh_delete k q)"
  unfolding wf_queue_def by (auto simp: zh_lookup_delete zh_wf_delete split: if_splits)

lemma exclusive_delete_call: "exclusive_in mods q \<Longrightarrow> exclusive_in mods (zh_delete k q)"
  unfolding exclusive_in_def by (auto simp: zh_lookup_delete split: if_splits)

lemma drop_call_ok: "broker_ok E p \<Longrightarrow> broker_ok E (drop_call k p)"
  by (auto simp: broker_ok_def router_inv_def exclusive_def drop_call_def wf_queue_delete exclusive_delete_call)

lemma queued_call:
  assumes "router_inv p" and "zh_lookup k (px_queue p) = Some m"
  shows "msg_actionid m = k" "wf_call (px_next p) m"
  using assms by (auto simp: router_inv_def wf_queue_def)

lemma wf_call_unplaced: "wf_call n m \<Longrightarrow> msg_routed m = None \<longrightarrow> msg_proc_ts m = 0"
  by (auto simp: wf_call_def)

lemma place_queued_ok:
  assumes ok: "broker_ok E p" and k: "zh_lookup k (px_queue p) = Some m"
    and pc: "place_call E m p = Inr (rc, m', p')"
  shows "broker_ok E (p'\<lparr>px_queue := zh_modify k m' (px_queue p')\<rparr>)"
proof -
  have m: "msg_actionid m = k" "wf_call (px_next p) m"
    using ok queued_call [OF _ k] by (auto simp: broker_ok_def)
  note P = place_call_ok [OF ok pc m(2) wf_call_unplaced [OF m(2)]]
  have q: "px_queue p' = px_queue p" and aid: "msg_actionid m' = k"
    using place_call_effect(1,2) [OF pc] m(1) by (auto simp: same_frame_def same_message_def)
  have "exclusive_in (px_modules p') (zh_modify k m' (px_queue p'))" if clock: "ev_now E \<noteq> 0"
  proof (rule exclusive_placed)
    show "exclusive_in (px_modules p') (px_queue p')"
      using P(1) clock by (simp add: broker_ok_def exclusive_def)
    show "(\<exists>m. zh_lookup k (px_queue p') = Some m \<and> works_on via m) \<or>
      nobody_works via (px_queue p') \<and> (\<exists>mo. zh_lookup via (px_modules p') = Some mo \<and> mo_state mo \<noteq> IDLE)"
      if "works_on via m'" for via
      using P(3) [OF clock] that k by (auto simp: newly_on_def q)
    show "zh_lookup j (zh_modify k m' (px_queue p')) = (if j = k \<and> True then Some m' else zh_lookup j (px_queue p'))" for j
      by (simp add: zh_lookup_modify q k)
  qed
  then show ?thesis
    using P(1,2) aid wf_queue_modify [of "px_next p'" "px_queue p'" m' k]
    by (auto simp: broker_ok_def router_inv_def exclusive_def)
qed

lemma insert_call_ok:
  assumes ok: "broker_ok E p" and new: "wf_call (px_next p) m" "msg_routed m = None" "msg_proc_ts m = 0"
    and pc: "place_call E m p = Inr (rc, m', p')"
  shows "broker_ok E (p'\<lparr>px_queue := zh_insert (msg_actionid m') m' (px_queue p')\<rparr>)"
proof -
  have "msg_routed m = None \<longrightarrow> msg_proc_ts m = 0" using new(3) ..
  note P = place_call_ok [OF ok pc new(1) this]
  have q: "px_queue p' = px_queue p"
    using place_call_effect(2) [OF pc] by (simp add: same_frame_def)
  have "exclusive_in (px_modules p') (zh_insert (msg_actionid m') m' (px_queue p'))" if clock: "ev_now E \<noteq> 0"
  proof (rule exclusive_placed)
    show "exclusive_in (px_modules p') (px_queue p')"
      using P(1) clock by (simp add: broker_ok_def exclusive_def)
    show "(\<exists>m. zh_lookup k (px_queue p') = Some m \<and> works_on via m) \<or>
      nobody_works via (px_queue p') \<and> (\<exists>mo. zh_lookup via (px_modules p') = Some mo \<and> mo_state mo \<noteq> IDLE)"
      if "works_on via m'" for via k
      using P(3) [OF clock] that new(2) by (auto simp: newly_on_def works_on_def q)
    show "zh_lookup j (zh_insert (msg_actionid m') m' (px_queue p')) =
      (if j = msg_actionid m' \<and> zh_lookup (msg_actionid m') (px_queue p') = None then Some m'
       else zh_lookup j (px_queue p'))" for j
      by (auto simp: zh_lookup_insert)
  qed
  then show ?thesis
    using P(1,2) wf_queue_insert [of "px_next p'" "px_queue p'" m']
    by (auto simp: broker_ok_def router_inv_def exclusive_def)
qed

section \<open>The iterations\<close>

interpretation waiting: iteration px_queue "place_call_item E" "broker_ok E" for E
  by unfold_locales (auto simp: place_call_item_def res_simps intro: place_queued_ok)

lemma place_all_ok: "broker_ok E p \<Longrightarrow> place_all E p = Inr p' \<Longrightarrow> broker_ok E p'"
  by (auto simp: place_all_def res_simps intro: waiting.foreach_keeps)

lemma give_up_module_ok:
  assumes "broker_ok F p" and "give_up_module E via p = Inr p'"
  shows "broker_ok F p'"
proof (cases "zh_lookup via (px_modules p)")
  case None
  with assms show ?thesis by (simp add: give_up_module_def)
next
  case (Some mo)
  show ?thesis
  proof (cases "cf_debug (ev_conf E)")
    case True
    with assms Some show ?thesis by (simp add: give_up_module_def)
  next
    case False
    let ?p = "emit (To_Procman [''restart'', mo_spid mo]) p"
    obtain p1 where "print_ifaces (forget_identity E (mo_identity mo) ?p) = Inr p1"
      and "p' = p1\<lparr>px_modules := zh_delete (snd (mo_identity mo)) (px_modules p1)\<rparr>"
      using assms(2) Some False by (auto simp: give_up_module_def res_simps)
    with forget_module_ok [of F ?p via mo E p1] Some assms(1) show ?thesis by simp
  qed
qed

lemma process_queue_item_cases:
  assumes "process_queue_item E k m p = Inr (rc, p')"
  obtains late_proc p1 where "late_proc \<longrightarrow> msg_routed m \<noteq> None"
    "(if late_proc then give_up_module E (the (msg_routed m)) p else Inr p) = Inr p1"
    "p' = p1 \<or> (\<exists>ob p2. send_message (Some ob) (msg_identity m) p1 = Inr p2 \<and> p' = drop_call k p2)"
proof -
  obtain li lo lp where l: "expired_in E m = Inr li" "expired_out E m = Inr lo" "expired_process E m = Inr lp"
    using assms by (auto simp: process_queue_item_def res_simps)
  obtain p1 msg where p1: "(if lp then give_up_module E (the (msg_routed m)) p else Inr p) = Inr p1"
    and rest: "(case msg of None \<Rightarrow> Inr (0, p1)
      | Some ob \<Rightarrow> rbind (send_message (Some ob) (msg_identity m) p1) (\<lambda>p2. Inr (0, drop_call k p2))) = Inr (rc, p')"
    using assms unfolding process_queue_item_def l rbind.simps Let_def rbind_Inr_iff by blast
  have "lp \<longrightarrow> msg_routed m \<noteq> None"
    using l(3) by (auto simp: expired_process_def res_simps split: if_splits)
  moreover have "p' = p1 \<or> (\<exists>ob p2. send_message (Some ob) (msg_identity m) p1 = Inr p2 \<and> p' = drop_call k p2)"
    using rest by (cases msg) (auto simp: res_simps)
  ultimately show ?thesis using p1 that by blast
qed

lemma process_queue_item_ok:
  assumes "broker_ok F p" and "process_queue_item E k m p = Inr (rc, p')"
  shows "broker_ok F p'"
  using assms(2)
proof (cases rule: process_queue_item_cases)
  case (1 late_proc p1)
  have "broker_ok F p1"
    using 1(2) assms(1) by (cases late_proc) (auto intro: give_up_module_ok)
  with 1(3) show ?thesis
    using broker_ok_sent drop_call_ok by blast
qed

interpretation timeouts: iteration px_queue "process_queue_item E" "broker_ok E" for E
  by unfold_locales (rule process_queue_item_ok)

lemma process_queue_ok: "broker_ok E p \<Longrightarrow> process_queue E p = Inr p' \<Longrightarrow> broker_ok E p'"
  by (auto simp: process_queue_def res_simps split: if_splits intro: timeouts.foreach_keeps)

lemma wf_fabs_modify:
  "wf_fabs n fabs \<Longrightarrow> zh_lookup k fabs = Some fab \<Longrightarrow> wf_fabs n (zh_modify k (fab\<lparr>fb_alive := b\<rparr>) fabs)"
  unfolding wf_fabs_def by (auto simp: zh_lookup_modify zh_wf_modify split: if_splits)

lemma set_alive_ok:
  "broker_ok E p \<Longrightarrow> zh_lookup k (px_fabs p) = Some fab \<Longrightarrow>
   broker_ok E (p\<lparr>px_fabs := zh_modify k (fab\<lparr>fb_alive := b\<rparr>) (px_fabs p)\<rparr>)"
  by (auto simp: broker_ok_def router_inv_def exclusive_def wf_fabs_modify)

lemma get_ifacelist_item_ok:
  assumes ok: "broker_ok E p" and k: "zh_lookup k (px_fabs p) = Some fab"
    and item: "get_ifacelist_item E k fab p = Inr (rc, p')"
  shows "broker_ok E p'"
proof (cases "fb_alive fab")
  case True
  let ?p = "p\<lparr>px_uuids := Suc (px_uuids p)\<rparr>"
  obtain msg p2 where s: "send_message msg (snd (fb_identity fab)) ?p = Inr p2"
    and p': "p' = p2\<lparr>px_fabs := zh_modify k (fab\<lparr>fb_alive := False\<rparr>) (px_fabs p2)\<rparr>"
    using item True by (auto simp: get_ifacelist_item_def getActionid_def res_simps)
  have "broker_ok E p2" "px_fabs p2 = px_fabs p"
    using ok broker_ok_sent [OF s] send_message_fields(1) [OF s] by auto
  with k p' show ?thesis using set_alive_ok [of E p2 k fab False] by simp
next
  case False
  let ?p = "emit (Disconnect k) (p\<lparr>px_uuids := Suc (px_uuids p)\<rparr>)"
  obtain p2 where "print_ifaces (forget_identity E (fb_identity fab) ?p) = Inr p2"
    and "p' = p2\<lparr>px_fabs := zh_delete k (px_fabs p2)\<rparr>"
    using item False by (auto simp: get_ifacelist_item_def getActionid_def res_simps)
  with forget_fabric_ok [of E ?p E "fb_identity fab" p2 k] ok show ?thesis by simp
qed

interpretation polling: iteration px_fabs "get_ifacelist_item E" "broker_ok E" for E
  by unfold_locales (rule get_ifacelist_item_ok)

lemma get_ifacelist_event_ok: "broker_ok E p \<Longrightarrow> get_ifacelist_event E p = Inr p' \<Longrightarrow> broker_ok E p'"
  by (auto simp: get_ifacelist_event_def res_simps split: if_splits intro: polling.foreach_keeps)

end
