(* ===== verification/Broker.thy ===== *)
theory Broker
  imports Queue_Inv
begin

text \<open>
  The broker as a whole: the main loop of \<^verbatim>\<open>src/modbusd.c\<close> dispatches timers and readable
  sockets to the handlers. Every handler keeps the invariant of \<^verbatim>\<open>Router_Inv\<close>, and so do all
  states that sequences of events reach.
\<close>

section \<open>The main loop\<close>

datatype event =
    Queue_Timer
  | Poll_Timer
  | Beacon_In "string option" "string option"
  | Global_In "string list" "string option"
  | Local_In "string list" "string option"
  | Procman_In "string option" "string option"

text \<open>The functions of the libraries and of the network that the handlers call.\<close>

record world =
  wo_strhex :: "string \<Rightarrow> string"
  wo_unpack :: "string \<Rightarrow> mobj option"
  wo_connect :: "string \<Rightarrow> bool"

definition handle :: "world \<Rightarrow> env \<Rightarrow> event \<Rightarrow> proxy \<Rightarrow> proxy res" where
  "handle W E ev p =
     (case ev of
        Queue_Timer \<Rightarrow> process_queue E p
      | Poll_Timer \<Rightarrow> get_ifacelist_event E p
      | Beacon_In ip msg \<Rightarrow> s_beacon_event (wo_connect W) ip msg p
      | Global_In msg answer \<Rightarrow> s_global_event (wo_strhex W) (wo_unpack W) E answer msg p
      | Local_In msg answer \<Rightarrow> s_local_event (wo_strhex W) (wo_unpack W) E answer msg p
      | Procman_In command pid \<Rightarrow> s_procman_event E command pid p)"

definition empty_iface :: iface where
  "empty_iface = \<lparr>if_mod = [], if_func = [], if_ver = 0, if_global = zl_new, if_local = zl_new\<rparr>"

definition proxy_new :: proxy where
  "proxy_new = \<lparr>px_fabs = [], px_modules = [], px_ifaces = zl_new, px_heap = (\<lambda>a. empty_iface),
     px_next = 0, px_queue = [], px_uuids = 0, px_out = []\<rparr>"

section \<open>What the broker relies on\<close>

text \<open>
  A peer that answers a queued call is the module it was handed to; a module that introduces
  itself does so under an identity that is not in use. ZeroMQ gives every connection an
  identity of its own, so the second holds of modules that introduce themselves once.
\<close>

definition honest_answer :: "message \<Rightarrow> proxy \<Rightarrow> bool" where
  "honest_answer m p \<longleftrightarrow>
     (msg_local m \<and> msg_command m \<in> {Some ''result'', Some ''exception''} \<longrightarrow>
        (case zh_lookup (msg_actionid m) (px_queue p) of
           Some stored \<Rightarrow> works_on (msg_identity m) stored
         | None \<Rightarrow> True))"

definition in_use :: "string \<Rightarrow> proxy \<Rightarrow> bool" where
  "in_use ident p \<longleftrightarrow> zh_lookup ident (px_modules p) \<noteq> None \<or>
     list_ex (\<lambda>(k, m). works_on ident m) (px_queue p)"

definition fresh_introduction :: "message \<Rightarrow> proxy \<Rightarrow> bool" where
  "fresh_introduction m p \<longleftrightarrow> (msg_command m = Some ''introduce'' \<longrightarrow> \<not> in_use (msg_identity m) p)"

definition received :: "world \<Rightarrow> env \<Rightarrow> event \<Rightarrow> message option" where
  "received W E ev =
     (case ev of
        Global_In msg _ \<Rightarrow> (case message_fromzmq (wo_strhex W) (wo_unpack W) (ev_now E) msg False of
            Inr m \<Rightarrow> m | Inl _ \<Rightarrow> None)
      | Local_In msg _ \<Rightarrow> (case message_fromzmq (wo_strhex W) (wo_unpack W) (ev_now E) msg True of
            Inr m \<Rightarrow> m | Inl _ \<Rightarrow> None)
      | _ \<Rightarrow> None)"

definition admissible :: "world \<Rightarrow> env \<Rightarrow> event \<Rightarrow> proxy \<Rightarrow> bool" where
  "admissible W E ev p \<longleftrightarrow> ev_now E \<noteq> 0 \<and>
     (case received W E ev of
        Some m \<Rightarrow> honest_answer m p \<and> fresh_introduction m p
      | None \<Rightarrow> True)"

text \<open>Between two events the hash tables may be reorganised, which changes their order.\<close>

inductive reach :: "world \<Rightarrow> proxy \<Rightarrow> bool" for W where
  start: "reach W proxy_new"
| event: "reach W p \<Longrightarrow> admissible W E ev p \<Longrightarrow> handle W E ev p = Inr p' \<Longrightarrow> reach W p'"
| rehash: "reach W p \<Longrightarrow> zh_same (px_fabs p) fabs \<Longrightarrow> zh_same (px_modules p) mods \<Longrightarrow>
    zh_same (px_queue p) queue \<Longrightarrow>
    reach W (p\<lparr>px_fabs := fabs, px_modules := mods, px_queue := queue\<rparr>)"

section \<open>Answers\<close>

lemma release_module_ok:
  assumes "broker_ok E p" and "release_module E ident p = Inr p'"
    and "ev_now E \<noteq> 0 \<Longrightarrow> nobody_works ident (px_queue p)"
  shows "broker_ok E p'"
proof (cases "zh_lookup ident (px_modules p)")
  case None
  with assms show ?thesis by (simp add: release_module_def)
next
  case (Some mo)
  show ?thesis
  proof (cases "mo_need_restart mo")
    case True
    with assms Some show ?thesis by (auto simp: release_module_def)
  next
    case False
    let ?p = "p\<lparr>px_modules := zh_modify ident (mo\<lparr>mo_state := IDLE\<rparr>) (px_modules p)\<rparr>"
    have "place_all E ?p = Inr p'"
      using assms(2) Some False by (simp add: release_module_def)
    moreover have "router_inv ?p"
      using assms(1) Some router_inv_modify_module [of p ident mo "mo\<lparr>mo_state := IDLE\<rparr>"]
      by (simp add: broker_ok_def)
    then have "broker_ok E ?p"
      using assms(1,3) by (auto simp: broker_ok_def exclusive_def exclusive_modify_idle)
    ultimately show ?thesis using place_all_ok by blast
  qed
qed

lemma drop_call_nobody:
  assumes "exclusive p" and "zh_lookup k (px_queue p) = Some m" and "works_on via m"
  shows "nobody_works via (px_queue (drop_call k p))"
  using assms unfolding exclusive_def exclusive_in_def nobody_works_def drop_call_def
  by (auto simp: zh_lookup_delete split: if_splits)

text \<open>The ending of an answer from a module: the call is dropped, the module released.\<close>

lemma answered_ok:
  assumes ok: "broker_ok E p" and q: "zh_lookup k (px_queue p) = Some m"
    and works: "ev_now E \<noteq> 0 \<Longrightarrow> works_on via m"
    and r: "release_module E via (drop_call (msg_actionid m) (p\<lparr>px_out := es\<rparr>)) = Inr p'"
  shows "broker_ok E p'"
proof -
  have aid: "msg_actionid m = k"
    using ok queued_call(1) [OF _ q] by (simp add: broker_ok_def)
  have "broker_ok E (drop_call k (p\<lparr>px_out := es\<rparr>))"
    using ok by (simp add: drop_call_ok)
  moreover have "nobody_works via (px_queue (drop_call k (p\<lparr>px_out := es\<rparr>)))" if "ev_now E \<noteq> 0"
    using drop_call_nobody [of "p\<lparr>px_out := es\<rparr>" k m via] ok q works [OF that] that
    by (simp add: broker_ok_def)
  ultimately show ?thesis
    using release_module_ok r aid by blast
qed

lemma answer_fabric_out:
  assumes "answer_fabric m stored p = Inr p1"
  shows "\<exists>es. p1 = p\<lparr>px_out := es\<rparr>"
proof (cases "zh_lookup (msg_identity stored) (px_fabs p)")
  case None
  with assms show ?thesis by (intro exI [of _ "px_out p"]) (simp add: answer_fabric_def)
next
  case (Some fab)
  with assms have "send_message (Some (message_tomsg m)) (snd (fb_identity fab)) p = Inr p1"
    by (simp add: answer_fabric_def)
  then show ?thesis using send_message_frame by blast
qed

lemma send_message_out:
  "send_message msg ident p = Inr p1 \<Longrightarrow> \<exists>es. p1 = p\<lparr>px_out := es\<rparr>"
  using send_message_frame by blast

lemma drop_out_ok: "broker_ok E p \<Longrightarrow> broker_ok E (drop_call k (p\<lparr>px_out := es\<rparr>))"
  by (simp add: drop_call_ok)

lemma process_exception_ok:
  assumes ok: "broker_ok E p" and honest: "ev_now E \<noteq> 0 \<Longrightarrow> honest_answer m p"
    and cmd: "msg_command m = Some ''exception''" and run: "process_exception E m p = Inr p'"
  shows "broker_ok E p'"
proof (cases "zh_lookup (msg_actionid m) (px_queue p)")
  case None
  with ok run show ?thesis by (auto simp: process_exception_def res_simps)
next
  case (Some stored)
  have works: "works_on (msg_identity m) stored" if "ev_now E \<noteq> 0" "msg_local m"
    using honest that cmd Some by (simp add: honest_answer_def)
  consider (ll) "msg_local m" "msg_local stored" | (fl) "\<not> msg_local m" "msg_local stored"
    | (lf) "msg_local m" "\<not> msg_local stored" | (ff) "\<not> msg_local m" "\<not> msg_local stored" by blast
  then show ?thesis
  proof cases
    case ll
    show ?thesis
    proof (cases "zh_lookup (msg_identity m) (px_modules p)")
      case None
      with ok run Some ll show ?thesis by (simp add: process_exception_def)
    next
      case (Some mo)
      then obtain p1 where "send_message (Some (message_tomsg m)) (msg_identity stored) p = Inr p1"
        and r: "release_module E (msg_identity m) (drop_call (msg_actionid stored) p1) = Inr p'"
        using run \<open>zh_lookup (msg_actionid m) (px_queue p) = Some stored\<close> ll
        by (auto simp: process_exception_def res_simps)
      then obtain es where "p1 = p\<lparr>px_out := es\<rparr>" using send_message_out by blast
      with r answered_ok [OF ok \<open>zh_lookup (msg_actionid m) (px_queue p) = Some stored\<close>] works ll
      show ?thesis by blast
    qed
  next
    case fl
    obtain code where code: "message_getExceptionCode m = Inr code"
      using run Some fl by (auto simp: process_exception_def res_simps)
    show ?thesis
    proof (cases "code = MODULES_BUSY")
      case True
      then obtain rc stored' p1 where "place_call E stored p = Inr (rc, stored', p1)"
        and "p' = p1\<lparr>px_queue := zh_modify (msg_actionid m) stored' (px_queue p1)\<rparr>"
        using run Some fl code by (auto simp: process_exception_def res_simps)
      with place_queued_ok [OF ok Some] show ?thesis by blast
    next
      case False
      then obtain p1 where "send_message (Some (message_tomsg m)) (msg_identity stored) p = Inr p1"
        and "p' = drop_call (msg_actionid stored) p1"
        using run Some fl code by (auto simp: process_exception_def res_simps)
      with ok send_message_out drop_out_ok show ?thesis by blast
    qed
  next
    case lf
    then obtain p1 where "answer_fabric m stored p = Inr p1"
      and r: "release_module E (msg_identity m) (drop_call (msg_actionid stored) p1) = Inr p'"
      using run Some by (auto simp: process_exception_def res_simps)
    then obtain es where "p1 = p\<lparr>px_out := es\<rparr>" using answer_fabric_out by blast
    with r answered_ok [OF ok Some] works lf show ?thesis by blast
  next
    case ff
    with ok run Some show ?thesis by (auto simp: process_exception_def drop_call_ok)
  qed
qed

section \<open>New interfaces\<close>

lemma wf_modules_mono: "wf_modules n mods \<Longrightarrow> n \<le> n' \<Longrightarrow> wf_modules n' mods"
  unfolding wf_modules_def by fastforce

lemma wf_fabs_mono: "wf_fabs n fabs \<Longrightarrow> n \<le> n' \<Longrightarrow> wf_fabs n' fabs"
  unfolding wf_fabs_def by fastforce

lemma wf_ifaces_mono: "wf_ifaces n items h \<Longrightarrow> n \<le> n' \<Longrightarrow> wf_ifaces n' items h"
  unfolding wf_ifaces_def by fastforce

lemma wf_queue_mono: "wf_queue n q \<Longrightarrow> n \<le> n' \<Longrightarrow> wf_queue n' q"
  unfolding wf_queue_def wf_call_def by fastforce

lemma broker_ok_next: "broker_ok E p \<Longrightarrow> broker_ok E (p\<lparr>px_next := Suc (px_next p)\<rparr>)"
  by (auto simp: broker_ok_def router_inv_def exclusive_def
      intro: wf_modules_mono wf_fabs_mono wf_ifaces_mono wf_queue_mono)

text \<open>The part of the state that the search for an interface, or its creation, leaves alone.\<close>

definition same_tables :: "proxy \<Rightarrow> proxy \<Rightarrow> bool" where
  "same_tables p p' \<longleftrightarrow> px_fabs p' = px_fabs p \<and> px_modules p' = px_modules p \<and> px_queue p' = px_queue p \<and>
     px_uuids p' = px_uuids p \<and> px_out p' = px_out p \<and> px_next p \<le> px_next p'"

lemma same_tables_trans: "same_tables p p1 \<Longrightarrow> same_tables p1 p2 \<Longrightarrow> same_tables p p2"
  by (auto simp: same_tables_def)

lemma same_tables_refl [simp]: "same_tables p p"
  by (simp add: same_tables_def)

lemma find_or_new_iface_effect:
  assumes "find_or_new_iface md func ver p = Inr (a, p1)"
    and "wf_ifaces (px_next p) (zl_items (px_ifaces p)) (px_heap p)"
  shows "same_tables p p1" "a \<in> set (zl_items (px_ifaces p1))" "distinct (zl_items (px_ifaces p1))"
    "\<forall>b \<in> set (zl_items (px_ifaces p1)). b < px_next p1 \<and> iface_wf (px_heap p1 b) \<and>
       (b \<noteq> a \<longrightarrow> \<not> iface_unused (px_heap p1 b))"
    "\<forall>b. b \<notin> set (zl_items (px_ifaces p1)) \<longrightarrow> zl_items (if_local (px_heap p1 b)) = []"
    "\<forall>b. set (zl_items (if_local (px_heap p1 b))) \<subseteq> set (zl_items (if_local (px_heap p b)))"
    "iface_serves md func ver (px_heap p1 a)"
proof -
  obtain r p0 where c: "check_interface (Some md) (Some func) ver p = Inr (r, p0)"
    and rest: "(case r of Some a \<Rightarrow> Inr (a, p0) | None \<Rightarrow>
        (case iface_new (Some md) (Some func) ver of None \<Rightarrow> Inl Null_Deref
         | Some i \<Rightarrow> Inr (px_next p0, p0\<lparr>px_heap := (px_heap p0)(px_next p0 := i),
             px_ifaces := zl_append (px_next p0) (px_ifaces p0), px_next := Suc (px_next p0)\<rparr>))) = Inr (a, p1)"
    using assms(1) by (auto simp: find_or_new_iface_def res_simps)
  obtain l where p0: "p0 = p\<lparr>px_ifaces := l\<rparr>" "zl_items l = zl_items (px_ifaces p)"
    and r: "r = find (\<lambda>a. iface_serves md func ver (px_heap p a)) (zl_items (px_ifaces p))"
    using check_interface_effect [OF c] by auto
  have "same_tables p p1 \<and> a \<in> set (zl_items (px_ifaces p1)) \<and> distinct (zl_items (px_ifaces p1)) \<and>
    (\<forall>b \<in> set (zl_items (px_ifaces p1)). b < px_next p1 \<and> iface_wf (px_heap p1 b) \<and>
       (b \<noteq> a \<longrightarrow> \<not> iface_unused (px_heap p1 b))) \<and>
    (\<forall>b. b \<notin> set (zl_items (px_ifaces p1)) \<longrightarrow> zl_items (if_local (px_heap p1 b)) = []) \<and>
    (\<forall>b. set (zl_items (if_local (px_heap p1 b))) \<subseteq> set (zl_items (if_local (px_heap p b)))) \<and>
    iface_serves md func ver (px_heap p1 a)"
  proof (cases r)
    case (Some b)
    with rest p0 have "p1 = p\<lparr>px_ifaces := l\<rparr>" "a = b" by auto
    with assms(2) p0 r Some find_SomeD [of _ "zl_items (px_ifaces p)" b] show ?thesis
      by (auto simp: same_tables_def wf_ifaces_def)
  next
    case None
    with rest obtain i where i: "iface_new (Some md) (Some func) ver = Some i"
      by (cases "iface_new (Some md) (Some func) ver") auto
    then have iv: "i = \<lparr>if_mod = md, if_func = func, if_ver = ver, if_global = zl_new, if_local = zl_new\<rparr>" "ver \<noteq> 0"
      by (auto simp: iface_new_def split: if_splits)
    have p1: "p1 = p\<lparr>px_heap := (px_heap p)(px_next p := i), px_ifaces := zl_append (px_next p) l,
        px_next := Suc (px_next p)\<rparr>" "a = px_next p"
      using rest None i p0 by auto
    have new: "px_next p \<notin> set (zl_items (px_ifaces p))"
      using assms(2) by (auto simp: wf_ifaces_def)
    have "iface_wf i" "zl_items (if_local i) = []" "iface_serves md func ver i"
      using iv by (simp_all add: iface_wf_def if_locals_def if_globals_def iface_serves_def)
    with assms(2) new p0 show ?thesis
      unfolding p1 by (auto simp: same_tables_def wf_ifaces_def less_Suc_eq)
  qed
  then show "same_tables p p1" "a \<in> set (zl_items (px_ifaces p1))" "distinct (zl_items (px_ifaces p1))"
    "\<forall>b \<in> set (zl_items (px_ifaces p1)). b < px_next p1 \<and> iface_wf (px_heap p1 b) \<and>
       (b \<noteq> a \<longrightarrow> \<not> iface_unused (px_heap p1 b))"
    "\<forall>b. b \<notin> set (zl_items (px_ifaces p1)) \<longrightarrow> zl_items (if_local (px_heap p1 b)) = []"
    "\<forall>b. set (zl_items (if_local (px_heap p1 b))) \<subseteq> set (zl_items (if_local (px_heap p b)))"
    "iface_serves md func ver (px_heap p1 a)"
    by blast+
qed

text \<open>The interface that was found or created gets the new provider.\<close>

lemma provider_added:
  assumes found: "find_or_new_iface md func ver p = Inr (a, p1)"
    and inv: "wf_ifaces (px_next p) (zl_items (px_ifaces p)) (px_heap p)"
    and i: "iface_wf (px_heap p1 a) \<Longrightarrow> iface_wf i" "\<not> iface_unused i"
    and run: "print_iface a (p1\<lparr>px_heap := (px_heap p1)(a := i)\<rparr>) = Inr p2"
  shows "same_tables p p2" "wf_ifaces (px_next p2) (zl_items (px_ifaces p2)) (px_heap p2)"
    "zl_items (if_local (px_heap p2 b)) =
      (if b = a then zl_items (if_local i) else zl_items (if_local (px_heap p1 b)))"
proof -
  note F = find_or_new_iface_effect [OF found inv]
  note P = print_iface_effect(1) [OF run]
  show "same_tables p p2"
    using F(1) P by (simp add: same_tables_def)
  have "iface_unused (iface_at_end i) = iface_unused i" "iface_wf (iface_at_end i) = iface_wf i"
    by (simp_all add: iface_unused_def zl_size_def)
  with F(2-5) i show "wf_ifaces (px_next p2) (zl_items (px_ifaces p2)) (px_heap p2)"
    unfolding P wf_ifaces_def by auto
  show "zl_items (if_local (px_heap p2 b)) =
      (if b = a then zl_items (if_local i) else zl_items (if_local (px_heap p1 b)))"
    by (simp add: P)
qed

lemma append_local_used: "\<not> iface_unused (snd (iface_append_local i q))"
  using iface_append_local_items(1) [of i q]
  by (auto simp: iface_unused_def zl_size_def if_locals_def split: if_splits)

lemma append_global_used: "\<not> iface_unused (snd (iface_append_global i g))"
  using iface_append_global_items(1) [of i g]
  by (auto simp: iface_unused_def zl_size_def if_globals_def split: if_splits)

section \<open>Introduction\<close>

text \<open>The state while the functions of a new module are entered.\<close>

definition registering :: "env \<Rightarrow> cptr \<Rightarrow> proxy \<Rightarrow> proxy \<Rightarrow> bool" where
  "registering E q p0 p \<longleftrightarrow> same_tables p0 p \<and>
     wf_ifaces (px_next p) (zl_items (px_ifaces p)) (px_heap p) \<and> wf_providers {q} (px_modules p) (px_heap p)"

lemma introduce_function_ok:
  assumes "registering E (mo_identity mo) p0 p" and "introduce_function mo provides func p = Inr p'"
  shows "registering E (mo_identity mo) p0 p'"
proof -
  let ?q = "mo_identity mo"
  have inv: "wf_ifaces (px_next p) (zl_items (px_ifaces p)) (px_heap p)"
    and prov: "wf_providers {?q} (px_modules p) (px_heap p)" and same: "same_tables p0 p"
    using assms(1) by (simp_all add: registering_def)
  obtain ver a p1 where found: "find_or_new_iface (mo_name mo) func ver p = Inr (a, p1)"
    and run: "print_iface a (p1\<lparr>px_heap := (px_heap p1)(a := snd (iface_append_local (px_heap p1 a) ?q))\<rparr>) = Inr p'"
    using assms(2) by (auto simp: introduce_function_def res_simps)
  note A = provider_added [OF found inv iface_wf_append(1) append_local_used run]
  note F = find_or_new_iface_effect [OF found inv]
  have "set (zl_items (if_local (px_heap p' b))) \<subseteq> insert ?q (set (zl_items (if_local (px_heap p b))))" for b
    using F(6) iface_append_local_items(1) [of "px_heap p1 a" ?q] by (auto simp: A(3) split: if_splits)
  with prov have "wf_providers {?q} (px_modules p) (px_heap p')"
    unfolding wf_providers_def by blast
  with A(1,2) same show ?thesis
    unfolding registering_def by (auto simp: same_tables_def)
qed

lemma introduce_functions_ok:
  assumes "rfold (introduce_function mo provides) fs p = Inr p'" and "registering E (mo_identity mo) p0 p"
  shows "registering E (mo_identity mo) p0 p'"
proof -
  have "\<And>f s s'. f \<in> set fs \<Longrightarrow> registering E (mo_identity mo) p0 s \<Longrightarrow>
      introduce_function mo provides f s = Inr s' \<Longrightarrow> registering E (mo_identity mo) p0 s'"
    by (rule introduce_function_ok)
  from rfold_invariant [where f = "introduce_function mo provides" and I = "registering E (mo_identity mo) p0",
      OF this assms(2,1)]
  show ?thesis .
qed

lemma register_module_ok:
  assumes ok: "broker_ok E p0" and reg: "registering E (mo_identity mo) p0 p"
    and new: "zh_lookup (snd (mo_identity mo)) (px_modules p0) = None"
    and addr: "fst (mo_identity mo) < px_next p0"
      "\<And>k mo'. zh_lookup k (px_modules p0) = Some mo' \<Longrightarrow> fst (mo_identity mo') \<noteq> fst (mo_identity mo)"
    and idle: "ev_now E \<noteq> 0 \<Longrightarrow> nobody_works (snd (mo_identity mo)) (px_queue p0)"
    and run: "register_module mo m p = Inr p'"
  shows "broker_ok E p'"
proof -
  let ?k = "snd (mo_identity mo)" and ?mo = "mo\<lparr>mo_state := IDLE\<rparr>"
  have same: "same_tables p0 p" and wfi: "wf_ifaces (px_next p) (zl_items (px_ifaces p)) (px_heap p)"
    and prov: "wf_providers {mo_identity mo} (px_modules p) (px_heap p)"
    using reg by (simp_all add: registering_def)
  have mods: "px_modules p = px_modules p0" "px_queue p = px_queue p0" "px_fabs p = px_fabs p0"
    "px_next p0 \<le> px_next p" using same by (simp_all add: same_tables_def)
  have out: "\<exists>es. p' = p\<lparr>px_modules := zh_modify ?k ?mo (zh_insert ?k mo (px_modules p)), px_out := es\<rparr>"
  proof -
    let ?p = "(emit (To_Procman [''register'', mo_spid mo, mo_name mo]) p)
      \<lparr>px_modules := zh_insert ?k mo (px_modules p)\<rparr>"
    obtain p3 where sent: "send_message (message_response (Some ''ok'') (Some (msg_actionid m))) (msg_identity m) ?p = Inr p3"
      and p': "p' = p3\<lparr>px_modules := zh_modify ?k ?mo (px_modules p3)\<rparr>"
      using run new by (auto simp: register_module_def Let_def res_simps mods)
    from send_message_frame [OF sent] obtain es where "p3 = ?p\<lparr>px_out := es\<rparr>" by blast
    with p' show ?thesis by (intro exI [of _ es]) (simp add: emit_def)
  qed
  let ?mods = "zh_modify ?k ?mo (zh_insert ?k mo (px_modules p0))"
  have look: "zh_lookup k ?mods = (if k = ?k then Some ?mo else zh_lookup k (px_modules p0))" for k
    using new by (simp add: zh_lookup_modify zh_lookup_insert)
  have wfm: "wf_modules (px_next p0) (px_modules p0)" and q: "wf_queue (px_next p0) (px_queue p0)"
    and fabs: "wf_fabs (px_next p0) (px_fabs p0)"
    using ok by (simp_all add: broker_ok_def router_inv_def)
  have wfs: "zh_wf ?mods"
    using wfm by (simp add: wf_modules_def zh_wf_insert zh_wf_modify)
  have "wf_modules (px_next p0) ?mods"
    using wfm wfs addr addr(2) [symmetric] unfolding wf_modules_def look by (auto split: if_splits)
  then have "wf_modules (px_next p) ?mods" using mods(4) wf_modules_mono by blast
  moreover have "wf_providers {} ?mods (px_heap p)"
    unfolding wf_providers_def look
  proof (intro allI ballI disjI2)
    fix a x assume "x \<in> set (zl_items (if_local (px_heap p a)))"
    then consider "x = mo_identity mo" | mo' where "zh_lookup (snd x) (px_modules p0) = Some mo'" "mo_identity mo' = x"
      using prov mods(1) unfolding wf_providers_def by auto
    then show "\<exists>mo'. (if snd x = ?k then Some ?mo else zh_lookup (snd x) (px_modules p0)) = Some mo' \<and>
      mo_identity mo' = x"
      using new by cases auto
  qed
  ultimately have inv: "router_inv (p\<lparr>px_modules := ?mods\<rparr>)"
    using wfi fabs q mods wf_fabs_mono wf_queue_mono by (auto simp: router_inv_def)
  have "exclusive_in ?mods (px_queue p)" if "ev_now E \<noteq> 0"
  proof -
    have ex: "exclusive_in (px_modules p0) (px_queue p0)"
      using ok that by (simp add: broker_ok_def exclusive_def)
    show ?thesis
      using ex idle [OF that] unfolding exclusive_in_def nobody_works_def look mods(2)
      by (auto split: if_splits)
  qed
  with inv out show ?thesis
    by (auto simp: broker_ok_def exclusive_def mods(1))
qed

lemma nobody_works_iff: "wf_queue n q \<Longrightarrow> nobody_works via q \<longleftrightarrow> \<not> list_ex (\<lambda>(k, m). works_on via m) q"
  unfolding nobody_works_def wf_queue_def by (auto simp: list_ex_iff zh_lookup_in_set [symmetric])

text \<open>An introduction that is carried out: the state when the functions are entered, and the end.\<close>

lemma process_introduce_cases:
  assumes "process_introduce E answer m p = Inr p'"
  obtains (rejected) "p' = p \<or> (\<exists>s. p' = emit (To_Procman s) p)"
  | (empty) s where "p' = (emit (To_Procman s) p)\<lparr>px_next := Suc (px_next p)\<rparr>"
  | (accepted) s mo h p1 where "mo_identity mo = (px_next p, msg_identity m)"
      "rfold (introduce_function mo h) (zh_keys h) ((emit (To_Procman s) p)\<lparr>px_next := Suc (px_next p)\<rparr>) = Inr p1"
      "register_module mo m p1 = Inr p'"
proof -
  obtain nm where nm: "message_getName m = Inr nm"
    using assms by (auto simp: process_introduce_def res_simps)
  show ?thesis
  proof (cases nm)
    case None
    with assms nm rejected show ?thesis by (simp add: process_introduce_def)
  next
    case (Some name)
    obtain pid where pid: "message_getPid m = Inr pid"
      using assms nm Some by (auto simp: process_introduce_def res_simps)
    let ?e = "To_Procman [''check_pid'', show_int pid]"
    show ?thesis
    proof (cases "pid = 0")
      case True
      with assms nm Some pid rejected show ?thesis by (simp add: process_introduce_def)
    next
      case False
      obtain known where known: "pid_accepted E answer = Inr known"
        using assms nm Some pid False by (auto simp: process_introduce_def Let_def res_simps)
      show ?thesis
      proof (cases known)
        case False
        with assms nm Some pid \<open>pid \<noteq> 0\<close> known have "p' = emit ?e p"
          by (simp add: process_introduce_def Let_def)
        with rejected show ?thesis by blast
      next
        case True
        let ?mo = "\<lparr>mo_identity = (px_next p, msg_identity m), mo_name = name, mo_desc = None, mo_pid = 0,
          mo_spid = [], mo_provides = None, mo_state = GUEST, mo_need_restart = False\<rparr>"
        obtain spid desc provides where sp: "sprintf_buf 10 (show_int pid) = Inr spid"
            "message_getDesc m = Inr desc" "message_getProvides m = Inr provides"
          using assms nm Some pid \<open>pid \<noteq> 0\<close> known True
          by (auto simp: process_introduce_def Let_def module_new_def res_simps)
        let ?mo1 = "?mo\<lparr>mo_desc := desc, mo_pid := pid, mo_spid := spid, mo_provides := provides\<rparr>"
        let ?p2 = "(emit ?e p)\<lparr>px_next := Suc (px_next p)\<rparr>"
        note sofar = assms nm Some pid \<open>pid \<noteq> 0\<close> known True sp
        show ?thesis
        proof (cases "provides = None \<or> provides = Some []")
          case True
          with sofar have "p' = ?p2"
            by (elim disjE) (simp_all add: process_introduce_def Let_def module_new_def res_simps)
          with empty show ?thesis by blast
        next
          case False
          then obtain h where h: "provides = Some h" "h \<noteq> []" by auto
          with sofar have "rbind (rfold (introduce_function ?mo1 h) (zh_keys h) ?p2) (register_module ?mo1 m) = Inr p'"
            by (simp add: process_introduce_def Let_def module_new_def)
          then obtain p1 where
            "rfold (introduce_function ?mo1 h) (zh_keys h) ?p2 = Inr p1" "register_module ?mo1 m p1 = Inr p'"
            by (auto simp only: rbind_Inr_iff)
          with accepted [of ?mo1] show ?thesis by simp
        qed
      qed
    qed
  qed
qed

lemma process_introduce_ok:
  assumes ok: "broker_ok E p" and fresh: "fresh_introduction m p"
    and cmd: "msg_command m = Some ''introduce''" and run: "process_introduce E answer m p = Inr p'"
  shows "broker_ok E p'"
  using run
proof (cases rule: process_introduce_cases)
  case rejected
  with ok show ?thesis by auto
next
  case (empty s)
  with broker_ok_next [of E "emit (To_Procman s) p"] ok show ?thesis by simp
next
  case (accepted s mo h p1)
  let ?p = "(emit (To_Procman s) p)\<lparr>px_next := Suc (px_next p)\<rparr>"
  have okp: "broker_ok E ?p"
    using broker_ok_next [of E "emit (To_Procman s) p"] ok by simp
  have inv: "router_inv p" using ok by (simp add: broker_ok_def)
  have "registering E (mo_identity mo) ?p ?p"
    using okp by (auto simp: registering_def broker_ok_def router_inv_def wf_providers_def)
  with accepted(2) have reg: "registering E (mo_identity mo) ?p p1"
    by (rule introduce_functions_ok)
  have free: "zh_lookup (msg_identity m) (px_modules p) = None" "nobody_works (msg_identity m) (px_queue p)"
    using fresh cmd inv nobody_works_iff [of "px_next p" "px_queue p"]
    by (auto simp: fresh_introduction_def in_use_def router_inv_def)
  have "fst (mo_identity mo') \<noteq> px_next p" if "zh_lookup k (px_modules p) = Some mo'" for k mo'
    using that inv by (fastforce simp: router_inv_def wf_modules_def)
  then show ?thesis
    using register_module_ok [OF okp reg _ _ _ _ accepted(3)] accepted(1) free by simp
qed

end
