(* ===== verification/Message_Facts.thy ===== *)
theory Message_Facts
  imports Message
begin

text \<open>
  What the functions of \<^verbatim>\<open>src/message.c\<close> promise: which received messages are accepted, and what a
  peer reads out of the messages the broker builds.
\<close>

section \<open>Acceptance\<close>

definition accepted :: "(string \<Rightarrow> string) \<Rightarrow> u64 \<Rightarrow> bool \<Rightarrow> string \<Rightarrow> mobj \<Rightarrow> string \<Rightarrow> string \<Rightarrow> message" where
  "accepted strhex now local identity_frame ob c a =
     (message_new now)\<lparr>msg_local := local,
       msg_identity := (if local then strhex identity_frame else cstr identity_frame),
       msg_object := ob, msg_command := Some c, msg_actionid := a\<rparr>"

lemma message_fromzmq_two:
  assumes "unpack f2 = Some ob" and "is_map ob" and "f2 \<noteq> []"
  shows "message_fromzmq strhex unpack now [f1, f2] local =
    rbind (message_check_command ob) (\<lambda>command.
      case command of None \<Rightarrow> Inr None
      | Some c \<Rightarrow> rbind (message_check_actionid ob) (\<lambda>actionid.
          case actionid of None \<Rightarrow> Inr None
          | Some a \<Rightarrow> Inr (Some (accepted strhex now local f1 ob c a))))"
  using assms by (simp add: message_fromzmq_def accepted_def Let_def cong: option.case_cong)

lemma message_fromzmq_Some:
  assumes "message_fromzmq strhex unpack now msg local = Inr (Some m)"
  obtains f1 f2 ob c a where "msg = [f1, f2]" "f2 \<noteq> []" "unpack f2 = Some ob" "is_map ob"
    "message_check_command ob = Inr (Some c)" "message_check_actionid ob = Inr (Some a)"
    "m = accepted strhex now local f1 ob c a"
proof -
  obtain f1 f2 where msg: "msg = [f1, f2]"
    using assms by (cases msg rule: remdups_adj.cases) (auto simp: message_fromzmq_def split: list.splits)
  have "f2 \<noteq> []" using assms by (auto simp: msg message_fromzmq_def)
  moreover obtain ob where ob: "unpack f2 = Some ob" "is_map ob"
    using assms \<open>f2 \<noteq> []\<close> by (cases "unpack f2") (auto simp: msg message_fromzmq_def split: if_splits)
  moreover from assms obtain c a where "message_check_command ob = Inr (Some c)"
    "message_check_actionid ob = Inr (Some a)" "m = accepted strhex now local f1 ob c a"
    unfolding msg message_fromzmq_two [where strhex = strhex and now = now and unpack = unpack, OF ob \<open>f2 \<noteq> []\<close>]
    by (auto simp: res_simps split: option.splits)
  ultimately show ?thesis using that msg by blast
qed

lemma check_command_commands: "message_check_command ob = Inr (Some c) \<Longrightarrow> c \<in> set commands"
  by (auto simp: message_check_command_def res_simps split: option.splits if_splits)

lemma check_actionid_length: "message_check_actionid ob = Inr (Some a) \<Longrightarrow> 5 \<le> length a"
  by (auto simp: message_check_actionid_def res_simps split: option.splits if_splits)

lemma accepted_simps [simp]:
  "msg_routed (accepted strhex now local f ob c a) = None"
  "msg_proc_ts (accepted strhex now local f ob c a) = 0"
  "msg_out_ts (accepted strhex now local f ob c a) = 0"
  "msg_iface (accepted strhex now local f ob c a) = None"
  "msg_globals (accepted strhex now local f ob c a) = None"
  "msg_in_ts (accepted strhex now local f ob c a) = now"
  "msg_local (accepted strhex now local f ob c a) = local"
  "msg_object (accepted strhex now local f ob c a) = ob"
  "msg_command (accepted strhex now local f ob c a) = Some c"
  "msg_actionid (accepted strhex now local f ob c a) = a"
  "msg_identity (accepted strhex now local f ob c a) = (if local then strhex f else cstr f)"
  by (simp_all add: accepted_def message_new_def)

section \<open>Exceptions\<close>

lemma int_of_u64_of_int: "int_range i \<Longrightarrow> int_of_u64 (word_of_int i) = i"
proof -
  assume r: "int_range i"
  have "signed_take_bit 31 (take_bit 64 i) = i"
    using r by (simp add: signed_take_bit_take_bit signed_take_bit_int_eq_self int_range_def)
  then have "signed_take_bit 31 (i mod 18446744073709551616) = i"
    by (simp add: take_bit_eq_mod)
  then show ?thesis
    by (simp add: int_of_u64_def ucast_eq uint_word_of_int sint_sbintrunc' take_bit_eq_mod)
qed

lemma message_exception_read:
  assumes "message_exception (Some aid) txt code = Some ob" and "msg_object m = ob"
    and "is_cstr txt" and "int_range code"
  shows "message_getExceptionCode m = Inr code" "message_getExceptionString m = Inr (Some txt)"
proof -
  have ob: "msg_object m = MMap [(MRaw ''command'', MRaw ''exception''),
      (MRaw ''body'', MMap [(MRaw ''string'', MRaw txt), (MRaw ''exception'', mint code)]),
      (MRaw ''actionid'', MRaw aid)]"
    using assms(1,2) by (simp add: message_exception_def)
  have body: "message_body (msg_object m) =
      Inr (Some (MMap [(MRaw ''string'', MRaw txt), (MRaw ''exception'', mint code)]))"
    unfolding ob by (simp add: message_body_def m_find_map_def key_prefix_def memcmp_key_def)
  show "message_getExceptionString m = Inr (Some txt)"
    using assms(3) by (simp add: message_getExceptionString_def body_string_def body m_get_string_def key_equal_def)
  have "m_get_int (Some (MMap [(MRaw ''string'', MRaw txt), (MRaw ''exception'', mint code)])) ''exception'' =
      Inr (word_of_int code)"
    by (simp add: m_get_int_def key_equal_def mint_def)
  then show "message_getExceptionCode m = Inr code"
    by (simp add: message_getExceptionCode_def body_int_def body int_of_u64_of_int assms(4))
qed

lemma message_exception_accepted:
  assumes "message_exception (Some aid) txt code = Some ob" and "is_cstr aid" and "5 \<le> length aid"
  shows "message_check_command ob = Inr (Some ''exception'')" "message_check_actionid ob = Inr (Some aid)"
proof -
  have ob: "ob = MMap [(MRaw ''command'', MRaw ''exception''),
      (MRaw ''body'', MMap [(MRaw ''string'', MRaw txt), (MRaw ''exception'', mint code)]),
      (MRaw ''actionid'', MRaw aid)]"
    using assms(1) by (simp add: message_exception_def)
  show "message_check_command ob = Inr (Some ''exception'')"
    by (simp add: ob message_check_command_def m_get_string_def key_equal_def commands_def cstr_def)
  have "m_get_str (MMap [(MRaw ''string'', MRaw txt), (MRaw ''exception'', mint code)]) ''actionid'' = Inr None"
    by (simp add: key_equal_def mint_def)
  then show "message_check_actionid ob = Inr (Some aid)"
    using assms(2,3) by (simp add: ob message_check_actionid_def m_get_string_def key_equal_def)
qed

section \<open>Interface lists\<close>

definition offered :: "iheap \<Rightarrow> nat list \<Rightarrow> nat list" where
  "offered h items = filter (\<lambda>a. if_locals (h a) \<noteq> []) items"

lemma add_paths:
  "rfold (add_iface_path h) xs l = Inr l' \<Longrightarrow>
   zl_items l' = zl_items l @ map (\<lambda>a. iface_path (h a)) (offered h xs)"
  by (induction xs arbitrary: l)
    (auto simp: add_iface_path_def offered_def zl_size_def if_locals_def res_simps split: if_splits)

lemma pack_paths: "rfold (\<lambda>p ps. Inr (m_pack_raw (Some p) ps)) xs ps = Inr (ps @ map MRaw xs)"
  by (induction xs arbitrary: ps) (auto simp: m_pack_raw_def)

lemma unpack_paths:
  "zl_items (fold (\<lambda>x l. case unpack_item x of Some u \<Rightarrow> zl_append u l | None \<Rightarrow> l) (map MRaw xs) l) =
   zl_items l @ map (\<lambda>x. UStr (cstr x)) xs"
  by (induction xs arbitrary: l) (auto simp: unpack_item_def)

lemma read_paths: "rfold (\<lambda>u ss. rbind (uval_str u) (\<lambda>s. Inr (ss @ [s]))) (map (\<lambda>x. UStr (f x)) xs) ss = Inr (ss @ map f xs)"
  by (induction xs arbitrary: ss) (auto simp: uval_str_def)

lemma message_ifacelist_read:
  assumes "message_ifacelist_response ifaces h (Some aid) = Inr (Some ob, l)" and "msg_object m = ob"
    and "\<And>a. a \<in> set (zl_items ifaces) \<Longrightarrow> is_cstr (iface_path (h a))"
  shows "message_getIfaceList m = Inr (Some (map (\<lambda>a. iface_path (h a)) (offered h (zl_items ifaces))))"
proof -
  obtain l1 where r: "rfold (add_iface_path h) (zl_items ifaces) zl_new = Inr l1"
    using assms(1) by (auto simp: message_ifacelist_response_def zl_iterate_eq res_simps)
  let ?paths = "map (\<lambda>a. iface_path (h a)) (offered h (zl_items ifaces))"
  have items: "zl_items l1 = ?paths" using add_paths [OF r] by simp
  have ob: "msg_object m = MMap [(MRaw ''command'', MRaw ''result''),
      (MRaw ''body'', MMap [(MRaw ''result'', MMap [(MRaw ''IfaceList'', MArr (map MRaw ?paths))]),
         (MRaw ''seqno'', MPos 0)]),
      (MRaw ''actionid'', MRaw aid)]"
    using assms(1,2) by (simp add: message_ifacelist_response_def zl_iterate_eq r items pack_paths)
  have "map cstr ?paths = ?paths"
    using assms(3) by (auto simp: offered_def)
  then show ?thesis
    unfolding message_getIfaceList_def ob
    by (simp add: message_body_def m_find_map_def key_prefix_def memcmp_key_def m_unpack_array_def
        unpack_paths read_paths comp_def del: map_map) 
qed

text \<open>The line of an interface is read back by \<open>strtok\<close> and \<open>atoi\<close>.\<close>

definition good_name :: "string \<Rightarrow> bool" where
  "good_name s \<longleftrightarrow> s \<noteq> [] \<and> CHR '':'' \<notin> set s \<and> is_cstr s"

definition good_version :: "u64 \<Rightarrow> bool" where
  "good_version v \<longleftrightarrow> 0 < sint v \<and> sint v \<le> 2147483647"

lemma iface_path_parse:
  assumes "good_name (if_mod i)" and "good_name (if_func i)" and "good_version (if_ver i)"
  shows "strtok_all (CHR '':'') (iface_path i) = [if_mod i, if_func i, show_int (sint (if_ver i))]"
    "atoi (show_int (sint (if_ver i))) = Inr (sint (if_ver i))" "u64_of_int (sint (if_ver i)) = if_ver i"
    "is_cstr (iface_path i)"
proof -
  have f: "if_mod i \<noteq> []" "CHR '':'' \<notin> set (if_mod i)" "if_func i \<noteq> []" "CHR '':'' \<notin> set (if_func i)"
    using assms by (simp_all add: good_name_def)
  have "strtok_all (CHR '':'') (if_mod i @ CHR '':'' # (if_func i @ CHR '':'' # show_int (sint (if_ver i)))) =
      [if_mod i, if_func i, show_int (sint (if_ver i))]"
    using f by (simp add: strtok_all_field strtok_all_last)
  then show "strtok_all (CHR '':'') (iface_path i) = [if_mod i, if_func i, show_int (sint (if_ver i))]"
    by (simp add: iface_path_def)
  show "atoi (show_int (sint (if_ver i))) = Inr (sint (if_ver i))"
    using assms(3) by (intro atoi_show_int) (simp add: int_range_def good_version_def)
  show "u64_of_int (sint (if_ver i)) = if_ver i"
    by (simp add: u64_of_int_def)
  show "is_cstr (iface_path i)"
    using assms(1,2) show_int_cstr [of "sint (if_ver i)"] by (auto simp: iface_path_def good_name_def is_cstr_def)
qed

end
