(* ===== verification/Broker_Inv.thy ===== *)
theory Broker_Inv
  imports Broker Message_Facts
begin

text \<open>
  The remaining handlers keep the invariant, and so every reachable state has it: the tables
  are consistent, and no module is given a call while it works on another.
\<close>

section \<open>Interface lists\<close>

lemma learn_iface_ok:
  assumes ok: "broker_ok E p" and run: "learn_iface fab path p = Inr p'"
  shows "broker_ok E p'"
proof (cases "p' = p")
  case True
  with ok show ?thesis by simp
next
  case False
  have inv: "wf_ifaces (px_next p) (zl_items (px_ifaces p)) (px_heap p)"
    and prov: "wf_providers {} (px_modules p) (px_heap p)"
    using ok by (simp_all add: broker_ok_def router_inv_def)
  obtain md func ver a p1 where found: "find_or_new_iface md func ver p = Inr (a, p1)"
    and pr: "print_iface a (p1\<lparr>px_heap := (px_heap p1)(a :=
      snd (iface_append_global (px_heap p1 a) (snd (fb_identity fab))))\<rparr>) = Inr p'"
    using run False by (auto simp: learn_iface_def res_simps split: list.splits)
  note A = provider_added [OF found inv iface_wf_append(2) append_global_used pr]
  note F = find_or_new_iface_effect [OF found inv]
  have "set (zl_items (if_local (px_heap p' b))) \<subseteq> set (zl_items (if_local (px_heap p b)))" for b
    using F(6) by (auto simp: A(3) iface_append_global_frame split: if_splits)
  from wf_providers_shrink [OF prov this] show ?thesis
    using ok A(1,2) by (auto simp: broker_ok_def router_inv_def exclusive_def same_tables_def
        intro: wf_modules_mono wf_fabs_mono wf_queue_mono)
qed

lemma process_ifacelist_ok:
  assumes ok: "broker_ok E p" and run: "process_ifacelist m p = Inr p'"
  shows "broker_ok E p'"
proof -
  have fold_ok: "broker_ok E p'" if "rfold (learn_iface fab) paths p = Inr p'" for fab paths
  proof -
    have "\<And>x s s'. x \<in> set paths \<Longrightarrow> broker_ok E s \<Longrightarrow> learn_iface fab x s = Inr s' \<Longrightarrow> broker_ok E s'"
      by (rule learn_iface_ok)
    from rfold_invariant [where I = "broker_ok E" and f = "learn_iface fab", OF this ok that] show ?thesis .
  qed
  obtain ls where "message_getIfaceList m = Inr ls"
    using run by (auto simp: process_ifacelist_def res_simps)
  with run ok fold_ok show ?thesis
    by (auto simp: process_ifacelist_def split: option.splits)
qed

section \<open>Results\<close>

lemma process_result_ok:
  assumes ok: "broker_ok E p" and honest: "honest_answer m p"
    and cmd: "msg_command m = Some ''result''" and run: "process_result E m p = Inr p'"
  shows "broker_ok E p'"
proof (cases "zh_lookup (msg_actionid m) (px_queue p)")
  case None
  with run have "process_ifacelist m p = Inr p'" by (simp add: process_result_def)
  with ok show ?thesis by (rule process_ifacelist_ok)
next
  case (Some stored)
  have works: "works_on (msg_identity m) stored" if "msg_local m"
    using honest that cmd Some by (simp add: honest_answer_def)
  consider (ll) "msg_local m" "msg_local stored" | (fl) "\<not> msg_local m" "msg_local stored"
    | (lf) "msg_local m" "\<not> msg_local stored" | (ff) "\<not> msg_local m" "\<not> msg_local stored" by blast
  then show ?thesis
  proof cases
    case ll
    then obtain p1 where "send_message (Some (message_tomsg m)) (msg_identity stored) p = Inr p1"
      and r: "release_module E (msg_identity m) (drop_call (msg_actionid stored) p1) = Inr p'"
      using run Some by (auto simp: process_result_def res_simps)
    then obtain es where "p1 = p\<lparr>px_out := es\<rparr>" using send_message_out by blast
    with r answered_ok [OF ok Some] works ll show ?thesis by blast
  next
    case fl
    then obtain p1 where "send_message (Some (message_tomsg m)) (msg_identity stored) p = Inr p1"
      and "p' = drop_call (msg_actionid stored) p1"
      using run Some by (auto simp: process_result_def res_simps)
    with ok send_message_out drop_out_ok show ?thesis by blast
  next
    case lf
    then obtain p1 where "answer_fabric m stored p = Inr p1"
      and r: "release_module E (msg_identity m) (drop_call (msg_actionid stored) p1) = Inr p'"
      using run Some by (auto simp: process_result_def res_simps)
    then obtain es where "p1 = p\<lparr>px_out := es\<rparr>" using answer_fabric_out by blast
    with r answered_ok [OF ok Some] works lf show ?thesis by blast
  next
    case ff
    with ok run Some show ?thesis by (auto simp: process_result_def drop_call_ok)
  qed
qed

section \<open>Calls and requests\<close>

definition unplaced :: "message \<Rightarrow> bool" where
  "unplaced m \<longleftrightarrow> msg_routed m = None \<and> msg_proc_ts m = 0 \<and> msg_out_ts m = 0 \<and> msg_iface m = None"

lemma fromzmq_unplaced: "message_fromzmq strhex unpack now msg local = Inr (Some m) \<Longrightarrow> unplaced m"
  by (erule message_fromzmq_Some) (simp add: unplaced_def)

text \<open>A call is refused before it is placed or after, or it is queued.\<close>

definition call_of :: "message \<Rightarrow> u64 \<Rightarrow> string option \<Rightarrow> string option \<Rightarrow> message" where
  "call_of m0 ver md func = m0\<lparr>msg_ver := ver, msg_mod := md, msg_func := func\<rparr>"

lemma process_call_cases:
  assumes "process_call E m0 p = Inr p'"
  obtains (malformed) m where "refuse_call m ''Wrong CALL structure'' 21 p = Inr p'"
      "msg_identity m = msg_identity m0" "msg_actionid m = msg_actionid m0"
  | (refused) md func ver rc m1 p1 where "ver \<noteq> 0"
      "place_call E (call_of m0 ver (Some md) (Some func)) p = Inr (rc, m1, p1)"
      "refuse_call m1 ''No modules found'' MODULES_BUSY p1 = Inr p'"
      "rc = -1 \<or> \<not> msg_local m1 \<and> msg_routed m1 = None"
  | (queued) md func ver rc m1 p1 where "ver \<noteq> 0"
      "place_call E (call_of m0 ver (Some md) (Some func)) p = Inr (rc, m1, p1)"
      "rc \<noteq> -1" "msg_local m1 \<or> msg_routed m1 \<noteq> None"
      "p' = p1\<lparr>px_queue := zh_insert (msg_actionid m1) m1 (px_queue p1)\<rparr>"
proof -
  obtain ver md func where v: "message_getIfVersion m0 = Inr ver" "message_getModule m0 = Inr md"
      "message_getFunc m0 = Inr func"
    using assms by (auto simp: process_call_def res_simps)
  let ?m = "m0\<lparr>msg_ver := ver, msg_mod := md, msg_func := func\<rparr>"
  show ?thesis
  proof (cases "md = None \<or> func = None \<or> ver = 0")
    case True
    with assms v have "refuse_call ?m ''Wrong CALL structure'' 21 p = Inr p'"
      by (simp add: process_call_def Let_def)
    with malformed [of ?m] show ?thesis by simp
  next
    case False
    then obtain d f where df: "md = Some d" "func = Some f" "ver \<noteq> 0" by auto
    have "rbind (place_call E ?m p) (\<lambda>(rc, m1, p1).
         if rc \<noteq> -1 then
           if \<not> msg_local m1 \<and> msg_routed m1 = None
           then refuse_call m1 ''No modules found'' MODULES_BUSY p1
           else Inr (p1\<lparr>px_queue := zh_insert (msg_actionid m1) m1 (px_queue p1)\<rparr>)
         else refuse_call m1 ''No modules found'' MODULES_BUSY p1) = Inr p'"
      using assms False unfolding process_call_def v rbind.simps Let_def by (simp only: if_False)
    then obtain rc m1 p1 where pc: "place_call E ?m p = Inr (rc, m1, p1)"
      and rest: "(if rc \<noteq> -1 then
           if \<not> msg_local m1 \<and> msg_routed m1 = None
           then refuse_call m1 ''No modules found'' MODULES_BUSY p1
           else Inr (p1\<lparr>px_queue := zh_insert (msg_actionid m1) m1 (px_queue p1)\<rparr>)
         else refuse_call m1 ''No modules found'' MODULES_BUSY p1) = Inr p'"
      by (auto simp only: rbind_Inr_iff prod.case)
    have pc: "place_call E (call_of m0 ver (Some d) (Some f)) p = Inr (rc, m1, p1)"
      using pc df by (simp add: call_of_def)
    show ?thesis
      using rest refused [OF df(3) pc] queued [OF df(3) pc] by (auto split: if_splits)
  qed
qed

lemma refuse_call_out: "refuse_call m text code p = Inr p' \<Longrightarrow> \<exists>es. p' = p\<lparr>px_out := es\<rparr>"
  by (auto simp: refuse_call_def dest: send_message_out)

lemma wf_call_of: "unplaced m0 \<Longrightarrow> ver \<noteq> 0 \<Longrightarrow> wf_call n (call_of m0 ver (Some md) (Some func)) \<and>
   unplaced (call_of m0 ver (Some md) (Some func))"
  by (simp add: unplaced_def wf_call_def call_of_def)

lemma process_call_ok:
  assumes ok: "broker_ok E p" and new: "unplaced m0" and run: "process_call E m0 p = Inr p'"
  shows "broker_ok E p'"
  using run
proof (cases rule: process_call_cases)
  case (malformed m)
  with ok refuse_call_out show ?thesis by fastforce
next
  case (refused md func ver rc m1 p1)
  note c = wf_call_of [OF new refused(1), of "px_next p" md func]
  have "broker_ok E p1"
    using place_call_ok(1) [OF ok refused(2)] c by (simp add: unplaced_def)
  with refused(3) refuse_call_out show ?thesis by fastforce
next
  case (queued md func ver rc m1 p1)
  note c = wf_call_of [OF new queued(1), of "px_next p" md func]
  show ?thesis
    using insert_call_ok [OF ok _ _ _ queued(2)] c queued(5) by (simp add: unplaced_def)
qed

lemma process_request_ok:
  assumes ok: "broker_ok E p" and run: "process_request E m p = Inr p'"
  shows "broker_ok E p'"
proof -
  have "broker_ok E p'" if req: "process_req_ifacelist E m p = Inr p'"
  proof (cases "zh_lookup (msg_identity m) (px_fabs p)")
    case None
    with req have "p' = p\<lparr>px_uuids := Suc (px_uuids p)\<rparr>"
      by (simp add: process_req_ifacelist_def getActionid_def)
    with ok show ?thesis by simp
  next
    case (Some fab)
    let ?p = "p\<lparr>px_uuids := Suc (px_uuids p)\<rparr>"
    obtain msg l where r: "message_ifacelist_response (px_ifaces p) (px_heap p) (Some (msg_actionid m)) = Inr (msg, l)"
      and s: "send_message msg (snd (fb_identity fab)) (?p\<lparr>px_ifaces := l\<rparr>) = Inr p'"
      using req Some by (auto simp: process_req_ifacelist_def getActionid_def res_simps)
    have "zl_items l = zl_items (px_ifaces p)"
      using r by (auto simp: message_ifacelist_response_def zl_iterate_eq res_simps)
    then have "broker_ok E (?p\<lparr>px_ifaces := l\<rparr>)"
      using ok router_inv_same(3) [of ?p "?p\<lparr>px_ifaces := l\<rparr>" E] by (simp add: same_frame_def)
    with broker_ok_sent [OF s] show ?thesis by simp
  qed
  with run ok show ?thesis
    by (auto simp: process_request_def res_simps split: option.splits if_splits)
qed

section \<open>All commands and events\<close>

lemma process_command_cases:
  assumes "process_command E answer m p = Inr p'"
  obtains (request) "msg_command m = Some ''request''" "process_request E m p = Inr p'"
  | (result) "msg_command m = Some ''result''" "process_result E m p = Inr p'"
  | (call) "msg_command m = Some ''call''" "process_call E m p = Inr p'"
  | (exception) "msg_command m = Some ''exception''" "process_exception E m p = Inr p'"
  | (introduce) "msg_command m = Some ''introduce''" "process_introduce E answer m p = Inr p'"
  | (same) "p' = p"
  using assms
  by (auto simp: process_command_def process_message_def process_stop_def res_simps split: option.splits if_splits)

lemma process_command_ok:
  assumes ok: "broker_ok E p" and new: "unplaced m" and honest: "honest_answer m p"
    and fresh: "fresh_introduction m p" and run: "process_command E answer m p = Inr p'"
  shows "broker_ok E p'"
  using run
proof (cases rule: process_command_cases)
  case request with ok show ?thesis by (auto intro: process_request_ok)
next
  case result with ok honest show ?thesis by (auto intro: process_result_ok)
next
  case call with ok new show ?thesis by (auto intro: process_call_ok)
next
  case exception with ok honest show ?thesis by (auto intro: process_exception_ok)
next
  case introduce with ok fresh show ?thesis by (auto intro: process_introduce_ok)
next
  case same with ok show ?thesis by simp
qed

lemma honest_fabs [simp]: "honest_answer m (p\<lparr>px_fabs := fs\<rparr>) = honest_answer m p"
  "fresh_introduction m (p\<lparr>px_fabs := fs\<rparr>) = fresh_introduction m p"
  by (simp_all add: honest_answer_def fresh_introduction_def in_use_def cong: option.case_cong)

lemma s_beacon_event_ok:
  assumes ok: "broker_ok E p" and run: "s_beacon_event connect ip msg p = Inr p'"
  shows "broker_ok E p'"
proof (cases "p' = p")
  case True
  with ok show ?thesis by simp
next
  case False
  then obtain beacon fab where f: "fab_new (px_next p) beacon = Some fab"
    and p': "p' = p\<lparr>px_fabs := zh_insert (snd (fb_identity fab)) (fab\<lparr>fb_peer := True, fb_alive := True\<rparr>) (px_fabs p),
      px_next := Suc (px_next p)\<rparr>"
    using run by (auto simp: s_beacon_event_def Let_def split: option.splits if_splits)
  have "wf_fabs (Suc (px_next p)) (px_fabs p)"
    using ok wf_fabs_mono [of "px_next p"] by (simp add: broker_ok_def router_inv_def)
  then have "wf_fabs (Suc (px_next p)) (px_fabs p')"
    using fab_new_identity [OF f] unfolding p' wf_fabs_def
    by (auto simp: zh_lookup_insert zh_wf_insert split: if_splits)
  with broker_ok_next [OF ok] show ?thesis
    unfolding p' by (simp add: broker_ok_def router_inv_def exclusive_def)
qed

lemma procman_checkpid_ok:
  assumes ok: "broker_ok E p" and k: "zh_lookup k (px_modules p) = Some mo"
    and run: "procman_checkpid E' command pid k mo p = Inr (rc, p')"
  shows "broker_ok E p'"
proof (cases "mo_pid mo = pid")
  case False
  with ok run show ?thesis by (simp add: procman_checkpid_def)
next
  case pid: True
  have upd: "broker_ok E (p\<lparr>px_modules := zh_modify k mo' (px_modules p)\<rparr>)"
    if "mo' = mo\<lparr>mo_state := RESTARTING\<rparr> \<or> mo' = mo\<lparr>mo_need_restart := True\<rparr>" for mo'
  proof -
    have "mo_state mo \<noteq> GUEST"
      using ok k by (auto simp: broker_ok_def router_inv_def wf_modules_def)
    then have "router_inv (p\<lparr>px_modules := zh_modify k mo' (px_modules p)\<rparr>)"
      using ok k that router_inv_modify_module [of p k mo mo'] by (auto simp: broker_ok_def)
    moreover have "exclusive_in (zh_modify k mo' (px_modules p)) (px_queue p)" if "ev_now E \<noteq> 0"
    proof -
      have "exclusive_in (px_modules p) (px_queue p)" using ok that by (simp add: broker_ok_def exclusive_def)
      then show ?thesis
        using \<open>mo' = mo\<lparr>mo_state := RESTARTING\<rparr> \<or> mo' = mo\<lparr>mo_need_restart := True\<rparr>\<close> k
          exclusive_modify_busy [of _ _ mo' k] exclusive_modify_keep [of _ _ k mo mo'] by auto
    qed
    ultimately show ?thesis by (simp add: broker_ok_def exclusive_def)
  qed
  show ?thesis
  proof (cases "command = ''remove''")
    case True
    with run pid obtain p1 where "print_ifaces (forget_identity E' (mo_identity mo) p) = Inr p1"
      and "p' = p1\<lparr>px_modules := zh_delete (snd (mo_identity mo)) (px_modules p1)\<rparr>"
      by (auto simp: procman_checkpid_def res_simps)
    with forget_module_ok [OF ok k] show ?thesis by simp
  next
    case False
    with run pid have "p' = p \<or>
        p' = emit (To_Procman [''restart'', mo_spid mo]) (p\<lparr>px_modules := zh_modify k (mo\<lparr>mo_state := RESTARTING\<rparr>) (px_modules p)\<rparr>) \<or>
        p' = p\<lparr>px_modules := zh_modify k (mo\<lparr>mo_need_restart := True\<rparr>) (px_modules p)\<rparr>"
      by (auto simp: procman_checkpid_def split: if_splits)
    with ok upd show ?thesis by auto
  qed
qed

interpretation procman: iteration px_modules "procman_checkpid E' command pid" "broker_ok E" for E E' command pid
  by unfold_locales (rule procman_checkpid_ok)

lemma s_procman_event_ok: "broker_ok E p \<Longrightarrow> s_procman_event E' command c_pid p = Inr p' \<Longrightarrow> broker_ok E p'"
  by (auto simp: s_procman_event_def res_simps split: option.splits if_splits intro: procman.foreach_keeps)

lemma handle_ok:
  assumes ok: "broker_ok E p" and adm: "admissible W E ev p" and run: "handle W E ev p = Inr p'"
  shows "broker_ok E p'"
proof (cases ev)
  case Queue_Timer
  with ok run show ?thesis by (auto simp: handle_def intro: process_queue_ok)
next
  case Poll_Timer
  with ok run show ?thesis by (auto simp: handle_def intro: get_ifacelist_event_ok)
next
  case (Beacon_In ip msg)
  with ok run show ?thesis by (auto simp: handle_def intro: s_beacon_event_ok)
next
  case (Procman_In command pid)
  with ok run show ?thesis by (auto simp: handle_def intro: s_procman_event_ok)
next
  case (Local_In msg answer)
  obtain mo where mo: "message_fromzmq (wo_strhex W) (wo_unpack W) (ev_now E) msg True = Inr mo"
    using run Local_In by (auto simp: handle_def s_local_event_def res_simps)
  show ?thesis
  proof (cases mo)
    case None
    with ok run Local_In mo show ?thesis by (simp add: handle_def s_local_event_def)
  next
    case (Some m)
    have "process_command E answer m p = Inr p'"
      using run Local_In mo Some by (simp add: handle_def s_local_event_def)
    moreover have "honest_answer m p" "fresh_introduction m p"
      using adm Local_In mo Some by (auto simp: admissible_def received_def)
    ultimately show ?thesis
      using process_command_ok [OF ok] fromzmq_unplaced mo Some by blast
  qed
next
  case (Global_In msg answer)
  obtain mo where mo: "message_fromzmq (wo_strhex W) (wo_unpack W) (ev_now E) msg False = Inr mo"
    using run Global_In by (auto simp: handle_def s_global_event_def res_simps)
  show ?thesis
  proof (cases mo)
    case None
    with ok run Global_In mo show ?thesis by (simp add: handle_def s_global_event_def)
  next
    case (Some m)
    let ?p = "case zh_lookup (msg_identity m) (px_fabs p) of
        Some fab \<Rightarrow> p\<lparr>px_fabs := zh_modify (msg_identity m) (fab\<lparr>fb_alive := True\<rparr>) (px_fabs p)\<rparr>
      | None \<Rightarrow> p"
    have pc: "process_command E answer m ?p = Inr p'"
      using run Global_In mo Some by (simp add: handle_def s_global_event_def)
    have "broker_ok E ?p"
      using ok set_alive_ok [OF ok, of "msg_identity m"] by (auto split: option.splits)
    moreover have "honest_answer m ?p" "fresh_introduction m ?p"
      using adm Global_In mo Some by (auto simp: admissible_def received_def split: option.splits)
    ultimately show ?thesis
      using process_command_ok [OF _ _ _ _ pc] fromzmq_unplaced mo Some by blast
  qed
qed

section \<open>Reachable states\<close>

lemma rehash_lookup:
  assumes "router_inv p" and "zh_same (px_fabs p) fabs" and "zh_same (px_modules p) mods"
    and "zh_same (px_queue p) queue"
  shows "zh_lookup k fabs = zh_lookup k (px_fabs p)" "zh_lookup k mods = zh_lookup k (px_modules p)"
    "zh_lookup k queue = zh_lookup k (px_queue p)"
  using assms zh_same_lookup
  by (auto simp: router_inv_def wf_modules_def wf_fabs_def wf_queue_def)

lemma rehash_ok:
  assumes "router_inv p" and "zh_same (px_fabs p) fabs" and "zh_same (px_modules p) mods"
    and "zh_same (px_queue p) queue"
  shows "router_inv (p\<lparr>px_fabs := fabs, px_modules := mods, px_queue := queue\<rparr>)"
    "exclusive (p\<lparr>px_fabs := fabs, px_modules := mods, px_queue := queue\<rparr>) \<longleftrightarrow> exclusive p"
proof -
  note L = rehash_lookup [OF assms]
  have "zh_wf fabs" "zh_wf mods" "zh_wf queue"
    using assms by (auto simp: zh_same_def)
  with assms(1) show "router_inv (p\<lparr>px_fabs := fabs, px_modules := mods, px_queue := queue\<rparr>)"
    unfolding router_inv_def wf_modules_def wf_fabs_def wf_queue_def wf_providers_def by (simp add: L)
  show "exclusive (p\<lparr>px_fabs := fabs, px_modules := mods, px_queue := queue\<rparr>) \<longleftrightarrow> exclusive p"
    unfolding exclusive_def exclusive_in_def by (simp add: L)
qed

lemma start_ok: "router_inv proxy_new" "exclusive proxy_new"
  by (simp_all add: router_inv_def proxy_new_def wf_modules_def wf_fabs_def wf_ifaces_def wf_providers_def
      wf_queue_def exclusive_def exclusive_in_def empty_iface_def)

lemma reach_ok: "reach W p \<Longrightarrow> router_inv p \<and> exclusive p"
proof (induction rule: reach.induct)
  case start
  show ?case using start_ok by simp
next
  case (event p E ev p')
  then have "broker_ok E p" "ev_now E \<noteq> 0"
    by (auto simp: broker_ok_def admissible_def)
  with handle_ok [OF this(1) event(2,3)] show ?case by (simp add: broker_ok_def)
next
  case (rehash p fabs mods queue)
  with rehash_ok [OF _ rehash(2-4)] show ?case by simp
qed

end
