(* ===== verification/Exchange.thy ===== *)
theory Exchange
  imports Broker_Inv
begin

text \<open>
  Two brokers: one answers a request for its interface list, the other learns from the answer
  that the first one offers these interfaces. Lines are learnt one after the other, so a line
  must not undo what an earlier one has entered.
\<close>

text \<open>The fabric \<open>g\<close> is listed as a provider of an interface that serves such calls.\<close>

definition known_at :: "string \<Rightarrow> string \<Rightarrow> string \<Rightarrow> u64 \<Rightarrow> proxy \<Rightarrow> bool" where
  "known_at g md func ver p \<longleftrightarrow>
     (\<exists>b \<in> set (zl_items (px_ifaces p)). iface_serves md func ver (px_heap p b) \<and>
        g \<in> set (if_globals (px_heap p b)))"

lemma find_or_new_keeps:
  assumes "find_or_new_iface md func ver p = Inr (a, p1)"
    and "\<forall>b \<in> set (zl_items (px_ifaces p)). b < px_next p" and "b \<in> set (zl_items (px_ifaces p))"
  shows "b \<in> set (zl_items (px_ifaces p1)) \<and> px_heap p1 b = px_heap p b"
  using assms
  by (auto simp: find_or_new_iface_def res_simps dest!: check_interface_effect split: option.splits)

lemma iface_serves_global: "iface_serves md func ver (snd (iface_append_global i g)) = iface_serves md func ver i"
  by (simp add: iface_serves_def iface_append_global_frame)

lemma iface_serves_at_end [simp]: "iface_serves md func ver (iface_at_end i) = iface_serves md func ver i"
  by (simp add: iface_serves_def)

lemma learn_found:
  assumes inv: "wf_ifaces (px_next p) (zl_items (px_ifaces p)) (px_heap p)"
    and found: "find_or_new_iface md func ver p = Inr (a, p1)"
    and pr: "print_iface a (p1\<lparr>px_heap := (px_heap p1)(a := snd (iface_append_global (px_heap p1 a) g))\<rparr>) = Inr p'"
  shows "known_at g md func ver p'" "known_at g' md' func' ver' p \<Longrightarrow> known_at g' md' func' ver' p'"
    "wf_ifaces (px_next p') (zl_items (px_ifaces p')) (px_heap p')" "px_fabs p' = px_fabs p"
proof -
  note F = find_or_new_iface_effect [OF found inv]
  note P = print_iface_effect(1) [OF pr]
  show "wf_ifaces (px_next p') (zl_items (px_ifaces p')) (px_heap p')"
    by (rule provider_added(2) [OF found inv iface_wf_append(2) append_global_used pr])
  show "px_fabs p' = px_fabs p" using F(1) P by (simp add: same_tables_def)
  show "known_at g md func ver p'"
    using F(2,7) unfolding known_at_def P
    by (intro bexI [of _ a]) (auto simp: iface_serves_global iface_append_global_items)
  assume "known_at g' md' func' ver' p"
  then obtain b where b: "b \<in> set (zl_items (px_ifaces p))" "iface_serves md' func' ver' (px_heap p b)"
      "g' \<in> set (if_globals (px_heap p b))"
    by (auto simp: known_at_def)
  have "b \<in> set (zl_items (px_ifaces p1)) \<and> px_heap p1 b = px_heap p b"
    using find_or_new_keeps [OF found _ b(1)] inv by (simp add: wf_ifaces_def)
  with b show "known_at g' md' func' ver' p'"
    unfolding known_at_def P
    by (intro bexI [of _ b]) (auto simp: iface_serves_global iface_append_global_items)
qed

lemma learn_iface_path:
  assumes "good_name (if_mod i)" and "good_name (if_func i)" and "good_version (if_ver i)"
  shows "learn_iface fab (iface_path i) p =
    rbind (find_or_new_iface (if_mod i) (if_func i) (if_ver i) p) (\<lambda>(a, p1).
      print_iface a (p1\<lparr>px_heap := (px_heap p1)(a :=
        snd (iface_append_global (px_heap p1 a) (snd (fb_identity fab))))\<rparr>))"
  using iface_path_parse [OF assms] by (simp add: learn_iface_def)

text \<open>All lines of a list: every line is entered, and nothing is lost.\<close>

definition good_iface :: "iface \<Rightarrow> bool" where
  "good_iface i \<longleftrightarrow> good_name (if_mod i) \<and> good_name (if_func i) \<and> good_version (if_ver i)"

lemma learn_all:
  assumes "rfold (learn_iface fab) (map iface_path is) p = Inr p'" and "\<forall>i \<in> set is. good_iface i"
    and "wf_ifaces (px_next p) (zl_items (px_ifaces p)) (px_heap p)"
  shows "(\<forall>i \<in> set is. known_at (snd (fb_identity fab)) (if_mod i) (if_func i) (if_ver i) p') \<and>
    (\<forall>g md func ver. known_at g md func ver p \<longrightarrow> known_at g md func ver p')"
  using assms
proof (induction "is" arbitrary: p)
  case Nil
  then show ?case by simp
next
  case (Cons i rest)
  let ?g = "snd (fb_identity fab)"
  from Cons.prems(2) have good: "good_name (if_mod i)" "good_name (if_func i)" "good_version (if_ver i)"
    by (simp_all add: good_iface_def)
  obtain q where q: "learn_iface fab (iface_path i) p = Inr q"
    and rest: "rfold (learn_iface fab) (map iface_path rest) q = Inr p'"
    using Cons.prems(1) by (auto simp: res_simps)
  obtain a p1 where found: "find_or_new_iface (if_mod i) (if_func i) (if_ver i) p = Inr (a, p1)"
    and pr: "print_iface a (p1\<lparr>px_heap := (px_heap p1)(a := snd (iface_append_global (px_heap p1 a) ?g))\<rparr>) = Inr q"
    using q unfolding learn_iface_path [OF good] by (auto simp: res_simps)
  note L = learn_found [OF Cons.prems(3) found pr]
  have "\<forall>i \<in> set rest. good_iface i" using Cons.prems(2) by simp
  note IH = Cons.IH [OF rest this L(3)]
  from IH L(1) have "known_at ?g (if_mod i) (if_func i) (if_ver i) p'" by blast
  moreover have "known_at g md func ver p'" if "known_at g md func ver p" for g md func ver
    using IH L(2) [OF that] by blast
  ultimately show ?case using IH by simp
qed

text \<open>The list a broker sends, received by a broker that knows the sender.\<close>

lemma exchange:
  assumes sent: "message_ifacelist_response (px_ifaces pA) (px_heap pA) (Some aid) = Inr (Some ob, l)"
    and good: "\<And>a. a \<in> set (zl_items (px_ifaces pA)) \<Longrightarrow> good_iface (px_heap pA a)"
    and m: "msg_object m = ob" "zh_lookup (msg_identity m) (px_fabs pB) = Some fab"
    and inv: "router_inv pB" and run: "process_ifacelist m pB = Inr pB'"
    and a: "a \<in> set (zl_items (px_ifaces pA))" "if_locals (px_heap pA a) \<noteq> []"
  shows "known_at (msg_identity m) (if_mod (px_heap pA a)) (if_func (px_heap pA a)) (if_ver (px_heap pA a)) pB'"
proof -
  have id: "snd (fb_identity fab) = msg_identity m"
    using inv m(2) by (simp add: router_inv_def wf_fabs_def)
  have "message_getIfaceList m = Inr (Some (map (\<lambda>a. iface_path (px_heap pA a)) (offered (px_heap pA) (zl_items (px_ifaces pA)))))"
    using message_ifacelist_read [OF sent m(1)] good iface_path_parse(4) by (auto simp: good_iface_def)
  then have "rfold (learn_iface fab) (map iface_path (map (px_heap pA) (offered (px_heap pA) (zl_items (px_ifaces pA))))) pB = Inr pB'"
    using run m(2) by (simp add: process_ifacelist_def comp_def)
  from learn_all [OF this] good inv
  have "\<forall>i \<in> set (map (px_heap pA) (offered (px_heap pA) (zl_items (px_ifaces pA)))).
      known_at (snd (fb_identity fab)) (if_mod i) (if_func i) (if_ver i) pB'"
    by (auto simp: router_inv_def offered_def)
  with a id show ?thesis by (auto simp: offered_def)
qed

end
