(* ===== verification/Placing.thy ===== *)
theory Placing
  imports Router_Facts
begin

text \<open>
  The first placing of a call, computed: what the interface's two lists of providers say
  decides where the call goes.
\<close>

text \<open>The call is new and the lookup finds the interface \<open>a\<close>.\<close>

definition finds :: "message \<Rightarrow> proxy \<Rightarrow> nat \<Rightarrow> bool" where
  "finds m p a \<longleftrightarrow> msg_routed m = None \<and> msg_iface m = None \<and>
     (\<exists>md f. msg_mod m = Some md \<and> msg_func m = Some f \<and>
        find (\<lambda>a. iface_serves md f (msg_ver m) (px_heap p a)) (zl_items (px_ifaces p)) = Some a)"

text \<open>The state after the lookup: cursors have moved, and a local call has its list of fabrics.\<close>

definition after_lookup :: "message \<Rightarrow> proxy \<Rightarrow> nat \<Rightarrow> nat zlist \<Rightarrow> proxy" where
  "after_lookup m p a l =
     (if msg_local m \<and> if_globals (px_heap p a) \<noteq> []
      then p\<lparr>px_ifaces := l, px_heap := (px_heap p)(a := (px_heap p a)\<lparr>if_global := zl_end (if_global (px_heap p a))\<rparr>)\<rparr>
      else p\<lparr>px_ifaces := l\<rparr>)"

definition with_iface :: "message \<Rightarrow> proxy \<Rightarrow> nat \<Rightarrow> message" where
  "with_iface m p a =
     (if msg_local m \<and> if_globals (px_heap p a) \<noteq> []
      then m\<lparr>msg_iface := Some a, msg_globals := Some \<lparr>zl_items = if_globals (px_heap p a), zl_cur = Some 0\<rparr>\<rparr>
      else m\<lparr>msg_iface := Some a\<rparr>)"

lemma assign_iface_finds:
  assumes "finds m p a"
  shows "\<exists>l. zl_items l = zl_items (px_ifaces p) \<and>
    assign_iface m p = Inr (True, with_iface m p a, after_lookup m p a l)"
proof -
  obtain md f where mf: "msg_mod m = Some md" "msg_func m = Some f"
    and find: "find (\<lambda>a. iface_serves md f (msg_ver m) (px_heap p a)) (zl_items (px_ifaces p)) = Some a"
    using assms by (auto simp: finds_def)
  obtain l where l: "zl_items l = zl_items (px_ifaces p)"
    and c: "check_interface (Some md) (Some f) (msg_ver m) p = Inr (Some a, p\<lparr>px_ifaces := l\<rparr>)"
    using check_interface_eq [of p md f "msg_ver m"] find by auto
  have copy: "copy_globals (m\<lparr>msg_iface := Some a\<rparr>) a (p\<lparr>px_ifaces := l\<rparr>) = Inr (with_iface m p a, after_lookup m p a l)"
    if "msg_local m"
  proof (cases "zl_items (if_global (px_heap p a))")
    case Nil
    with that show ?thesis
      by (simp add: copy_globals_def zl_size_def with_iface_def after_lookup_def if_globals_def)
  next
    case (Cons g gs)
    have "snd (zl_first (fold zl_append (g # gs) zl_new)) = \<lparr>zl_items = g # gs, zl_cur = Some 0\<rparr>"
      using items_append_all [of "g # gs" zl_new] by (simp add: zl_first_def)
    with that Cons show ?thesis
      by (simp add: copy_globals_def zl_size_def zl_iterate_eq append_all with_iface_def after_lookup_def if_globals_def)
  qed
  have "assign_iface m p = Inr (True, with_iface m p a, after_lookup m p a l)"
    using assms mf c copy
    by (cases "msg_local m")
      (simp_all add: finds_def assign_iface_def with_iface_def after_lookup_def)
  with l show ?thesis by blast
qed

lemma after_lookup_simps [simp]:
  "px_modules (after_lookup m p a l) = px_modules p" "px_out (after_lookup m p a l) = px_out p"
  "px_fabs (after_lookup m p a l) = px_fabs p" "px_queue (after_lookup m p a l) = px_queue p"
  "if_local (px_heap (after_lookup m p a l) a) = if_local (px_heap p a)"
  by (simp_all add: after_lookup_def)

lemma with_iface_simps [simp]:
  "msg_iface (with_iface m p a) = Some a" "msg_routed (with_iface m p a) = msg_routed m"
  "msg_object (with_iface m p a) = msg_object m" "msg_local (with_iface m p a) = msg_local m"
  "msg_proc_ts (with_iface m p a) = msg_proc_ts m" "msg_out_ts (with_iface m p a) = msg_out_ts m"
  "msg_identity (with_iface m p a) = msg_identity m" "msg_actionid (with_iface m p a) = msg_actionid m"
  by (simp_all add: with_iface_def)

lemma place_call_finds:
  assumes "finds m p a"
  shows "\<exists>l. zl_items l = zl_items (px_ifaces p) \<and>
    place_call E m p = rbind (choose_route (with_iface m p a) a (after_lookup m p a l))
      (\<lambda>(m2, p2). rbind (send_routed E m2 p2) (\<lambda>(m3, p3). Inr (0, m3, p3)))"
proof -
  obtain l where "zl_items l = zl_items (px_ifaces p)"
    "assign_iface m p = Inr (True, with_iface m p a, after_lookup m p a l)"
    using assign_iface_finds [OF assms] by blast
  with assms show ?thesis
    by (intro exI [of _ l]) (simp add: place_call_def finds_def)
qed

section \<open>Local providers\<close>

text \<open>What the loop over the providers looks at when the interface is a purely local one: the
  first provider.\<close>

lemma choose_local_only:
  assumes "zl_items (if_local (px_heap p a)) = q # qs" and "if_globals (px_heap p a) = []"
    and "zh_lookup (snd q) (px_modules p) = Some mo" and "msg_routed m = None"
  shows "\<exists>p2. choose_route m a p =
      Inr (m\<lparr>msg_routed := if mo_state mo = IDLE then Some (snd (mo_identity mo)) else None\<rparr>, p2) \<and>
    px_modules p2 = px_modules p \<and> px_out p2 = px_out p \<and> px_fabs p2 = px_fabs p \<and> px_queue p2 = px_queue p"
proof -
  have "zl_rest (if_global (px_heap p a)) = []"
    using assms(2) by (simp add: zl_rest_def if_globals_def split: option.splits)
  then have "rfold (try_provider (px_modules p)) (snd q # zl_rest (if_global (px_heap p a))) (msg_routed m) =
      Inr (if mo_state mo = IDLE then Some (snd (mo_identity mo)) else None)"
    using assms(3,4) by (simp add: try_provider_def)
  then show ?thesis
    using assms(1) by (simp add: choose_route_def zl_size_def route_local_eq [OF assms(1)])
qed

lemma place_call_idle:
  assumes "finds m p a" and "zl_items (if_local (px_heap p a)) = q # qs" and "if_globals (px_heap p a) = []"
    and mo: "zh_lookup (snd q) (px_modules p) = Some mo" "mo_identity mo = q" "mo_state mo = IDLE"
    and q: "snd q = concat (map show_hex_byte bs)" "length bs = 5"
  shows "\<exists>m' p'. place_call E m p = Inr (0, m', p') \<and> msg_routed m' = Some (snd q) \<and>
    msg_proc_ts m' = ev_now E \<and> msg_out_ts m' = msg_out_ts m \<and>
    zh_lookup (snd q) (px_modules p') = Some (mo\<lparr>mo_state := BUSY\<rparr>) \<and>
    px_out p' = px_out p @ [To_Local bs (msg_object m)]"
proof -
  obtain l where pc: "place_call E m p = rbind (choose_route (with_iface m p a) a (after_lookup m p a l))
      (\<lambda>(m2, p2). rbind (send_routed E m2 p2) (\<lambda>(m3, p3). Inr (0, m3, p3)))"
    using place_call_finds [OF assms(1)] by blast
  let ?m = "with_iface m p a" and ?p = "after_lookup m p a l"
  have h: "if_globals (px_heap ?p a) = []" "msg_routed ?m = None"
    using assms(1,3) by (simp_all add: after_lookup_def finds_def)
  obtain p2 where cr: "choose_route ?m a ?p = Inr (?m\<lparr>msg_routed := Some (snd q)\<rparr>, p2)"
    and p2: "px_modules p2 = px_modules p" "px_out p2 = px_out p"
    using choose_local_only [of ?p a q qs mo ?m] assms(2) h mo by auto
  have "send_routed E (?m\<lparr>msg_routed := Some (snd q)\<rparr>) p2 =
      Inr (?m\<lparr>msg_routed := Some (snd q), msg_proc_ts := ev_now E\<rparr>,
        emit (To_Local bs (msg_object m)) (p2\<lparr>px_modules := zh_modify (snd q) (mo\<lparr>mo_state := BUSY\<rparr>) (px_modules p2)\<rparr>))"
    using mo p2 q send_message_local [OF q(2)] by (simp add: send_routed_def message_tomsg_def)
  with pc cr p2 mo show ?thesis
    by (auto simp: zh_lookup_modify)
qed

lemma place_call_busy:
  assumes "finds m p a" and "zl_items (if_local (px_heap p a)) = q # qs" and "if_globals (px_heap p a) = []"
    and mo: "zh_lookup (snd q) (px_modules p) = Some mo" "mo_state mo \<noteq> IDLE"
  shows "\<exists>m' p'. place_call E m p = Inr (0, m', p') \<and> msg_routed m' = None \<and> msg_iface m' = Some a \<and>
    px_out p' = px_out p \<and> px_modules p' = px_modules p"
proof -
  obtain l where pc: "place_call E m p = rbind (choose_route (with_iface m p a) a (after_lookup m p a l))
      (\<lambda>(m2, p2). rbind (send_routed E m2 p2) (\<lambda>(m3, p3). Inr (0, m3, p3)))"
    using place_call_finds [OF assms(1)] by blast
  let ?m = "with_iface m p a" and ?p = "after_lookup m p a l"
  have h: "if_globals (px_heap ?p a) = []" "msg_routed ?m = None"
    using assms(1,3) by (simp_all add: after_lookup_def finds_def)
  obtain p2 where "choose_route ?m a ?p = Inr (?m\<lparr>msg_routed := None\<rparr>, p2)"
    and "px_modules p2 = px_modules p" "px_out p2 = px_out p"
    using choose_local_only [of ?p a q qs mo ?m] assms(2) h mo by auto
  with pc show ?thesis by (auto simp: send_routed_def)
qed

section \<open>Mixed and remote providers\<close>

text \<open>With a fabric in the list, the loop looks the fabric up among the modules.\<close>

lemma place_call_mixed:
  assumes "finds m p a" and "zl_items (if_local (px_heap p a)) = q # qs"
    and "if_globals (px_heap p a) = g # gs" and "zl_cur (if_global (px_heap p a)) = None"
    and "zh_lookup g (px_modules p) = None"
  shows "place_call E m p = Inl Null_Deref"
proof -
  obtain l where pc: "place_call E m p = rbind (choose_route (with_iface m p a) a (after_lookup m p a l))
      (\<lambda>(m2, p2). rbind (send_routed E m2 p2) (\<lambda>(m3, p3). Inr (0, m3, p3)))"
    using place_call_finds [OF assms(1)] by blast
  let ?m = "with_iface m p a" and ?p = "after_lookup m p a l"
  have rest: "zl_rest (if_global (px_heap ?p a)) = g # gs"
    using assms(3,4) by (simp add: after_lookup_def zl_rest_def if_globals_def)
  have loc: "zl_items (if_local (px_heap ?p a)) = q # qs" using assms(2) by simp
  have "rfold (try_provider (px_modules ?p)) (snd q # zl_rest (if_global (px_heap ?p a))) (msg_routed ?m) =
      Inl Null_Deref"
    using assms(5) by (cases "zh_lookup (snd q) (px_modules p)") (simp_all add: rest try_provider_def)
  then have "choose_route ?m a ?p = Inl Null_Deref"
    using loc by (simp add: choose_route_def zl_size_def route_local_eq [OF loc] del: rfold.simps)
  with pc show ?thesis by simp
qed

text \<open>With fabrics only, a local call starts on the second one, if there is one.\<close>

lemma place_call_remote:
  assumes "finds m p a" and "msg_local m" and "zl_items (if_local (px_heap p a)) = []"
    and "if_globals (px_heap p a) = g # gs" and via: "via = (if gs = [] then g else hd gs)"
    and fab: "zh_lookup via (px_fabs p) = Some fab" "fb_peer fab" "length via > 10"
    and no: "zh_lookup via (px_modules p) = None"
  shows "\<exists>m' p'. place_call E m p = Inr (0, m', p') \<and> msg_routed m' = Some via \<and>
    msg_out_ts m' = ev_now E \<and> px_modules p' = px_modules p \<and>
    px_out p' = px_out p @ [To_Fabric via (msg_object m)]"
proof -
  obtain l where pc: "place_call E m p = rbind (choose_route (with_iface m p a) a (after_lookup m p a l))
      (\<lambda>(m2, p2). rbind (send_routed E m2 p2) (\<lambda>(m3, p3). Inr (0, m3, p3)))"
    using place_call_finds [OF assms(1)] by blast
  let ?m = "with_iface m p a" and ?p = "after_lookup m p a l"
  have gl: "msg_globals ?m = Some \<lparr>zl_items = g # gs, zl_cur = Some 0\<rparr>"
    using assms(2,4) by (simp add: with_iface_def)
  obtain gl' where "route_global ?m = ?m\<lparr>msg_routed := Some via, msg_globals := Some gl'\<rparr>"
    using assms(2) gl via
    by (cases gs) (auto simp: route_global_def zl_size_def zl_next_def zl_first_def)
  then have cr: "choose_route ?m a ?p = Inr (?m\<lparr>msg_routed := Some via, msg_globals := Some gl'\<rparr>, ?p)"
    using assms(3) by (simp add: choose_route_def zl_size_def)
  have "send_routed E (?m\<lparr>msg_routed := Some via, msg_globals := Some gl'\<rparr>) ?p =
      Inr (?m\<lparr>msg_routed := Some via, msg_globals := Some gl', msg_out_ts := ev_now E\<rparr>,
        emit (To_Fabric via (msg_object m)) ?p)"
    using fab no by (simp add: send_routed_def message_tomsg_def send_message_def)
  with pc cr show ?thesis by simp
qed

end
