(* ===== verification/Timeouts.thy ===== *)
theory Timeouts
  imports Queue_Inv
begin

text \<open>
  The queue timer: which calls time out, with which exception, and that the pass over the
  queue answers and removes exactly these. \<open>verdict\<close> is the specification of one call,
  written as the table of the three timeouts; the last one that applies decides the code.
\<close>

definition verdict :: "env \<Rightarrow> message \<Rightarrow> (string \<times> int) option res" where
  "verdict E m =
     rbind (expired_in E m) (\<lambda>late_in.
     rbind (expired_out E m) (\<lambda>late_out.
     rbind (expired_process E m) (\<lambda>late_proc.
       Inr (if late_proc then Some (''Process timeout'', PROCESS_TIMEOUT)
            else if late_out then Some (''Global fabric not answered in time'', GLOBAL_TIMEOUT)
            else if late_in then Some (''All modules are busy'', MODULES_BUSY)
            else None))))"

text \<open>The outputs of one state are a prefix of those of a later one.\<close>

definition more_out :: "proxy \<Rightarrow> proxy \<Rightarrow> bool" where
  "more_out p p' \<longleftrightarrow> (\<exists>es. px_out p' = px_out p @ es)"

lemma more_out_refl [simp]: "more_out p p"
  by (simp add: more_out_def)

lemma more_out_trans: "more_out p p1 \<Longrightarrow> more_out p1 p2 \<Longrightarrow> more_out p p2"
  by (auto simp: more_out_def)

lemma more_out_emit [simp]: "more_out p (emit e p)"
  by (simp add: more_out_def)

lemma more_out_send: "send_message msg identity p = Inr p' \<Longrightarrow> more_out p p'"
  by (auto simp: more_out_def dest: send_message_frame)

lemma more_out_same: "px_out p' = px_out p \<Longrightarrow> more_out p p'"
  by (simp add: more_out_def)

lemma give_up_module_frame:
  assumes "give_up_module E via p = Inr p'"
  shows "px_queue p' = px_queue p \<and> more_out p p'"
proof (cases "zh_lookup via (px_modules p)")
  case None
  with assms show ?thesis by (simp add: give_up_module_def)
next
  case (Some mo)
  show ?thesis
  proof (cases "cf_debug (ev_conf E)")
    case True
    with assms Some show ?thesis by (simp add: give_up_module_def)
  next
    case False
    let ?p = "emit (To_Procman [''restart'', mo_spid mo]) p"
    obtain p1 where p1: "print_ifaces (forget_identity E (mo_identity mo) ?p) = Inr p1"
      and p': "p' = p1\<lparr>px_modules := zh_delete (snd (mo_identity mo)) (px_modules p1)\<rparr>"
      using assms Some False by (auto simp: give_up_module_def res_simps)
    from print_ifaces_frame [OF p1] p' show ?thesis
      by (auto simp: forget_identity_def same_frame_def more_out_def split: prod.splits)
  qed
qed

text \<open>A message to the peer \<open>identity\<close> between two states, and an answer to the caller of \<open>m\<close>.\<close>

definition sent_between :: "mobj \<Rightarrow> string \<Rightarrow> proxy \<Rightarrow> proxy \<Rightarrow> bool" where
  "sent_between ob identity p p' \<longleftrightarrow>
     (\<exists>pre es post. px_out p' = px_out p @ pre @ es @ post \<and> sends ob identity es)"

abbreviation answered_with :: "mobj \<Rightarrow> message \<Rightarrow> proxy \<Rightarrow> proxy \<Rightarrow> bool" where
  "answered_with ob m \<equiv> sent_between ob (msg_identity m)"

lemma sent_later: "sent_between ob i p p1 \<Longrightarrow> more_out p1 p2 \<Longrightarrow> sent_between ob i p p2"
  unfolding sent_between_def more_out_def by (metis append.assoc)

lemma sent_earlier: "more_out p p1 \<Longrightarrow> sent_between ob i p1 p2 \<Longrightarrow> sent_between ob i p p2"
  unfolding sent_between_def more_out_def by (metis append.assoc)

lemma sent_send: "send_message (Some ob) i p = Inr p' \<Longrightarrow> sent_between ob i p p'"
  using send_message_effect [of ob i p p'] unfolding sent_between_def
  by (metis append_Nil append_Nil2 proxy.select_convs(8) proxy.surjective proxy.update_convs(8))

lemma process_queue_item_verdict:
  assumes "process_queue_item E k m p = Inr (rc, p')"
  shows "\<exists>v. verdict E m = Inr v \<and> rc = 0 \<and> more_out p p' \<and>
    (case v of None \<Rightarrow> p' = p
     | Some (t, c) \<Rightarrow> px_queue p' = zh_delete k (px_queue p) \<and>
         (\<exists>ob. message_exception (Some (msg_actionid m)) t c = Some ob \<and> answered_with ob m p p'))"
proof -
  obtain li lo lp where l: "expired_in E m = Inr li" "expired_out E m = Inr lo" "expired_process E m = Inr lp"
    using assms by (auto simp: process_queue_item_def res_simps)
  define v where "v = (if lp then Some (''Process timeout'', PROCESS_TIMEOUT)
    else if lo then Some (''Global fabric not answered in time'', GLOBAL_TIMEOUT)
    else if li then Some (''All modules are busy'', MODULES_BUSY) else None)"
  have v: "verdict E m = Inr v" by (simp add: verdict_def l v_def)
  obtain p1 where p1: "(if lp then give_up_module E (the (msg_routed m)) p else Inr p) = Inr p1"
    and rest: "(case (case v of None \<Rightarrow> None | Some (t, c) \<Rightarrow> message_exception (Some (msg_actionid m)) t c) of
        None \<Rightarrow> Inr (0, p1)
      | Some ob \<Rightarrow> rbind (send_message (Some ob) (msg_identity m) p1) (\<lambda>p2. Inr (0, drop_call k p2))) = Inr (rc, p')"
    using assms unfolding process_queue_item_def l rbind.simps Let_def v_def
    by (cases lp; cases lo; cases li) (auto simp: res_simps)
  have g: "px_queue p1 = px_queue p" "more_out p p1"
    using p1 give_up_module_frame by (cases lp; fastforce)+
  show ?thesis
  proof (cases v)
    case None
    then have "\<not> lp" by (simp add: v_def split: if_splits)
    with p1 rest None v show ?thesis by auto
  next
    case (Some tc)
    obtain t c where tc: "tc = (t, c)" by (cases tc)
    obtain ob where ob: "message_exception (Some (msg_actionid m)) t c = Some ob"
      by (simp add: message_exception_def)
    obtain p2 where s: "send_message (Some ob) (msg_identity m) p1 = Inr p2" and p': "p' = drop_call k p2" "rc = 0"
      using rest Some tc ob by (auto simp: res_simps)
    have "answered_with ob m p p2"
      using sent_send [OF s] g(2) sent_earlier by blast
    moreover have "px_out p' = px_out p2" "px_queue p' = zh_delete k (px_queue p)"
      using p' send_message_fields(6) [OF s] g(1) by (simp_all add: drop_call_def)
    moreover have "more_out p p2" using g(2) more_out_send [OF s] more_out_trans by blast
    ultimately show ?thesis
      using v Some tc ob p'(2) by (auto simp: sent_between_def more_out_def)
  qed
qed

section \<open>The pass over the queue\<close>

definition timed_out :: "env \<Rightarrow> message \<Rightarrow> proxy \<Rightarrow> proxy \<Rightarrow> bool" where
  "timed_out E m p p' \<longleftrightarrow>
     (\<exists>t c ob. verdict E m = Inr (Some (t, c)) \<and> message_exception (Some (msg_actionid m)) t c = Some ob \<and>
        answered_with ob m p p')"

definition settled :: "env \<Rightarrow> proxy \<Rightarrow> proxy \<Rightarrow> bool \<Rightarrow> string \<Rightarrow> message \<Rightarrow> bool" where
  "settled E p p' visited k m \<longleftrightarrow>
     (if visited then verdict E m = Inr None \<and> zh_lookup k (px_queue p') = Some m \<or>
        timed_out E m p p' \<and> zh_lookup k (px_queue p') = None
      else zh_lookup k (px_queue p') = Some m)"

lemma process_queue_visit:
  assumes "zh_visit px_queue (process_queue_item E) ks p = Inr (rc, p')" and "distinct ks"
  shows "more_out p p' \<and> (\<forall>k m. zh_lookup k (px_queue p) = Some m \<longrightarrow> settled E p p' (k \<in> set ks) k m) \<and>
    (\<forall>k. zh_lookup k (px_queue p) = None \<longrightarrow> zh_lookup k (px_queue p') = None)"
  using assms
proof (induction ks arbitrary: p)
  case Nil
  then show ?case by (simp add: settled_def)
next
  case (Cons k ks)
  show ?case
  proof (cases "zh_lookup k (px_queue p)")
    case None
    with Cons show ?thesis by (auto simp: settled_def)
  next
    case (Some m)
    obtain p1 where item: "process_queue_item E k m p = Inr (0, p1)"
      and rest: "zh_visit px_queue (process_queue_item E) ks p1 = Inr (rc, p')"
      using Cons.prems(1) Some process_queue_item_verdict [of E k m p]
      by (auto simp: res_simps split: if_splits)
    obtain v where v: "verdict E m = Inr v" "more_out p p1"
      and eff: "case v of None \<Rightarrow> p1 = p | Some (t, c) \<Rightarrow> px_queue p1 = zh_delete k (px_queue p) \<and>
         (\<exists>ob. message_exception (Some (msg_actionid m)) t c = Some ob \<and> answered_with ob m p p1)"
      using process_queue_item_verdict [OF item] by blast
    have q1: "zh_lookup j (px_queue p1) = (if j = k \<and> v \<noteq> None then None else zh_lookup j (px_queue p))" for j
      using eff by (auto simp: zh_lookup_delete split: option.splits)
    have fresh: "k \<notin> set ks" "distinct ks" using Cons.prems(2) by auto
    note IH = Cons.IH [OF rest fresh(2)]
    have later: "timed_out E m' p1 p' \<Longrightarrow> timed_out E m' p p'" for m'
      unfolding timed_out_def using sent_earlier [OF v(2)] by blast
    have mine: "settled E p p' True k m"
    proof (cases v)
      case None
      with IH q1 fresh Some v show ?thesis by (auto simp: settled_def)
    next
      case (Some tc)
      have "timed_out E m p p1"
        using eff v Some by (auto simp: timed_out_def split: prod.splits)
      with IH have "timed_out E m p p'"
        unfolding timed_out_def using sent_later by blast
      with IH q1 Some show ?thesis by (simp add: settled_def)
    qed
    have others: "settled E p p' (j \<in> set ks) j m'" if "zh_lookup j (px_queue p) = Some m'" "j \<noteq> k" for j m'
    proof -
      have "settled E p1 p' (j \<in> set ks) j m'" using IH q1 that by simp
      with later show ?thesis by (auto simp: settled_def split: if_splits)
    qed
    have all: "settled E p p' (j \<in> set (k # ks)) j m'" if "zh_lookup j (px_queue p) = Some m'" for j m'
      using mine others [OF that] that Some by (cases "j = k") simp_all
    have "more_out p p'" using v(2) IH more_out_trans by blast
    moreover have "\<forall>j. zh_lookup j (px_queue p) = None \<longrightarrow> zh_lookup j (px_queue p') = None"
      using IH q1 by (auto split: if_splits)
    ultimately show ?thesis
      using all by blast
  qed
qed

lemma process_queue_spec:
  assumes "process_queue E p = Inr p'" and "zh_wf (px_queue p)" and "zh_lookup k (px_queue p) = Some m"
  shows "verdict E m = Inr None \<and> zh_lookup k (px_queue p') = Some m \<or>
    timed_out E m p p' \<and> zh_lookup k (px_queue p') = None"
proof -
  have "px_queue p \<noteq> []" using assms(3) by auto
  then obtain rc where "zh_visit px_queue (process_queue_item E) (zh_keys (px_queue p)) p = Inr (rc, p')"
    using assms(1) by (auto simp: process_queue_def zh_foreach_def res_simps)
  from process_queue_visit [OF this] assms(2,3) show ?thesis
    using zh_keys_iff [of k "px_queue p"] by (auto simp: zh_wf_def settled_def)
qed

section \<open>No call stays for ever\<close>

text \<open>A call is overdue when it has waited, or been worked on, for longer than its timeout; the time
  is read without wrap-around.\<close>

definition overdue :: "env \<Rightarrow> message \<Rightarrow> bool" where
  "overdue E m \<longleftrightarrow>
     (if msg_proc_ts m = 0
      then msg_in_ts m \<le> ev_now E \<and>
        nat (cf_in_timeout (ev_conf E) * 1000) < unat (ev_now E) - unat (msg_in_ts m)
      else msg_proc_ts m \<le> ev_now E \<and>
        nat (cf_process_timeout (ev_conf E) * 1000) < unat (ev_now E) - unat (msg_proc_ts m))"

lemma timeout_us_less:
  assumes "0 \<le> t" and "int_range (t * 1000)" and "ts \<le> now" and "nat (t * 1000) < unat now - unat ts"
  shows "\<exists>us. timeout_us t = Inr us \<and> us < now - ts"
proof -
  have "unat (u64_of_int (t * 1000)) = nat (t * 1000)"
    using assms(1,2) by (intro u64_of_int_nonneg) simp_all
  moreover have "unat (now - ts) = unat now - unat ts" using assms(3) by (simp add: unat_sub)
  ultimately show ?thesis
    using assms(2,4) by (simp add: timeout_us_def int_res_def word_less_nat_alt)
qed

lemma overdue_verdict:
  assumes "overdue E m" and "msg_proc_ts m \<noteq> 0 \<longrightarrow> msg_routed m \<noteq> None"
    and "0 \<le> cf_in_timeout (ev_conf E)" and "int_range (cf_in_timeout (ev_conf E) * 1000)"
    and "0 \<le> cf_process_timeout (ev_conf E)" and "int_range (cf_process_timeout (ev_conf E) * 1000)"
  shows "verdict E m \<noteq> Inr None"
proof (cases "msg_proc_ts m = 0")
  case True
  then obtain us where "timeout_us (cf_in_timeout (ev_conf E)) = Inr us" "us < ev_now E - msg_in_ts m"
    using assms(1) timeout_us_less [OF assms(3,4)] by (auto simp: overdue_def)
  with True have "expired_in E m = Inr True" by (simp add: expired_in_def getInTimeDelta_def)
  then show ?thesis by (auto simp: verdict_def res_simps)
next
  case False
  then obtain us where "timeout_us (cf_process_timeout (ev_conf E)) = Inr us" "us < ev_now E - msg_proc_ts m"
    using assms(1) timeout_us_less [OF assms(5,6)] by (auto simp: overdue_def)
  with False assms(2) have "expired_process E m = Inr True"
    by (simp add: expired_process_def getProcessTimeDelta_def)
  then show ?thesis by (auto simp: verdict_def res_simps)
qed

end
