(* ===== verification/Peers.thy ===== *)
theory Peers
  imports Broker_Inv Timeouts
begin

text \<open>
  How peers come and go: the polling of the fabrics, modules that are given up or restarted,
  and when the timers cannot fault.
\<close>

section \<open>Polling\<close>

text \<open>No listed interface names the fabric.\<close>

definition lists_nowhere :: "string \<Rightarrow> proxy \<Rightarrow> bool" where
  "lists_nowhere g p \<longleftrightarrow> (\<forall>a \<in> set (zl_items (px_ifaces p)). g \<notin> set (if_globals (px_heap p a)))"

lemma lists_nowhere_same:
  assumes "same_frame p p'"
  shows "lists_nowhere g p' \<longleftrightarrow> lists_nowhere g p"
proof -
  have "if_globals (px_heap p' a) = if_globals (px_heap p a)" for a
    using assms same_lists_facts(2) [of "px_heap p a" "px_heap p' a"] by (simp add: same_frame_def same_heap_def)
  with assms show ?thesis by (simp add: lists_nowhere_def same_frame_def)
qed

lemma iface_forget_globals:
  assumes "iface_wf i"
  shows "if_globals (iface_forget True ident i) = filter (\<lambda>g. g \<noteq> snd ident) (if_globals i)"
proof -
  have "zl_items (zl_remove (\<lambda>g. g = snd ident) (if_global i)) = filter (\<lambda>g. \<not> g = snd ident) (zl_items (if_global i))"
    by (rule zl_items_remove) (use assms in \<open>auto simp: iface_wf_def if_globals_def\<close>)
  then show ?thesis by (simp add: iface_forget_def if_globals_def)
qed

lemma forget_lists:
  assumes "router_inv p"
  shows "lists_nowhere g p \<Longrightarrow> lists_nowhere g (forget_identity E ident p)"
    "ev_byval E \<Longrightarrow> lists_nowhere (snd ident) (forget_identity E ident p)"
proof -
  obtain l h where r: "iface_remove (ev_byval E) (px_ifaces p) (px_heap p) ident = (l, h)"
    by (cases "iface_remove (ev_byval E) (px_ifaces p) (px_heap p) ident")
  have wf: "wf_ifaces (px_next p) (zl_items (px_ifaces p)) (px_heap p)"
    using assms by (simp add: router_inv_def)
  note R = wf_ifaces_remove [OF wf r]
  have p': "forget_identity E ident p = p\<lparr>px_ifaces := l, px_heap := h\<rparr>"
    by (simp add: forget_identity_def r)
  show "lists_nowhere g p \<Longrightarrow> lists_nowhere g (forget_identity E ident p)"
    using R(2,3) iface_forget_subset(3) by (fastforce simp: p' lists_nowhere_def)
  assume "ev_byval E"
  then show "lists_nowhere (snd ident) (forget_identity E ident p)"
    using wf R(2,3) by (auto simp: p' lists_nowhere_def iface_forget_globals wf_ifaces_def)
qed

lemma poll_clock: "get_ifacelist_item (E\<lparr>ev_now := t\<rparr>) = get_ifacelist_item E"
  by (intro ext) (simp add: get_ifacelist_item_def getActionid_def forget_identity_def)

lemma get_ifacelist_item_effect:
  assumes inv: "router_inv p" and k: "zh_lookup k (px_fabs p) = Some fab"
    and run: "get_ifacelist_item E k fab p = Inr (rc, p')"
  shows "rc = 0 \<and> router_inv p' \<and>
    px_fabs p' = (if fb_alive fab then zh_modify k (fab\<lparr>fb_alive := False\<rparr>) (px_fabs p) else zh_delete k (px_fabs p)) \<and>
    (\<forall>g. lists_nowhere g p \<longrightarrow> lists_nowhere g p') \<and> (\<not> fb_alive fab \<longrightarrow> ev_byval E \<longrightarrow> lists_nowhere k p')"
proof -
  have inv': "router_inv p'"
    using get_ifacelist_item_ok [of "E\<lparr>ev_now := 0\<rparr>" p k fab rc p'] inv k run
    by (simp add: broker_ok_def poll_clock)
  have id: "snd (fb_identity fab) = k"
    using inv k by (simp add: router_inv_def wf_fabs_def)
  show ?thesis
  proof (cases "fb_alive fab")
    case True
    then obtain msg p2 where s: "send_message msg (snd (fb_identity fab)) (p\<lparr>px_uuids := Suc (px_uuids p)\<rparr>) = Inr p2"
      and p': "p' = p2\<lparr>px_fabs := zh_modify k (fab\<lparr>fb_alive := False\<rparr>) (px_fabs p2)\<rparr>" "rc = 0"
      using run by (auto simp: get_ifacelist_item_def getActionid_def res_simps)
    with True inv' send_message_fields [OF s] show ?thesis by (simp add: lists_nowhere_def)
  next
    case False
    let ?p = "emit (Disconnect k) (p\<lparr>px_uuids := Suc (px_uuids p)\<rparr>)"
    obtain p2 where s: "print_ifaces (forget_identity E (fb_identity fab) ?p) = Inr p2"
      and p': "p' = p2\<lparr>px_fabs := zh_delete k (px_fabs p2)\<rparr>" "rc = 0"
      using run False by (auto simp: get_ifacelist_item_def getActionid_def res_simps)
    have frame: "same_frame (forget_identity E (fb_identity fab) ?p) p2"
      using print_ifaces_frame [OF s] by blast
    have fabs: "px_fabs p2 = px_fabs p"
      using frame by (simp add: same_frame_def forget_identity_def split: prod.splits)
    have nowhere: "lists_nowhere g p' = lists_nowhere g (forget_identity E (fb_identity fab) ?p)" for g
      using lists_nowhere_same [OF frame] by (simp add: p' lists_nowhere_def)
    have "router_inv ?p" "lists_nowhere g ?p = lists_nowhere g p" for g
      using inv by (simp_all add: lists_nowhere_def)
    with forget_lists(1) [of ?p _ E "fb_identity fab"] forget_lists(2) [of ?p E "fb_identity fab"] inv' False fabs p' nowhere id show ?thesis by simp
  qed
qed

definition polled :: "env \<Rightarrow> fabric \<Rightarrow> string \<Rightarrow> proxy \<Rightarrow> bool" where
  "polled E fab k p' \<longleftrightarrow>
     (if fb_alive fab then zh_lookup k (px_fabs p') = Some (fab\<lparr>fb_alive := False\<rparr>)
      else zh_lookup k (px_fabs p') = None \<and> (ev_byval E \<longrightarrow> lists_nowhere k p'))"

lemma polling_visit:
  assumes "zh_visit px_fabs (get_ifacelist_item E) ks p = Inr (rc, p')" and "distinct ks" and "router_inv p"
  shows "(\<forall>g. lists_nowhere g p \<longrightarrow> lists_nowhere g p') \<and>
    (\<forall>k. k \<notin> set ks \<longrightarrow> zh_lookup k (px_fabs p') = zh_lookup k (px_fabs p)) \<and>
    (\<forall>k \<in> set ks. \<forall>fab. zh_lookup k (px_fabs p) = Some fab \<longrightarrow> polled E fab k p')"
  using assms
proof (induction ks arbitrary: p)
  case Nil
  then show ?case by simp
next
  case (Cons k ks)
  show ?case
  proof (cases "zh_lookup k (px_fabs p)")
    case None
    with Cons show ?thesis by auto
  next
    case (Some fab)
    obtain rc1 p1 where item: "get_ifacelist_item E k fab p = Inr (rc1, p1)"
      and next_: "(if rc1 \<noteq> 0 then Inr (rc1, p1) else zh_visit px_fabs (get_ifacelist_item E) ks p1) = Inr (rc, p')"
      using Cons.prems(1) Some by (auto simp: res_simps)
    have rest: "zh_visit px_fabs (get_ifacelist_item E) ks p1 = Inr (rc, p')"
      using next_ get_ifacelist_item_effect [OF Cons.prems(3) Some item] by simp
    note I = get_ifacelist_item_effect [OF Cons.prems(3) Some item]
    have fresh: "k \<notin> set ks" "distinct ks" using Cons.prems(2) by auto
    note IH = Cons.IH [OF rest fresh(2) I [THEN conjunct2, THEN conjunct1]]
    have other: "j \<noteq> k \<Longrightarrow> zh_lookup j (px_fabs p1) = zh_lookup j (px_fabs p)" for j
      using I by (simp add: zh_lookup_modify zh_lookup_delete)
    have mine: "polled E fab k p'"
      using IH I fresh(1) Some by (simp add: polled_def zh_lookup_modify zh_lookup_delete split: if_splits)
    have "polled E f j p'" if "j \<in> set ks" "zh_lookup j (px_fabs p) = Some f" for j f
      using IH other that fresh(1) by metis
    then show ?thesis using IH I other mine Some by auto
  qed
qed

lemma polling_spec:
  assumes "get_ifacelist_event E p = Inr p'" and "router_inv p" and "zh_lookup k (px_fabs p) = Some fab"
  shows "polled E fab k p'"
proof -
  have "px_fabs p \<noteq> []" using assms(3) by auto
  then obtain rc where v: "zh_visit px_fabs (get_ifacelist_item E) (zh_keys (px_fabs p)) p = Inr (rc, p')"
    using assms(1) by (auto simp: get_ifacelist_event_def zh_foreach_def res_simps)
  have "distinct (zh_keys (px_fabs p))"
    using assms(2) by (simp add: router_inv_def wf_fabs_def zh_wf_def)
  with polling_visit [OF v this assms(2)] assms(3) zh_keys_iff [of k "px_fabs p"] show ?thesis by simp
qed

section \<open>Modules that go\<close>

lemma unregistered_nowhere:
  assumes "router_inv p" and "zh_lookup k (px_modules p) = None"
  shows "k \<notin> set (if_locals (px_heap p a))"
  using assms unfolding router_inv_def wf_providers_def if_locals_def by fastforce

lemma give_up_module_effect:
  assumes inv: "router_inv p" and mo: "zh_lookup via (px_modules p) = Some mo"
    and nodebug: "\<not> cf_debug (ev_conf E)" and run: "give_up_module E via p = Inr p'"
  shows "zh_lookup via (px_modules p') = None \<and> router_inv p' \<and>
    px_out p' = px_out p @ [To_Procman [''restart'', mo_spid mo]]"
proof -
  let ?p = "emit (To_Procman [''restart'', mo_spid mo]) p"
  have id: "snd (mo_identity mo) = via"
    using inv mo by (simp add: router_inv_def wf_modules_def)
  obtain p1 where p1: "print_ifaces (forget_identity E (mo_identity mo) ?p) = Inr p1"
    and p': "p' = p1\<lparr>px_modules := zh_delete (snd (mo_identity mo)) (px_modules p1)\<rparr>"
    using run mo nodebug by (auto simp: give_up_module_def res_simps)
  have "broker_ok (E\<lparr>ev_now := 0\<rparr>) p'"
    using forget_module_ok [OF _ _ p1, of "E\<lparr>ev_now := 0\<rparr>" via] inv mo unfolding p'
    by (simp add: broker_ok_def forget_identity_def)
  with print_ifaces_frame [OF p1] p' id show ?thesis
    by (auto simp: broker_ok_def forget_identity_def zh_lookup_delete split: prod.splits)
qed

lemma stuck_module_effect:
  assumes inv: "router_inv p" and late: "verdict E m = Inr (Some (''Process timeout'', PROCESS_TIMEOUT))"
    and via: "msg_routed m = Some via" "zh_lookup via (px_modules p) = Some mo"
    and nodebug: "\<not> cf_debug (ev_conf E)" and run: "process_queue_item E k m p = Inr (rc, p')"
  shows "zh_lookup via (px_modules p') = None \<and> (\<forall>a. via \<notin> set (if_locals (px_heap p' a))) \<and>
    (\<exists>es. px_out p' = px_out p @ [To_Procman [''restart'', mo_spid mo]] @ es \<and>
      (\<exists>ob. message_exception (Some (msg_actionid m)) ''Process timeout'' PROCESS_TIMEOUT = Some ob \<and>
         sends ob (msg_identity m) es))"
proof -
  obtain li lo lp where l: "expired_in E m = Inr li" "expired_out E m = Inr lo" "expired_process E m = Inr lp"
    using run by (auto simp: process_queue_item_def res_simps)
  have lp: "lp" using late by (auto simp: verdict_def l split: if_splits)
  obtain ob where ob: "message_exception (Some (msg_actionid m)) ''Process timeout'' PROCESS_TIMEOUT = Some ob"
    by (simp add: message_exception_def)
  obtain p1 p2 where p1: "give_up_module E via p = Inr p1"
    and s: "send_message (Some ob) (msg_identity m) p1 = Inr p2" and p': "p' = drop_call k p2"
    using run lp ob via(1) by (auto simp: process_queue_item_def l res_simps)
  note G = give_up_module_effect [OF inv via(2) nodebug p1]
  obtain es where es: "p2 = p1\<lparr>px_out := px_out p1 @ es\<rparr>" "sends ob (msg_identity m) es"
    using send_message_effect [OF s] by blast
  have "px_modules p' = px_modules p1" "px_heap p' = px_heap p1" "px_out p' = px_out p1 @ es"
    using p' es(1) by (simp_all add: drop_call_def)
  with G es(2) ob unregistered_nowhere [of p1 via] show ?thesis by simp
qed

lemma deferred_restart:
  assumes "zh_lookup k (px_modules p) = Some mo" and "mo_state mo \<noteq> IDLE"
  shows "\<exists>p1. procman_checkpid E ''restart'' (mo_pid mo) k mo p = Inr (-1, p1) \<and> px_out p1 = px_out p \<and>
    release_module E' k p1 = Inr (emit (To_Procman [''restart'', mo_spid mo]) p1)"
  using assms by (simp add: procman_checkpid_def release_module_def zh_lookup_modify)

section \<open>When the queue timer cannot fault\<close>

definition timeouts_in_range :: "env \<Rightarrow> bool" where
  "timeouts_in_range E \<longleftrightarrow> int_range (cf_in_timeout (ev_conf E) * 1000) \<and>
     int_range (cf_out_timeout (ev_conf E) * 1000) \<and> int_range (cf_process_timeout (ev_conf E) * 1000)"

definition printable :: "proxy \<Rightarrow> bool" where
  "printable p \<longleftrightarrow> (\<forall>a \<in> set (zl_items (px_ifaces p)). length (iface_text (px_heap p a)) < 1024)"

definition sendable :: "string \<Rightarrow> bool" where
  "sendable s \<longleftrightarrow> hex_identity s \<or> length s > 10"

text \<open>Every module that works on a call is still registered.\<close>

definition staffed :: "proxy \<Rightarrow> bool" where
  "staffed p \<longleftrightarrow> (\<forall>k m via. zh_lookup k (px_queue p) = Some m \<longrightarrow> works_on via m \<longrightarrow>
     zh_lookup via (px_modules p) \<noteq> None)"

definition timer_safe :: "env \<Rightarrow> proxy \<Rightarrow> bool" where
  "timer_safe E p \<longleftrightarrow> timeouts_in_range E \<and> router_inv p \<and> exclusive p \<and> printable p \<and> staffed p \<and>
     (\<forall>k m. zh_lookup k (px_queue p) = Some m \<longrightarrow> sendable (msg_identity m))"

lemma length_remove_at: "length (concat (remove_at i xs)) \<le> length (concat xs)"
proof -
  have "length (concat (take i xs)) + length (concat (drop (Suc i) xs)) \<le> length (concat xs)"
  proof (cases "i < length xs")
    case True
    then have "concat xs = concat (take i xs) @ xs ! i @ concat (drop (Suc i) xs)"
      by (metis append_take_drop_id concat_append Cons_nth_drop_Suc concat.simps(2))
    then show ?thesis by simp
  next
    case False
    then show ?thesis by simp
  qed
  then show ?thesis by (simp add: remove_at_def)
qed

lemma map_remove_at: "map f (remove_at i xs) = remove_at i (map f xs)"
  by (simp add: remove_at_def take_map drop_map)

lemma forget_text: "length (iface_text (iface_forget byval ident i)) \<le> length (iface_text i)"
proof -
  have "length (concat (map f (zl_items (zl_remove P l)))) \<le> length (concat (map f (zl_items l)))" for f P l
    using length_remove_at by (cases "first_index P (zl_items l)") (auto simp: zl_remove_def map_remove_at)
  from add_mono [OF this [of snd "\<lambda>p. fst p = fst ident" "if_local i"]
      this [of id "\<lambda>g. byval \<and> g = snd ident" "if_global i"]]
  show ?thesis
    by (simp add: iface_text_def if_locals_def if_globals_def iface_forget_frame iface_forget_def)
qed

lemma printable_forget:
  assumes "router_inv p" and "printable p"
  shows "printable (forget_identity E ident p)"
proof -
  obtain l h where r: "iface_remove (ev_byval E) (px_ifaces p) (px_heap p) ident = (l, h)"
    by (cases "iface_remove (ev_byval E) (px_ifaces p) (px_heap p) ident")
  have wf: "wf_ifaces (px_next p) (zl_items (px_ifaces p)) (px_heap p)"
    using assms(1) by (simp add: router_inv_def)
  note R = wf_ifaces_remove [OF wf r]
  show ?thesis
    using assms(2) le_less_trans [OF forget_text] R(2,3)
    by (auto simp: forget_identity_def r printable_def)
qed

lemma printable_same: "same_frame p p' \<Longrightarrow> printable p' \<longleftrightarrow> printable p"
proof -
  assume s: "same_frame p p'"
  then have "iface_text (px_heap p' a) = iface_text (px_heap p a)" for a
    using same_lists_facts(5) [of "px_heap p a" "px_heap p' a"] by (simp add: same_frame_def same_heap_def)
  with s show ?thesis by (simp add: printable_def same_frame_def)
qed

lemma print_ifaces_returns:
  assumes "printable p"
  shows "returns (print_ifaces p)"
proof -
  let ?I = "\<lambda>s. same_frame p s"
  have "\<exists>s'. rfold print_iface (zl_items (px_ifaces p)) p = Inr s' \<and> ?I s'"
  proof (rule rfold_returns)
    fix a s assume a: "a \<in> set (zl_items (px_ifaces p))" and s: "?I s"
    have "length (iface_text (px_heap s a)) < 1024"
      using assms a s printable_same [OF s] by (simp add: printable_def same_frame_def)
    then obtain s' where "print_iface a s = Inr s'"
      by (simp add: print_iface_def iface_print_eq)
    with s print_iface_frame(1) same_frame_trans show "\<exists>s'. print_iface a s = Inr s' \<and> ?I s'" by blast
  qed simp
  then show ?thesis by (auto simp: print_ifaces_def zl_iterate_eq)
qed

lemma give_up_module_modules:
  assumes "router_inv p" and run: "give_up_module E via p = Inr p'"
  shows "\<forall>j. j \<noteq> via \<longrightarrow> zh_lookup j (px_modules p') = zh_lookup j (px_modules p)"
proof -
  obtain mo where mo: "zh_lookup via (px_modules p) = Some mo"
    using run by (auto simp: give_up_module_def split: option.splits)
  then have "snd (mo_identity mo) = via"
    using assms(1) by (simp add: router_inv_def wf_modules_def)
  with run mo show ?thesis
    by (auto simp: give_up_module_def forget_identity_def res_simps zh_lookup_delete
        dest!: print_ifaces_frame split: if_splits prod.splits)
qed

lemma give_up_module_safe:
  assumes "router_inv p" and "printable p" and "zh_lookup via (px_modules p) \<noteq> None"
  shows "\<exists>p'. give_up_module E via p = Inr p' \<and> printable p'"
proof (cases "zh_lookup via (px_modules p)")
  case None
  with assms(3) show ?thesis by simp
next
  case (Some mo)
  show ?thesis
  proof (cases "cf_debug (ev_conf E)")
    case True
    with Some assms show ?thesis by (simp add: give_up_module_def)
  next
    case False
    let ?p = "forget_identity E (mo_identity mo) (emit (To_Procman [''restart'', mo_spid mo]) p)"
    have pr: "printable ?p"
      using printable_forget [of "emit (To_Procman [''restart'', mo_spid mo]) p"] assms
      by (simp add: printable_def)
    then obtain p1 where p1: "print_ifaces ?p = Inr p1"
      using print_ifaces_returns by (auto simp: returns_iff)
    have "printable p1" using print_ifaces_frame [OF p1] printable_same pr by blast
    with p1 Some False show ?thesis by (simp add: give_up_module_def printable_def)
  qed
qed

text \<open>A module that is given up worked on the call that goes, and on no other.\<close>

lemma process_queue_item_staffed:
  assumes inv: "router_inv p" and ex: "exclusive p" and st: "staffed p"
    and k: "zh_lookup k (px_queue p) = Some m" and run: "process_queue_item E k m p = Inr (rc, p')"
  shows "staffed p'"
proof -
  obtain li lo lp where l: "expired_in E m = Inr li" "expired_out E m = Inr lo" "expired_process E m = Inr lp"
    using run by (auto simp: process_queue_item_def res_simps)
  let ?via = "the (msg_routed m)"
  obtain p1 where p1: "(if lp then give_up_module E ?via p else Inr p) = Inr p1"
    and p': "p' = p1 \<and> \<not> lp \<or> (\<exists>ob p2. send_message (Some ob) (msg_identity m) p1 = Inr p2 \<and> p' = drop_call k p2)"
    using run unfolding process_queue_item_def l rbind.simps Let_def
    by (cases lp; cases lo; cases li) (auto simp: res_simps message_exception_def)
  show ?thesis
  proof (cases lp)
    case False
    with p1 have "p1 = p" by simp
    with p' st show ?thesis
      by (auto simp: staffed_def drop_call_def zh_lookup_delete send_message_fields split: if_splits)
  next
    case True
    then have via: "works_on ?via m"
      using l(3) by (auto simp: expired_process_def works_on_def res_simps split: if_splits)
    have "\<forall>j. j \<noteq> ?via \<longrightarrow> zh_lookup j (px_modules p1) = zh_lookup j (px_modules p)"
      using p1 True give_up_module_modules [OF inv] by simp
    moreover obtain ob p2 where "send_message (Some ob) (msg_identity m) p1 = Inr p2" "p' = drop_call k p2"
      using p' True by blast
    moreover have "px_queue p1 = px_queue p"
      using p1 True give_up_module_frame by (auto split: if_splits)
    moreover have "via \<noteq> ?via" if "zh_lookup j (px_queue p) = Some x" "works_on via x" "j \<noteq> k" for j x via
      using ex that k via unfolding exclusive_def exclusive_in_def by blast
    ultimately show ?thesis using st
      by (auto simp: staffed_def drop_call_def zh_lookup_delete send_message_fields split: if_splits)
  qed
qed

lemma process_queue_item_safe:
  assumes safe: "timer_safe E p" and k: "zh_lookup k (px_queue p) = Some m"
  shows "\<exists>p'. process_queue_item E k m p = Inr (0, p') \<and> timer_safe E p'"
proof -
  have "\<exists>us. timeout_us (cf_in_timeout (ev_conf E)) = Inr us" "\<exists>us. timeout_us (cf_out_timeout (ev_conf E)) = Inr us"
    "\<exists>us. timeout_us (cf_process_timeout (ev_conf E)) = Inr us"
    using safe by (simp_all add: timer_safe_def timeouts_in_range_def timeout_us_def int_res_def)
  then have "\<exists>b. expired_in E m = Inr b" "\<exists>b. expired_out E m = Inr b" "\<exists>b. expired_process E m = Inr b"
    by (auto simp: expired_in_def expired_out_def expired_process_def)
  then obtain li lo lp where l: "expired_in E m = Inr li" "expired_out E m = Inr lo" "expired_process E m = Inr lp"
    by blast
  obtain p1 where p1: "(if lp then give_up_module E (the (msg_routed m)) p else Inr p) = Inr p1" "printable p1"
  proof (cases lp)
    case True
    then have "works_on (the (msg_routed m)) m"
      using l(3) by (auto simp: expired_process_def works_on_def res_simps split: if_splits)
    then have "zh_lookup (the (msg_routed m)) (px_modules p) \<noteq> None"
      using safe k by (auto simp: timer_safe_def staffed_def)
    with give_up_module_safe [of p "the (msg_routed m)" E] safe that True show ?thesis
      by (auto simp: timer_safe_def)
  next
    case False
    with safe that show ?thesis by (auto simp: timer_safe_def)
  qed
  have snd_ok: "returns (send_message (Some ob) (msg_identity m) p1)" for ob
    using safe k send_message_returns by (simp add: timer_safe_def sendable_def)
  have total: "\<exists>p'. process_queue_item E k m p = Inr (0, p') \<and> printable p'"
  proof -
    have T: "\<exists>p'. (case msg of None \<Rightarrow> Inr (0, p1)
      | Some ob \<Rightarrow> rbind (send_message (Some ob) (msg_identity m) p1) (\<lambda>p2. Inr (0, drop_call k p2))) = Inr (0, p') \<and>
      printable p'" for msg
    proof (cases msg)
      case None
      with p1 show ?thesis by simp
    next
      case (Some ob)
      obtain p2 where p2: "send_message (Some ob) (msg_identity m) p1 = Inr p2"
        using snd_ok [of ob] by (auto simp: returns_iff)
      have "printable (drop_call k p2)"
        using p1(2) send_message_fields [OF p2] by (simp add: printable_def drop_call_def)
      with p2 Some show ?thesis by simp
    qed
    show ?thesis
      unfolding process_queue_item_def l rbind.simps Let_def p1(1) by (rule T)
  qed
  then obtain p' where p': "process_queue_item E k m p = Inr (0, p')" "printable p'" by blast
  have "broker_ok (E\<lparr>ev_now := 1\<rparr>) p'"
    using process_queue_item_ok [of "E\<lparr>ev_now := 1\<rparr>" p E k m 0 p'] safe p'
    by (simp add: timer_safe_def broker_ok_def)
  moreover have "staffed p'"
    using process_queue_item_staffed [OF _ _ _ k p'(1)] safe by (simp add: timer_safe_def)
  moreover have "zh_lookup j (px_queue p') = Some x \<Longrightarrow> zh_lookup j (px_queue p) = Some x" for j x
    using process_queue_item_verdict [OF p'(1)]
    by (auto simp: zh_lookup_delete split: option.splits if_splits)
  ultimately have "timer_safe E p'"
    using safe p'(2) unfolding timer_safe_def by (auto simp: broker_ok_def)
  with p'(1) show ?thesis by blast
qed

text \<open>A module that is removed while it works leaves its call behind.\<close>

lemma removed_module_stale:
  assumes inv: "router_inv p" and k: "zh_lookup k (px_queue p) = Some m" and via: "works_on via m"
    and mo: "zh_lookup via (px_modules p) = Some mo"
    and run: "procman_checkpid E ''remove'' (mo_pid mo) via mo p = Inr (rc, p1)"
    and range: "timeouts_in_range E'" and late: "expired_process E' m = Inr True"
  shows "zh_lookup k (px_queue p1) = Some m \<and> process_queue_item E' k m p1 = Inl Use_After_Free"
proof -
  have id: "snd (mo_identity mo) = via"
    using inv mo by (simp add: router_inv_def wf_modules_def)
  obtain p2 where p2: "print_ifaces (forget_identity E (mo_identity mo) p) = Inr p2"
    and p1: "p1 = p2\<lparr>px_modules := zh_delete via (px_modules p2)\<rparr>"
    using run id by (auto simp: procman_checkpid_def res_simps)
  have q: "px_queue p1 = px_queue p" "zh_lookup via (px_modules p1) = None"
    using print_ifaces_frame [OF p2] p1
    by (auto simp: forget_identity_def same_frame_def zh_lookup_delete split: prod.splits)
  have "\<exists>us. timeout_us (cf_in_timeout (ev_conf E')) = Inr us" "\<exists>us. timeout_us (cf_out_timeout (ev_conf E')) = Inr us"
    using range by (simp_all add: timeouts_in_range_def timeout_us_def int_res_def)
  then have "\<exists>b. expired_in E' m = Inr b" "\<exists>b. expired_out E' m = Inr b"
    by (auto simp: expired_in_def expired_out_def)
  then obtain li lo where "expired_in E' m = Inr li" "expired_out E' m = Inr lo" by blast
  with late via q k show ?thesis
    by (simp add: process_queue_item_def give_up_module_def works_on_def Let_def)
qed

interpretation safe_timer: safe_iteration px_queue "process_queue_item E" "timer_safe E" for E
proof unfold_locales
  fix s k v rc s'
  assume s: "timer_safe E s" "zh_lookup k (px_queue s) = Some v"
  obtain p' where p': "process_queue_item E k v s = Inr (0, p')" "timer_safe E p'"
    using process_queue_item_safe [OF s] by blast
  then show "returns (process_queue_item E k v s)" by simp
  assume "process_queue_item E k v s = Inr (rc, s')"
  with p' show "timer_safe E s'" by simp
qed

lemma process_queue_returns: "timer_safe E p \<Longrightarrow> returns (process_queue E p)"
  using safe_timer.foreach_returns [of E p]
  by (auto simp: process_queue_def returns_iff)

end
