(* ===== verification/Scenario.thy ===== *)
theory Scenario
  imports Exchange Peers Placing
begin

text \<open>
  Runs of the broker, and one concrete run on which the theorems are tried: two modules
  introduce themselves, a client calls a function of the first one, the module answers, and
  a second broker appears. Frames are decoded by a table, which stands for the msgpack
  library.
\<close>

section \<open>Runs\<close>

fun run :: "world \<Rightarrow> (env \<times> event) list \<Rightarrow> proxy \<Rightarrow> proxy res" where
  "run W [] p = Inr p"
| "run W ((E, ev) # evs) p = rbind (handle W E ev p) (run W evs)"

fun run_admissible :: "world \<Rightarrow> (env \<times> event) list \<Rightarrow> proxy \<Rightarrow> bool" where
  "run_admissible W [] p = True"
| "run_admissible W ((E, ev) # evs) p =
     (admissible W E ev p \<and> (case handle W E ev p of Inl e \<Rightarrow> True | Inr p' \<Rightarrow> run_admissible W evs p'))"

lemma reach_run: "reach W p \<Longrightarrow> run_admissible W evs p \<Longrightarrow> run W evs p = Inr p' \<Longrightarrow> reach W p'"
proof (induction evs arbitrary: p)
  case Nil
  then show ?case by simp
next
  case (Cons e evs)
  obtain E ev where e: "e = (E, ev)" by (cases e)
  obtain p1 where "handle W E ev p = Inr p1" "run W evs p1 = Inr p'"
    using Cons.prems(3) by (auto simp: e res_simps)
  with Cons show ?case by (auto simp: e intro: reach.event)
qed

section \<open>A concrete world\<close>

definition demo_strhex :: "string \<Rightarrow> string" where
  "demo_strhex bs = concat (map show_hex_byte bs)"

definition introduce_obj :: mobj where
  "introduce_obj = MMap
     [(MRaw ''command'', MRaw ''introduce''),
      (MRaw ''body'', MMap
        [(MRaw ''pid'', MPos 4711), (MRaw ''name'', MRaw ''calc''), (MRaw ''desc'', MRaw ''adder''),
         (MRaw ''provides'', MMap [(MRaw ''add'', MPos 2)])]),
      (MRaw ''actionid'', MRaw ''intro-1'')]"

definition call_obj :: mobj where
  "call_obj = MMap
     [(MRaw ''command'', MRaw ''call''),
      (MRaw ''body'', MMap
        [(MRaw ''module'', MRaw ''calc''), (MRaw ''function'', MRaw ''add''), (MRaw ''version'', MPos 1)]),
      (MRaw ''actionid'', MRaw ''call-1'')]"

definition result_obj :: mobj where
  "result_obj = MMap
     [(MRaw ''command'', MRaw ''result''),
      (MRaw ''body'', MMap [(MRaw ''result'', MPos 42)]),
      (MRaw ''actionid'', MRaw ''call-1'')]"

definition demo_unpack :: "string \<Rightarrow> mobj option" where
  "demo_unpack = map_of [(''I'', introduce_obj), (''C'', call_obj), (''R'', result_obj)]"

definition demo_world :: world where
  "demo_world = \<lparr>wo_strhex = demo_strhex, wo_unpack = demo_unpack, wo_connect = (\<lambda>ep. True)\<rparr>"

definition demo_env :: "u64 \<Rightarrow> env" where
  "demo_env now = \<lparr>ev_now = now,
     ev_conf = \<lparr>cf_in_timeout = 3000, cf_out_timeout = 5000, cf_process_timeout = 10000, cf_debug = False\<rparr>,
     ev_byval = True, ev_uuid = (\<lambda>n. ''uuid-'' @ show_nat n)\<rparr>"

lemma demo_now [simp]: "ev_now (demo_env t) = t"
  by (simp add: demo_env_def)

definition worker_frame :: string where
  "worker_frame = [CHR 0x00, CHR 0xAB, CHR 0xCD, CHR 0x01, CHR 0x02]"

definition client_frame :: string where
  "client_frame = [CHR 0x00, CHR 0x11, CHR 0x22, CHR 0x33, CHR 0x44]"

lemma demo_identities:
  "demo_strhex worker_frame = ''00ABCD0102''" "demo_strhex client_frame = ''0011223344''"
  by code_simp+

lemma demo_hex_bytes:
  "hex_bytes 5 ''00ABCD0102'' = Inr worker_frame" "hex_bytes 5 ''0011223344'' = Inr client_frame"
  by code_simp+

lemma demo_show_nat: "show_nat 4711 = ''4711''" "show_nat 2 = ''2''"
  by (simp_all add: show_nat.simps digit_chars)

section \<open>The messages of the run\<close>

text \<open>With this rule \<open>simp\<close> evaluates a chain of fallible steps from the front.\<close>

lemma rbind_weak: "r = r' \<Longrightarrow> rbind r f = rbind r' f"
  by simp

lemmas reader_defs = message_check_command_def message_check_actionid_def commands_def
  message_getName_def message_getDesc_def message_getPid_def
  message_getProvides_def message_getIfVersion_def message_getModule_def message_getFunc_def
  body_string_def body_int_def message_body_def m_find_map_def key_prefix_def memcmp_key_def
  m_get_string_def m_get_int_def int_of_u64_def key_equal_def cstr_def key_bytes_def unpack_item_def
  zh_insert_def

lemma demo_received:
  "message_fromzmq demo_strhex demo_unpack t [f, ''I''] b =
     Inr (Some (accepted demo_strhex t b f introduce_obj ''introduce'' ''intro-1''))"
  "message_fromzmq demo_strhex demo_unpack t [f, ''C''] b =
     Inr (Some (accepted demo_strhex t b f call_obj ''call'' ''call-1''))"
  "message_fromzmq demo_strhex demo_unpack t [f, ''R''] b =
     Inr (Some (accepted demo_strhex t b f result_obj ''result'' ''call-1''))"
  by (simp_all add: message_fromzmq_def accepted_def message_new_def demo_unpack_def is_map_def reader_defs
      introduce_obj_def call_obj_def result_obj_def Let_def cong: rbind_weak)

lemma introduce_fields:
  assumes "msg_object m = introduce_obj"
  shows "message_getName m = Inr (Some ''calc'')" "message_getPid m = Inr 4711"
    "message_getDesc m = Inr (Some ''adder'')" "message_getProvides m = Inr (Some [(''add'', UPos 2)])"
  using assms by (simp_all add: reader_defs introduce_obj_def cong: rbind_weak)

lemma call_fields:
  assumes "msg_object m = call_obj"
  shows "message_getIfVersion m = Inr 1" "message_getModule m = Inr (Some ''calc'')"
    "message_getFunc m = Inr (Some ''add'')"
  using assms by (simp_all add: reader_defs call_obj_def cong: rbind_weak)

lemma handle_local:
  "message_fromzmq (wo_strhex W) (wo_unpack W) (ev_now E) msg True = Inr (Some m) \<Longrightarrow>
   handle W E (Local_In msg answer) p = process_command E answer m p"
  by (simp add: handle_def s_local_event_def)

lemma handle_global:
  "message_fromzmq (wo_strhex W) (wo_unpack W) (ev_now E) msg False = Inr (Some m) \<Longrightarrow>
   zh_lookup (msg_identity m) (px_fabs p) = None \<Longrightarrow>
   handle W E (Global_In msg answer) p = process_command E answer m p"
  by (simp add: handle_def s_global_event_def)

section \<open>The states of the run\<close>

definition calc_iface :: iface where
  "calc_iface = \<lparr>if_mod = ''calc'', if_func = ''add'', if_ver = 2, if_global = zl_new,
     if_local = \<lparr>zl_items = [(0, ''00ABCD0102'')], zl_cur = None\<rparr>\<rparr>"

definition worker :: module where
  "worker = \<lparr>mo_identity = (0, ''00ABCD0102''), mo_name = ''calc'', mo_desc = Some ''adder'', mo_pid = 4711,
    mo_spid = ''4711'', mo_provides = Some [(''add'', UPos 2)], mo_state = IDLE, mo_need_restart = False\<rparr>"

text \<open>After the introduction of the worker.\<close>

definition introduced :: proxy where
  "introduced = \<lparr>px_fabs = [], px_modules = [(''00ABCD0102'', worker)],
     px_ifaces = \<lparr>zl_items = [1], zl_cur = None\<rparr>,
     px_heap = (\<lambda>a. empty_iface)(1 := calc_iface), px_next = 2, px_queue = [], px_uuids = 0,
     px_out = [To_Procman [''check_pid'', ''4711''], To_Procman [''register'', ''4711'', ''calc''],
       To_Local worker_frame (the (message_response (Some ''ok'') (Some ''intro-1'')))]\<rparr>"

definition guest :: module where
  "guest = worker\<lparr>mo_state := GUEST\<rparr>"

definition introducing :: proxy where
  "introducing = proxy_new\<lparr>px_next := 1, px_out := [To_Procman [''check_pid'', ''4711'']]\<rparr>"

lemma calc_text: "length (iface_text calc_iface) < 1024"
  by (simp add: iface_text_def calc_iface_def show_int_def demo_show_nat if_locals_def if_globals_def zl_new_def)

lemmas iface_search_defs = check_interface_def zl_find_def zl_first_def zl_next_def zl_new_def
  zl_size_def zl_append_def zl_end_def iface_serves_def

lemma demo_function: "introduce_function guest [(''add'', UPos 2)] ''add'' introducing =
  Inr (introduced\<lparr>px_modules := [], px_out := px_out introducing\<rparr>)"
  using calc_text
  by (simp add: introduce_function_def provided_version_def find_or_new_iface_def iface_search_defs
      iface_new_def iface_append_local_def print_iface_def iface_print_eq iface_at_end_def proxy_new_def
      zh_lookup_def worker_def guest_def introducing_def introduced_def empty_iface_def calc_iface_def
      cong: rbind_weak)

lemma guest_eq: "\<lparr>mo_identity = (0, ''00ABCD0102''), mo_name = ''calc'', mo_desc = Some ''adder'',
    mo_pid = 4711, mo_spid = ''4711'', mo_provides = Some [(''add'', UPos 2)], mo_state = GUEST,
    mo_need_restart = False\<rparr> = guest"
  by (simp add: guest_def worker_def)

lemma introducing_eq: "px_next proxy_new = 0"
  "emit (To_Procman [''check_pid'', ''4711'']) proxy_new \<lparr>px_next := Suc 0\<rparr> = introducing"
  by (simp_all add: introducing_def emit_def proxy_new_def)

lemma demo_register: "register_module guest (accepted demo_strhex t True worker_frame introduce_obj ''introduce'' ''intro-1'')
   (introduced\<lparr>px_modules := [], px_out := px_out introducing\<rparr>) = Inr introduced"
  by (simp add: register_module_def send_message_def message_response_def introducing_def introduced_def
      guest_def worker_def demo_identities emit_def zh_lookup_def zh_insert_def zh_modify_def demo_hex_bytes Let_def)

lemma demo_introduction:
  "handle demo_world (demo_env t) (Local_In [worker_frame, ''I''] (Some ''yes'')) proxy_new = Inr introduced"
  by (subst handle_local, simp add: demo_world_def, rule demo_received)
    (simp add: process_command_def process_introduce_def introduce_fields pid_accepted_def demo_env_def
      show_int_def demo_show_nat sprintf_buf_def module_new_def Let_def demo_identities guest_eq
      introducing_eq zh_keys_def demo_function demo_register cong: rbind_weak)

text \<open>After the client's call, and after the worker's answer.\<close>

definition the_call :: "u64 \<Rightarrow> message" where
  "the_call t = call_of (accepted demo_strhex t True client_frame call_obj ''call'' ''call-1'') 1
     (Some ''calc'') (Some ''add'')"

definition placed_call :: "u64 \<Rightarrow> message" where
  "placed_call t = (the_call t)\<lparr>msg_iface := Some 1, msg_routed := Some ''00ABCD0102'', msg_proc_ts := t\<rparr>"

definition called :: "u64 \<Rightarrow> proxy" where
  "called t = introduced\<lparr>px_modules := [(''00ABCD0102'', worker\<lparr>mo_state := BUSY\<rparr>)],
     px_ifaces := \<lparr>zl_items = [1], zl_cur = Some 0\<rparr>,
     px_heap := (\<lambda>a. empty_iface)(1 := calc_iface\<lparr>if_local := \<lparr>zl_items = [(0, ''00ABCD0102'')], zl_cur = Some 0\<rparr>\<rparr>),
     px_queue := [(''call-1'', placed_call t)],
     px_out := px_out introduced @ [To_Local worker_frame call_obj]\<rparr>"

lemma demo_placing: "place_call (demo_env t) (the_call t) introduced = Inr (0, placed_call t, (called t)\<lparr>px_queue := []\<rparr>)"
  by (simp add: place_call_def the_call_def call_of_def accepted_def message_new_def assign_iface_def iface_search_defs
      introduced_def calc_iface_def copy_globals_def choose_route_def route_local_def Let_def
      try_provider_def zh_lookup_def worker_def send_routed_def send_message_def message_tomsg_def
      demo_hex_bytes emit_def zh_modify_def placed_call_def called_def demo_env_def cong: rbind_weak)

lemma demo_call:
  "handle demo_world (demo_env t) (Local_In [client_frame, ''C''] None) introduced = Inr (called t)"
proof -
  have c: "call_of (accepted demo_strhex t True client_frame call_obj ''call'' ''call-1'') 1 (Some ''calc'') (Some ''add'')
      = the_call t"
    by (simp add: the_call_def)
  have q: "zh_insert ''call-1'' (placed_call t) [] = [(''call-1'', placed_call t)]"
    "msg_actionid (placed_call t) = ''call-1''" "msg_local (placed_call t)"
    "(called t)\<lparr>px_queue := [(''call-1'', placed_call t)]\<rparr> = called t"
    by (simp_all add: zh_insert_def placed_call_def the_call_def call_of_def called_def)
  show ?thesis
    by (subst handle_local, simp add: demo_world_def demo_env_def, rule demo_received)
      (simp add: process_command_def process_call_def call_fields Let_def c [unfolded call_of_def]
        demo_placing q cong: rbind_weak)
qed

definition idle_again :: "u64 \<Rightarrow> proxy" where
  "idle_again t = (called t)\<lparr>px_modules := [(''00ABCD0102'', worker)], px_queue := [],
     px_out := px_out (called t) @ [To_Local client_frame result_obj]\<rparr>"

lemma demo_result:
  "handle demo_world (demo_env t') (Local_In [worker_frame, ''R''] None) (called t) = Inr (idle_again t)"
  by (subst handle_local, simp add: demo_world_def demo_env_def, rule demo_received)
    (simp add: process_command_def process_result_def called_def idle_again_def introduced_def placed_call_def
      the_call_def call_of_def zh_lookup_def demo_identities send_message_def message_tomsg_def demo_hex_bytes
      emit_def drop_call_def zh_delete_def release_module_def worker_def zh_modify_def place_all_def
      zh_foreach_def zh_keys_def cong: rbind_weak)

lemma admissible_local:
  "ev_now E \<noteq> 0 \<Longrightarrow> message_fromzmq (wo_strhex W) (wo_unpack W) (ev_now E) msg True = Inr (Some m) \<Longrightarrow>
   honest_answer m p \<Longrightarrow> fresh_introduction m p \<Longrightarrow> admissible W E (Local_In msg answer) p"
  by (simp add: admissible_def received_def)

lemma introduction_admissible:
  "admissible demo_world (demo_env 1) (Local_In [worker_frame, ''I''] (Some ''yes'')) proxy_new"
  by (rule admissible_local, simp add: demo_env_def, simp add: demo_world_def, rule demo_received)
    (simp_all add: honest_answer_def fresh_introduction_def in_use_def proxy_new_def)

lemma reach_introduced: "reach demo_world introduced"
  using reach.event [OF reach.start introduction_admissible demo_introduction] .

lemma call_admissible: "t \<noteq> 0 \<Longrightarrow> admissible demo_world (demo_env t) (Local_In [client_frame, ''C''] None) introduced"
  by (rule admissible_local, simp add: demo_env_def, simp add: demo_world_def, rule demo_received)
    (simp_all add: honest_answer_def fresh_introduction_def)

lemma reach_called: "t \<noteq> 0 \<Longrightarrow> reach demo_world (called t)"
  using reach.event [OF reach_introduced call_admissible demo_call] .

section \<open>A second broker\<close>

definition busy_obj :: mobj where
  "busy_obj = the (message_exception (Some ''call-1'') ''No modules found'' 111)"

definition list_obj :: mobj where
  "list_obj = MMap [(MRaw ''command'', MRaw ''result''),
     (MRaw ''body'', MMap [(MRaw ''result'', MMap [(MRaw ''IfaceList'', MArr [MRaw ''calc:add:2''])]),
        (MRaw ''seqno'', MPos 0)]),
     (MRaw ''actionid'', MRaw ''uuid-0'')]"

lemma calc_path: "iface_path calc_iface = ''calc:add:2''"
  by (simp add: iface_path_def calc_iface_def show_int_def demo_show_nat)

lemma calc_good: "good_name (if_mod calc_iface)" "good_name (if_func calc_iface)" "good_version (if_ver calc_iface)"
  by (simp_all add: good_name_def good_version_def calc_iface_def is_cstr_def)

lemma calc_good_iface: "good_iface calc_iface"
  using calc_good by (simp add: good_iface_def)

lemma demo_list:
  "message_ifacelist_response (px_ifaces introduced) (px_heap introduced) (Some ''uuid-0'') =
     Inr (Some list_obj, px_ifaces introduced)"
  using calc_path
  by (simp add: message_ifacelist_response_def zl_iterate_eq introduced_def add_iface_path_def zl_size_def
      sprintf_buf_def m_pack_raw_def zl_end_def calc_iface_def list_obj_def)

text \<open>The endpoint of the first broker, as the second one knows it.\<close>

definition far_endpoint :: string where
  "far_endpoint = ''tcp://10.0.0.7:49152''"

definition far_fabric :: fabric where
  "far_fabric = \<lparr>fb_identity = (0, far_endpoint), fb_peer = True, fb_alive = True\<rparr>"

definition far_state :: proxy where
  "far_state = proxy_new\<lparr>px_fabs := [(far_endpoint, far_fabric)], px_next := 1\<rparr>"

definition list_message :: message where
  "list_message = accepted demo_strhex 9 False far_endpoint list_obj ''result'' ''uuid-0''"

definition learnt :: proxy where
  "learnt = far_state\<lparr>px_ifaces := \<lparr>zl_items = [1], zl_cur = None\<rparr>, px_next := 2,
     px_heap := (\<lambda>a. empty_iface)(1 := calc_iface\<lparr>if_local := zl_new,
       if_global := \<lparr>zl_items = [far_endpoint], zl_cur = None\<rparr>\<rparr>)\<rparr>"

lemma far_endpoint_cstr: "is_cstr far_endpoint"
  by (simp add: far_endpoint_def is_cstr_def)

lemma introduced_ifaces:
  "zl_items (px_ifaces introduced) = [1]" "px_heap introduced 1 = calc_iface"
  "px_heap introduced (Suc 0) = calc_iface"
  "if_locals calc_iface = [''00ABCD0102'']"
  by (simp_all add: introduced_def calc_iface_def if_locals_def)

lemma list_message_simps:
  "msg_object list_message = list_obj" "msg_identity list_message = far_endpoint"
  "zh_lookup far_endpoint (px_fabs far_state) = Some far_fabric"
  using far_endpoint_cstr by (simp_all add: list_message_def far_state_def zh_lookup_def)

lemma far_inv: "router_inv far_state"
  by (simp add: router_inv_def far_state_def proxy_new_def wf_modules_def wf_fabs_def wf_ifaces_def
      wf_providers_def wf_queue_def empty_iface_def zh_lookup_def zh_wf_def zh_keys_def far_fabric_def)

lemma demo_learning: "process_ifacelist list_message far_state = Inr learnt"
proof -
  have list: "message_getIfaceList list_message = Inr (Some [''calc:add:2''])"
    by (simp add: list_message_def accepted_def message_getIfaceList_def list_obj_def reader_defs m_unpack_array_def
        uval_str_def cong: rbind_weak)
  have fits: "length (iface_text (calc_iface\<lparr>if_local := zl_new,
      if_global := \<lparr>zl_items = [far_endpoint], zl_cur = None\<rparr>\<rparr>)) < 1024"
    by (simp add: iface_text_def calc_iface_def show_int_def demo_show_nat if_locals_def if_globals_def
        zl_new_def far_endpoint_def)
  have id: "msg_identity list_message = far_endpoint"
    using far_endpoint_cstr by (simp add: list_message_def)
  have line: "learn_iface far_fabric ''calc:add:2'' far_state = Inr learnt"
    unfolding calc_path [symmetric] learn_iface_path [OF calc_good]
    using fits
    by (simp add: find_or_new_iface_def iface_search_defs iface_new_def iface_append_global_def
        print_iface_def iface_print_eq iface_at_end_def far_state_def proxy_new_def learnt_def calc_iface_def
        empty_iface_def far_fabric_def cong: rbind_weak)
  show ?thesis
    using line by (simp add: process_ifacelist_def list id, simp add: far_state_def zh_lookup_def)
qed

section \<open>Facts about the run\<close>

lemma placed_call_simps [simp]:
  "msg_local (placed_call t)" "msg_identity (placed_call t) = ''0011223344''"
  "msg_actionid (placed_call t) = ''call-1''" "msg_routed (placed_call t) = Some ''00ABCD0102''"
  "msg_proc_ts (placed_call t) = t" "msg_out_ts (placed_call t) = 0" "msg_in_ts (placed_call t) = t"
  by (simp_all add: placed_call_def the_call_def call_of_def demo_identities)

lemma called_queue: "px_queue (called t) = [(''call-1'', placed_call t)]"
  by (simp add: called_def)

lemma called_lookup [simp]: "zh_lookup k (px_queue (called t)) = (if k = ''call-1'' then Some (placed_call t) else None)"
  by (simp add: called_queue zh_lookup_def)

lemma client_sendable: "sendable ''0011223344''"
  unfolding sendable_def hex_identity_def
  by (intro disjI1 exI [of _ client_frame])
    (simp add: demo_identities(2) [unfolded demo_strhex_def, symmetric], simp add: client_frame_def)

lemma called_printable: "printable (called t)"
  using calc_text
  by (simp add: printable_def called_def iface_text_def calc_iface_def if_locals_def if_globals_def)

lemma called_staffed: "staffed (called t)"
  by (simp add: staffed_def works_on_def) (simp add: called_def zh_lookup_def)

lemma called_timer_safe:
  assumes "s \<noteq> 0"
  shows "timer_safe (demo_env t) (called s)"
  using reach_ok [OF reach_called [OF assms]] called_printable [of s] client_sendable called_staffed [of s]
  by (simp add: timer_safe_def timeouts_in_range_def demo_env_def int_range_def)

lemma late_verdict: "verdict (demo_env 10003000) (placed_call 2000) = Inr (Some (''Process timeout'', PROCESS_TIMEOUT))"
  by (simp add: verdict_def expired_in_def expired_out_def expired_process_def timeout_us_def demo_env_def
      int_res_def int_range_def u64_of_int_def getInTimeDelta_def getProcessTimeDelta_def)

definition result_message :: "u64 \<Rightarrow> message" where
  "result_message t = accepted demo_strhex t True worker_frame result_obj ''result'' ''call-1''"

lemma demo_result_handler: "process_result (demo_env t') (result_message t') (called t) = Inr (idle_again t)"
proof -
  have "handle demo_world (demo_env t') (Local_In [worker_frame, ''R''] None) (called t) =
      process_command (demo_env t') None (result_message t') (called t)"
    unfolding result_message_def
    by (rule handle_local, simp add: demo_world_def demo_env_def, rule demo_received)
  with demo_result show ?thesis by (simp add: process_command_def result_message_def)
qed

lemma the_call_simps [simp]:
  "msg_local (the_call t)" "msg_object (the_call t) = call_obj" "msg_ver (the_call t) = 1"
  "msg_routed (the_call t) = None" "msg_iface (the_call t) = None" "msg_mod (the_call t) = Some ''calc''"
  "msg_func (the_call t) = Some ''add''"
  by (simp_all add: the_call_def call_of_def)

lemma calc_serves: "iface_serves ''calc'' ''add'' 1 calc_iface"
  by (simp add: iface_serves_def calc_iface_def)

lemma call_finds: "finds (the_call t) introduced 1"
  using calc_serves by (simp add: finds_def introduced_ifaces)

lemma calc_providers:
  "zl_items (if_local (px_heap introduced 1)) = [(0, ''00ABCD0102'')]" "if_globals (px_heap introduced 1) = []"
  by (simp_all only: introduced_ifaces) (simp_all add: calc_iface_def if_globals_def)

lemma introduced_worker:
  "zh_lookup (snd (0 :: nat, ''00ABCD0102'')) (px_modules introduced) = Some worker"
  "mo_identity worker = (0, ''00ABCD0102'')" "mo_state worker = IDLE"
  by (simp_all add: introduced_def zh_lookup_def worker_def)

lemma worker_frame_hex: "concat (map show_hex_byte worker_frame) = ''00ABCD0102''" "length worker_frame = 5"
  using demo_identities(1) by (simp add: demo_strhex_def, simp add: worker_frame_def)

lemma learnt_iface: "zl_items (px_ifaces learnt) = [1]"
  "px_heap learnt 1 = calc_iface\<lparr>if_local := zl_new, if_global := \<lparr>zl_items = [far_endpoint], zl_cur = None\<rparr>\<rparr>"
  by (simp_all add: learnt_def far_state_def proxy_new_def)

lemma call_finds_learnt: "finds (the_call t) learnt 1"
  by (simp add: finds_def learnt_iface(1) del: One_nat_def)
    (simp add: learnt_iface(2) iface_serves_def calc_iface_def del: One_nat_def)

lemma learnt_providers:
  "zl_items (if_local (px_heap learnt 1)) = []" "if_globals (px_heap learnt 1) = [far_endpoint]"
  by (simp_all only: learnt_iface) (simp_all add: if_globals_def)

lemma learnt_fabs: "zh_lookup far_endpoint (px_fabs learnt) = Some far_fabric" "fb_peer far_fabric"
  "length far_endpoint = 20" "zh_lookup far_endpoint (px_modules learnt) = None"
  by (simp_all add: learnt_def far_state_def proxy_new_def zh_lookup_def far_fabric_def far_endpoint_def)

text \<open>The worker's interface, offered by the second broker, too.\<close>

definition mixed :: proxy where
  "mixed = introduced\<lparr>px_heap := (px_heap introduced)(1 :=
     calc_iface\<lparr>if_global := \<lparr>zl_items = [far_endpoint], zl_cur = None\<rparr>\<rparr>)\<rparr>"

lemma call_finds_mixed: "finds (the_call t) mixed 1"
  by (simp add: finds_def mixed_def introduced_ifaces(1) iface_serves_def calc_iface_def)

lemma mixed_providers:
  "zl_items (if_local (px_heap mixed 1)) = [(0, ''00ABCD0102'')]" "if_globals (px_heap mixed 1) = [far_endpoint]"
  "zl_cur (if_global (px_heap mixed 1)) = None" "zh_lookup far_endpoint (px_modules mixed) = None"
  by (simp_all add: mixed_def calc_iface_def if_globals_def introduced_def zh_lookup_def far_endpoint_def)

text \<open>Two workers for the same interface, of which the first is busy.\<close>

definition two_workers :: proxy where
  "two_workers = introduced\<lparr>
     px_modules := [(''00ABCD0102'', worker\<lparr>mo_state := BUSY\<rparr>),
       (''00ABCD0103'', worker\<lparr>mo_identity := (2, ''00ABCD0103'')\<rparr>)],
     px_next := 3,
     px_heap := (px_heap introduced)(1 := calc_iface\<lparr>if_local :=
       \<lparr>zl_items = [(0, ''00ABCD0102''), (2, ''00ABCD0103'')], zl_cur = None\<rparr>\<rparr>)\<rparr>"

lemma call_finds_two: "finds (the_call t) two_workers 1"
  by (simp add: finds_def two_workers_def introduced_ifaces(1) iface_serves_def calc_iface_def)

lemma two_providers:
  "zl_items (if_local (px_heap two_workers 1)) = [(0, ''00ABCD0102''), (2, ''00ABCD0103'')]"
  "if_globals (px_heap two_workers 1) = []"
  by (simp_all add: two_workers_def calc_iface_def if_globals_def zl_new_def)

lemma two_modules:
  "zh_lookup (snd (0 :: nat, ''00ABCD0102'')) (px_modules two_workers) = Some (worker\<lparr>mo_state := BUSY\<rparr>)"
  "mo_state (worker\<lparr>mo_state := BUSY\<rparr>) \<noteq> IDLE"
  by (simp_all add: two_workers_def zh_lookup_def)

definition busy_message :: message where
  "busy_message = accepted demo_strhex 7 False far_endpoint busy_obj ''exception'' ''call-1''"

lemma busy_message_simps:
  "msg_actionid busy_message = ''call-1''" "\<not> msg_local busy_message"
  "message_getExceptionCode busy_message = Inr MODULES_BUSY"
  using message_exception_read(1) [of "''call-1''" "''No modules found''" 111 busy_obj busy_message]
  by (simp_all add: busy_message_def busy_obj_def message_exception_def is_cstr_def int_range_def MODULES_BUSY_def)

text \<open>An idle worker while a call with the same action id is waiting.\<close>

definition waiting :: proxy where
  "waiting = introduced\<lparr>px_queue := [(''call-1'', the_call 4)]\<rparr>"

lemma waiting_lookup: "zh_lookup (msg_actionid (the_call t)) (px_queue waiting) = Some (the_call 4)"
  by (simp add: waiting_def zh_lookup_def the_call_def call_of_def)

lemma waiting_finds: "finds (call_of (the_call 5) 1 (Some ''calc'') (Some ''add'')) waiting 1"
  using call_finds [of 5] by (simp add: finds_def waiting_def call_of_def)

lemma waiting_providers:
  "zl_items (if_local (px_heap waiting 1)) = [(0, ''00ABCD0102'')]" "if_globals (px_heap waiting 1) = []"
  using calc_providers by (simp_all add: waiting_def)

lemma waiting_worker:
  "zh_lookup (snd (0 :: nat, ''00ABCD0102'')) (px_modules waiting) = Some worker"
  "mo_identity worker = (0, ''00ABCD0102'')" "mo_state worker = IDLE"
  using introduced_worker by (simp_all add: waiting_def)

definition silent :: proxy where
  "silent = far_state\<lparr>px_fabs := [(far_endpoint, far_fabric\<lparr>fb_alive := False\<rparr>)], px_uuids := 1,
     px_out := [To_Fabric far_endpoint (the (message_ifacelist_request (Some ''uuid-0'')))]\<rparr>"

lemma demo_poll: "get_ifacelist_event (demo_env 5) far_state = Inr silent"
proof -
  have "show_nat 0 = ''0''" by (simp add: show_nat.simps digit_chars)
  then show ?thesis
    by (simp add: get_ifacelist_event_def zh_foreach_def zh_keys_def far_state_def proxy_new_def zh_lookup_def
        get_ifacelist_item_def getActionid_def message_ifacelist_request_def far_fabric_def send_message_def
        far_endpoint_def emit_def zh_modify_def silent_def demo_env_def)
qed

lemma called_worker: "zh_lookup ''00ABCD0102'' (px_modules (called t)) = Some (worker\<lparr>mo_state := BUSY\<rparr>)"
  by (simp add: called_def zh_lookup_def)

lemma list_message_list: "message_getIfaceList list_message = Inr (Some [''calc:add:2''])"
  by (simp add: list_message_def accepted_def message_getIfaceList_def list_obj_def reader_defs m_unpack_array_def
      uval_str_def cong: rbind_weak)

end
