(* ===== verification/Lifetimes.thy ===== *)
theory Lifetimes
  imports Message_Facts
begin

text \<open>
  The memory of the objects: what the constructors of \<^verbatim>\<open>src/message.c\<close>, \<^verbatim>\<open>src/module.c\<close>, \<^verbatim>\<open>src/interface.c\<close>,
  \<^verbatim>\<open>src/fabric.c\<close>, \<^verbatim>\<open>src/process.c\<close> and \<^verbatim>\<open>src/config.c\<close> allocate and their destructors free, and what is lost when a
  received message is rejected. An object is the record of its pointers; an allocation of the
  libraries (a list, a table, the zone of an unpacked object, a frame) counts as one.
\<close>

section \<open>The heap\<close>

record memory =
  mm_live :: "nat set"
  mm_next :: nat

definition malloc :: "memory \<Rightarrow> nat \<times> memory" where
  "malloc m = (mm_next m, m\<lparr>mm_live := insert (mm_next m) (mm_live m), mm_next := Suc (mm_next m)\<rparr>)"

text \<open>Nothing happens for \<open>NULL\<close>.\<close>

definition free_ptr :: "nat option \<Rightarrow> memory \<Rightarrow> memory res" where
  "free_ptr p m =
     (case p of
        None \<Rightarrow> Inr m
      | Some a \<Rightarrow> if a \<in> mm_live m then Inr (m\<lparr>mm_live := mm_live m - {a}\<rparr>) else Inl Double_Free)"

definition free_all :: "nat option list \<Rightarrow> memory \<Rightarrow> memory res" where
  "free_all ps m = rfold free_ptr ps m"

section \<open>Messages\<close>

record message_cells =
  ms_self :: nat
  ms_object :: "nat option"
  ms_payload :: "nat option"
  ms_actionid :: "nat option"
  ms_command :: "nat option"
  ms_identity :: "nat option"
  ms_module :: "nat option"
  ms_function :: "nat option"
  ms_globals :: "nat option"

definition message_destroy :: "message_cells \<Rightarrow> memory \<Rightarrow> memory res" where
  "message_destroy c m =
     free_all [ms_object c, ms_payload c, ms_actionid c, ms_command c, ms_identity c, ms_module c, ms_function c,
       ms_globals c, Some (ms_self c)] m"

definition free_message :: "message_cells option \<Rightarrow> memory \<Rightarrow> memory res" where
  "free_message data m = (case data of None \<Rightarrow> Inr m | Some c \<Rightarrow> message_destroy c m)"

text \<open>The strings that \<open>message_check_command\<close> and \<open>message_check_actionid\<close> look at are copies.\<close>

definition command_alloc :: "mobj \<Rightarrow> memory \<Rightarrow> (nat option \<times> memory) res" where
  "command_alloc ob m =
     rbind (m_get_string (Some ob) ''command'') (\<lambda>value.
       case value of
         None \<Rightarrow> Inr (None, m)
       | Some v \<Rightarrow>
           (case malloc m of (a, m1) \<Rightarrow>
             if v \<in> set commands then Inr (Some a, m1) else rbind (log_format v) (\<lambda>_. Inr (None, m1))))"

definition actionid_alloc :: "mobj \<Rightarrow> memory \<Rightarrow> (nat option \<times> memory) res" where
  "actionid_alloc ob m =
     rbind (m_get_string (Some ob) ''actionid'') (\<lambda>value.
       case value of
         None \<Rightarrow> Inr (None, m)
       | Some v \<Rightarrow> (case malloc m of (a, m1) \<Rightarrow> Inr (if length v < 5 then None else Some a, m1)))"

definition rejected :: "message_cells \<Rightarrow> memory \<Rightarrow> (message_cells option \<times> memory) res" where
  "rejected c m = rbind (message_destroy c m) (\<lambda>m1. Inr (None, m1))"

text \<open>The steps of \<open>message_fromzmq\<close>; a message of another size is given up without the destructor.\<close>

definition message_receive :: "(string \<Rightarrow> mobj option) \<Rightarrow> string list \<Rightarrow> memory \<Rightarrow>
    (message_cells option \<times> memory) res" where
  "message_receive unpack msg m0 =
     (case malloc m0 of (self, m1) \<Rightarrow>
      let c0 = \<lparr>ms_self = self, ms_object = None, ms_payload = None, ms_actionid = None, ms_command = None,
        ms_identity = None, ms_module = None, ms_function = None, ms_globals = None\<rparr>
      in case msg of
        [identity_frame, payload_frame] \<Rightarrow>
          (case malloc m1 of (i, m2) \<Rightarrow>
           let c1 = c0\<lparr>ms_identity := Some i\<rparr> in
           if payload_frame = [] then rejected c1 m2
           else (case malloc m2 of (p, m3) \<Rightarrow>
             let c2 = c1\<lparr>ms_payload := Some p\<rparr> in
             case unpack payload_frame of
               None \<Rightarrow> rejected c2 m3
             | Some ob \<Rightarrow>
                 (case malloc m3 of (z, m4) \<Rightarrow>
                  let c3 = c2\<lparr>ms_object := Some z\<rparr> in
                  if is_map ob then
                    rbind (command_alloc ob m4) (\<lambda>(command, m5).
                      let c4 = c3\<lparr>ms_command := command\<rparr> in
                      if command = None then rejected c4 m5
                      else rbind (actionid_alloc ob m5) (\<lambda>(actionid, m6).
                        let c5 = c4\<lparr>ms_actionid := actionid\<rparr> in
                        if actionid = None then rejected c5 m6 else Inr (Some c5, m6)))
                  else rejected c3 m4)))
      | _ \<Rightarrow> Inr (None, m1))"

section \<open>The other objects\<close>

record module_cells =
  md_self :: nat
  md_name :: "nat option"
  md_identity :: "nat option"
  md_provides :: "nat option"
  md_desc :: "nat option"

definition module_alloc :: "string option \<Rightarrow> string option \<Rightarrow> memory \<Rightarrow> (module_cells option \<times> memory) res" where
  "module_alloc identity name m0 =
     (case malloc m0 of (self, m1) \<Rightarrow>
      if identity = None \<or> name = None then rbind (free_ptr (Some self) m1) (\<lambda>m2. Inr (None, m2))
      else (case malloc m1 of (i, m2) \<Rightarrow> case malloc m2 of (n, m3) \<Rightarrow>
        Inr (Some \<lparr>md_self = self, md_name = Some n, md_identity = Some i, md_provides = None, md_desc = None\<rparr>, m3)))"

text \<open>What the introduction adds: \<open>message_getDesc\<close> and \<open>message_getProvides\<close>.\<close>

definition module_describe :: "bool \<Rightarrow> bool \<Rightarrow> module_cells \<Rightarrow> memory \<Rightarrow> module_cells \<times> memory" where
  "module_describe desc provides c m =
     (let (c1, m1) = (if desc then (case malloc m of (d, m1) \<Rightarrow> (c\<lparr>md_desc := Some d\<rparr>, m1)) else (c, m)) in
      if provides then (case malloc m1 of (h, m2) \<Rightarrow> (c1\<lparr>md_provides := Some h\<rparr>, m2)) else (c1, m1))"

definition module_destroy :: "module_cells option \<Rightarrow> memory \<Rightarrow> memory res" where
  "module_destroy module m =
     (case module of
        None \<Rightarrow> Inr m
      | Some c \<Rightarrow> free_all [md_name c, md_identity c, md_provides c, md_desc c, Some (md_self c)] m)"

definition free_module :: "module_cells option \<Rightarrow> memory \<Rightarrow> memory res" where
  "free_module data m = (case data of None \<Rightarrow> Inr m | Some c \<Rightarrow> module_destroy (Some c) m)"

record iface_cells =
  ic_self :: nat
  ic_mod :: "nat option"
  ic_func :: "nat option"
  ic_globals :: "nat option"
  ic_locals :: "nat option"

definition iface_alloc :: "string option \<Rightarrow> string option \<Rightarrow> u64 \<Rightarrow> memory \<Rightarrow> iface_cells option \<times> memory" where
  "iface_alloc md func ver m0 =
     (if md = None \<or> func = None \<or> ver = 0 then (None, m0)
      else case malloc m0 of (self, m1) \<Rightarrow> case malloc m1 of (a, m2) \<Rightarrow> case malloc m2 of (b, m3) \<Rightarrow>
        case malloc m3 of (l, m4) \<Rightarrow> case malloc m4 of (g, m5) \<Rightarrow>
        (Some \<lparr>ic_self = self, ic_mod = Some a, ic_func = Some b, ic_globals = Some g, ic_locals = Some l\<rparr>, m5))"

definition iface_destroy :: "iface_cells \<Rightarrow> memory \<Rightarrow> memory res" where
  "iface_destroy c m = free_all [ic_mod c, ic_func c, ic_globals c, ic_locals c, Some (ic_self c)] m"

definition free_iface :: "iface_cells option \<Rightarrow> memory \<Rightarrow> memory res" where
  "free_iface data m = (case data of None \<Rightarrow> Inr m | Some c \<Rightarrow> iface_destroy c m)"

record fabric_cells =
  fc_self :: nat
  fc_identity :: "nat option"

text \<open>A beacon without an endpoint leaves the record behind.\<close>

definition fab_alloc :: "string \<Rightarrow> memory \<Rightarrow> fabric_cells option \<times> memory" where
  "fab_alloc msg m0 =
     (case malloc m0 of (self, m1) \<Rightarrow>
      case strtok_all (CHR ''@'') msg of
        prefix # identity # _ \<Rightarrow>
          (case malloc m1 of (i, m2) \<Rightarrow> (Some \<lparr>fc_self = self, fc_identity = Some i\<rparr>, m2))
      | _ \<Rightarrow> (None, m1))"

definition fab_destroy :: "fabric_cells \<Rightarrow> memory \<Rightarrow> memory res" where
  "fab_destroy c m = free_all [fc_identity c, Some (fc_self c)] m"

definition free_fab :: "fabric_cells option \<Rightarrow> memory \<Rightarrow> memory res" where
  "free_fab data m = (case data of None \<Rightarrow> Inr m | Some c \<Rightarrow> fab_destroy c m)"

text \<open>The module of a process belongs to the configuration and is not freed.\<close>

record process_cells =
  pc_self :: nat
  pc_name :: "nat option"

definition process_alloc :: "memory \<Rightarrow> process_cells \<times> memory" where
  "process_alloc m0 =
     (case malloc m0 of (self, m1) \<Rightarrow> case malloc m1 of (n, m2) \<Rightarrow> (\<lparr>pc_self = self, pc_name = Some n\<rparr>, m2))"

definition process_destroy :: "process_cells option \<Rightarrow> memory \<Rightarrow> memory res" where
  "process_destroy proc m =
     (case proc of None \<Rightarrow> Inr m | Some c \<Rightarrow> free_all [pc_name c, Some (pc_self c)] m)"

definition free_process :: "process_cells option \<Rightarrow> memory \<Rightarrow> memory res" where
  "free_process data m = (case data of None \<Rightarrow> Inr m | Some c \<Rightarrow> process_destroy (Some c) m)"

text \<open>The connection of a new fabric: when it fails, \<open>zhash_delete\<close> calls the destructor set before,
  and \<open>fab_destroy\<close> frees the same memory; a known fabric is freed once.\<close>

definition beacon_memory :: "bool \<Rightarrow> bool \<Rightarrow> string \<Rightarrow> memory \<Rightarrow> (fabric_cells option \<times> memory) res" where
  "beacon_memory known connected msg m =
     (case fab_alloc msg m of
        (None, m1) \<Rightarrow> Inr (None, m1)
      | (Some c, m1) \<Rightarrow>
          if known then rbind (fab_destroy c m1) (\<lambda>m2. Inr (None, m2))
          else if connected then Inr (Some c, m1)
          else rbind (free_fab (Some c) m1) (\<lambda>m2. rbind (fab_destroy c m2) (\<lambda>m3. Inr (None, m3))))"

text \<open>The configuration: the table holds the modules that have an executable; the record of one whose name is
  taken is entered nowhere. \<open>conf->conf\<close> is never set.\<close>

record config_cells =
  cc_self :: nat
  cc_modules :: "nat option"
  cc_items :: "(string \<times> nat) list"
  cc_conf :: "nat option"

definition free_mod :: "nat option \<Rightarrow> memory \<Rightarrow> memory res" where
  "free_mod data m = free_ptr data m"

definition config_module_alloc :: "string \<times> bool \<Rightarrow> (string \<times> nat) list \<times> memory \<Rightarrow> ((string \<times> nat) list \<times> memory) res" where
  "config_module_alloc x st =
     (case (x, st) of ((name, exec), (items, m)) \<Rightarrow>
      case malloc m of (a, m1) \<Rightarrow>
        if exec then Inr (if name \<in> set (map fst items) then items else items @ [(name, a)], m1)
        else rbind (free_ptr (Some a) m1) (\<lambda>m2. Inr (items, m2)))"

definition config_alloc :: "(string \<times> bool) list option \<Rightarrow> memory \<Rightarrow> (config_cells \<times> memory) res" where
  "config_alloc section_modules m0 =
     (case malloc m0 of (self, m1) \<Rightarrow>
      case section_modules of
        None \<Rightarrow> Inr (\<lparr>cc_self = self, cc_modules = None, cc_items = [], cc_conf = None\<rparr>, m1)
      | Some mods \<Rightarrow>
          (case malloc m1 of (t, m2) \<Rightarrow>
           rbind (rfold config_module_alloc mods ([], m2)) (\<lambda>(items, m3).
             Inr (\<lparr>cc_self = self, cc_modules = Some t, cc_items = items, cc_conf = None\<rparr>, m3))))"

definition config_delete :: "config_cells option \<Rightarrow> memory \<Rightarrow> memory res" where
  "config_delete conf m =
     (case conf of
        None \<Rightarrow> Inr m
      | Some c \<Rightarrow>
          rbind (rfold (\<lambda>item. free_mod (Some (snd item))) (cc_items c) m)
            (free_all [cc_modules c, cc_conf c, Some (cc_self c)]))"

section \<open>Freeing\<close>

definition memory_ok :: "memory \<Rightarrow> bool" where
  "memory_ok m \<longleftrightarrow> (\<forall>a \<in> mm_live m. a < mm_next m)"

definition somes :: "'a option list \<Rightarrow> 'a list" where
  "somes ps = List.map_filter (\<lambda>p. p) ps"

lemma somes_simps [simp]: "somes [] = []" "somes (None # ps) = somes ps" "somes (Some a # ps) = a # somes ps"
  by (simp_all add: somes_def List.map_filter_def)

lemma free_all_live:
  "distinct (somes ps) \<Longrightarrow> set (somes ps) \<subseteq> mm_live m \<Longrightarrow> free_all ps m = Inr (m\<lparr>mm_live := mm_live m - set (somes ps)\<rparr>)"
proof (induction ps arbitrary: m)
  case Nil
  then show ?case by (simp add: free_all_def)
next
  case (Cons p ps)
  show ?case
  proof (cases p)
    case None
    with Cons show ?thesis by (simp add: free_all_def free_ptr_def)
  next
    case (Some a)
    let ?m = "m\<lparr>mm_live := mm_live m - {a}\<rparr>"
    have "free_all ps ?m = Inr (?m\<lparr>mm_live := mm_live ?m - set (somes ps)\<rparr>)"
      by (rule Cons.IH) (use Cons.prems Some in auto)
    moreover have "mm_live m - {a} - set (somes ps) = mm_live m - insert a (set (somes ps))" by blast
    ultimately show ?thesis using Cons.prems Some by (simp add: free_all_def free_ptr_def)
  qed
qed

lemma malloc_simps [simp]:
  "malloc m = (mm_next m, m\<lparr>mm_live := insert (mm_next m) (mm_live m), mm_next := Suc (mm_next m)\<rparr>)"
  by (simp add: malloc_def)

text \<open>Each object is freed as a whole: the memory is as it was before.\<close>

lemma memory_fresh_Suc: "memory_ok m \<Longrightarrow> Suc (mm_next m) \<notin> mm_live m" "memory_ok m \<Longrightarrow> Suc (Suc (mm_next m)) \<notin> mm_live m"
  "memory_ok m \<Longrightarrow> Suc (Suc (Suc (mm_next m))) \<notin> mm_live m" "memory_ok m \<Longrightarrow> Suc (Suc (Suc (Suc (mm_next m)))) \<notin> mm_live m"
  "memory_ok m \<Longrightarrow> Suc (Suc (Suc (Suc (Suc (mm_next m))))) \<notin> mm_live m" "memory_ok m \<Longrightarrow> mm_next m \<notin> mm_live m"
  by (auto simp: memory_ok_def)

lemma module_freed:
  assumes "memory_ok m" and "module_alloc (Some i) (Some n) m = Inr (Some c, m1)" and "module_describe d h c m1 = (c', m2)"
  shows "\<exists>m3. free_module (Some c') m2 = Inr m3 \<and> mm_live m3 = mm_live m"
proof -
  let ?ps = "[md_name c', md_identity c', md_provides c', md_desc c', Some (md_self c')]"
  have "distinct (somes ?ps)" "set (somes ?ps) \<subseteq> mm_live m2" "mm_live m2 - set (somes ?ps) = mm_live m"
    using assms memory_fresh_Suc [OF assms(1)] by (auto simp: module_alloc_def module_describe_def Let_def split: if_splits)
  with free_all_live [of ?ps m2] show ?thesis by (simp add: free_module_def module_destroy_def)
qed

lemma iface_freed:
  assumes "memory_ok m" and "iface_alloc md f v m = (Some c, m1)"
  shows "\<exists>m2. free_iface (Some c) m1 = Inr m2 \<and> mm_live m2 = mm_live m"
proof -
  let ?ps = "[ic_mod c, ic_func c, ic_globals c, ic_locals c, Some (ic_self c)]"
  have "distinct (somes ?ps)" "set (somes ?ps) \<subseteq> mm_live m1" "mm_live m1 - set (somes ?ps) = mm_live m"
    using assms memory_fresh_Suc [OF assms(1)] by (auto simp: iface_alloc_def split: if_splits)
  with free_all_live [of ?ps m1] show ?thesis by (simp add: free_iface_def iface_destroy_def)
qed

lemma fabric_freed:
  assumes "memory_ok m" and "fab_alloc msg m = (Some c, m1)"
  shows "\<exists>m2. free_fab (Some c) m1 = Inr m2 \<and> mm_live m2 = mm_live m" "\<not> returns (rbind (free_fab (Some c) m1) (fab_destroy c))"
proof -
  let ?ps = "[fc_identity c, Some (fc_self c)]"
  have c: "distinct (somes ?ps)" "set (somes ?ps) \<subseteq> mm_live m1" "mm_live m1 - set (somes ?ps) = mm_live m" "fc_self c \<notin> mm_live m"
    using assms memory_fresh_Suc [OF assms(1)] by (auto simp: fab_alloc_def split: list.splits)
  have f: "free_fab (Some c) m1 = Inr (m1\<lparr>mm_live := mm_live m\<rparr>)"
    using free_all_live [OF c(1,2)] c(3) by (simp add: free_fab_def fab_destroy_def)
  then show "\<exists>m2. free_fab (Some c) m1 = Inr m2 \<and> mm_live m2 = mm_live m" by simp
  show "\<not> returns (rbind (free_fab (Some c) m1) (fab_destroy c))"
    using f c(4) by (cases "fc_identity c") (auto simp: fab_destroy_def free_all_def free_ptr_def)
qed

lemma process_freed:
  assumes "memory_ok m" and "process_alloc m = (c, m1)"
  shows "\<exists>m2. free_process (Some c) m1 = Inr m2 \<and> mm_live m2 = mm_live m"
proof -
  let ?ps = "[pc_name c, Some (pc_self c)]"
  have "distinct (somes ?ps)" "set (somes ?ps) \<subseteq> mm_live m1" "mm_live m1 - set (somes ?ps) = mm_live m"
    using assms memory_fresh_Suc [OF assms(1)] by (auto simp: process_alloc_def)
  with free_all_live [of ?ps m1] show ?thesis by (simp add: free_process_def process_destroy_def)
qed

text \<open>A configuration whose modules have different names is freed as a whole.\<close>

definition config_items_ok :: "nat set \<Rightarrow> (string \<times> nat) list \<times> memory \<Rightarrow> bool" where
  "config_items_ok base st \<longleftrightarrow> (case st of (items, m) \<Rightarrow>
     memory_ok m \<and> mm_live m = base \<union> snd ` set items \<and> distinct (map snd items) \<and> base \<inter> snd ` set items = {})"

lemma config_module_ok:
  assumes "config_items_ok base (items, m)" and "fst x \<notin> set (map fst items)"
    and "config_module_alloc x (items, m) = Inr (items', m')"
  shows "config_items_ok base (items', m') \<and> set (map fst items') \<subseteq> insert (fst x) (set (map fst items))"
proof -
  have ok: "memory_ok m" "mm_live m = base \<union> snd ` set items" "distinct (map snd items)" "base \<inter> snd ` set items = {}"
    using assms(1) by (simp_all add: config_items_ok_def)
  have fresh: "mm_next m \<notin> base \<union> snd ` set items" using memory_fresh_Suc(6) [OF ok(1)] ok(2) by simp
  have next': "memory_ok (m\<lparr>mm_live := insert (mm_next m) (mm_live m), mm_next := Suc (mm_next m)\<rparr>)"
      "memory_ok (m\<lparr>mm_live := mm_live m, mm_next := Suc (mm_next m)\<rparr>)"
    using ok(1) by (auto simp: memory_ok_def less_Suc_eq)
  show ?thesis
  proof (cases "snd x")
    case True
    with assms(2,3) have "items' = items @ [(fst x, mm_next m)]"
        "m' = m\<lparr>mm_live := insert (mm_next m) (mm_live m), mm_next := Suc (mm_next m)\<rparr>"
      by (auto simp: config_module_alloc_def split: prod.splits)
    with ok fresh next'(1) show ?thesis by (auto simp: config_items_ok_def)
  next
    case False
    have "insert (mm_next m) (mm_live m) - {mm_next m} = mm_live m" using fresh ok(2) by auto
    with False assms(3) have "items' = items" "m' = m\<lparr>mm_live := mm_live m, mm_next := Suc (mm_next m)\<rparr>"
      by (auto simp: config_module_alloc_def free_ptr_def split: prod.splits)
    with ok next'(2) show ?thesis by (auto simp: config_items_ok_def)
  qed
qed

lemma config_modules_ok:
  assumes "rfold config_module_alloc mods (items, m) = Inr (items', m')" and "config_items_ok base (items, m)"
    and "distinct (map fst mods)" and "set (map fst mods) \<inter> set (map fst items) = {}"
  shows "config_items_ok base (items', m')"
  using assms
proof (induction mods arbitrary: items m)
  case Nil
  then show ?case by simp
next
  case (Cons x mods)
  obtain items1 m1 where x: "config_module_alloc x (items, m) = Inr (items1, m1)"
    and rest: "rfold config_module_alloc mods (items1, m1) = Inr (items', m')"
    using Cons.prems(1) by (auto simp: res_simps)
  have one: "config_items_ok base (items1, m1)" "set (map fst items1) \<subseteq> insert (fst x) (set (map fst items))"
    using config_module_ok [OF Cons.prems(2) _ x] Cons.prems(4) by auto
  have names: "fst x \<notin> set (map fst mods)" "distinct (map fst mods)" "set (map fst mods) \<inter> set (map fst items) = {}"
    using Cons.prems(3,4) by auto
  then have "set (map fst mods) \<inter> set (map fst items1) = {}" using one(2) by blast
  then show ?case by (rule Cons.IH [OF rest one(1) names(2)])
qed

lemma free_items: "rfold (\<lambda>item. free_mod (Some (snd item))) items = free_all (map (\<lambda>item. Some (snd item)) items)"
proof (induction items)
  case (Cons item items)
  then show ?case by (intro ext) (simp add: free_all_def free_mod_def)
qed (simp add: free_all_def fun_eq_iff)

lemma free_all_append: "free_all (ps @ qs) = (\<lambda>m. rbind (free_all ps m) (free_all qs))"
proof (induction ps)
  case (Cons p ps)
  then show ?case by (intro ext) (simp add: free_all_def rbind_assoc)
qed (simp add: free_all_def fun_eq_iff)

lemma somes_items [simp]: "somes (map (\<lambda>item. Some (snd item)) items @ ps) = map snd items @ somes ps"
  by (induction items) auto

lemma config_freed:
  assumes "memory_ok m" and "config_alloc section_modules m = Inr (c, m1)"
    and names: "\<And>mods. section_modules = Some mods \<Longrightarrow> distinct (map fst mods)"
  shows "\<exists>m2. config_delete (Some c) m1 = Inr m2 \<and> mm_live m2 = mm_live m"
proof -
  let ?ps = "map (\<lambda>item. Some (snd item)) (cc_items c) @ [cc_modules c, cc_conf c, Some (cc_self c)]"
  have "distinct (somes ?ps) \<and> set (somes ?ps) \<subseteq> mm_live m1 \<and> mm_live m1 - set (somes ?ps) = mm_live m"
  proof (cases section_modules)
    case None
    with assms memory_fresh_Suc [OF assms(1)] show ?thesis by (auto simp: config_alloc_def)
  next
    case (Some mods)
    let ?base = "insert (Suc (mm_next m)) (insert (mm_next m) (mm_live m))"
    let ?m2 = "\<lparr>mm_live = ?base, mm_next = Suc (Suc (mm_next m))\<rparr>"
    obtain items where r: "rfold config_module_alloc mods ([], ?m2) = Inr (items, m1)"
      and c: "c = \<lparr>cc_self = mm_next m, cc_modules = Some (Suc (mm_next m)), cc_items = items, cc_conf = None\<rparr>"
      using assms(2) Some by (cases m) (auto simp: config_alloc_def res_simps)
    have "config_items_ok ?base ([], ?m2)"
      using assms(1) by (auto simp: config_items_ok_def memory_ok_def less_Suc_eq)
    from config_modules_ok [OF r this names [OF Some]] have ok: "config_items_ok ?base (items, m1)" by simp
    with memory_fresh_Suc [OF assms(1)] show ?thesis
      unfolding c config_items_ok_def by auto
  qed
  with free_all_live [of ?ps m1] show ?thesis by (simp add: config_delete_def free_items free_all_append)
qed

section \<open>Received messages\<close>

text \<open>A copy of a string that was not accepted is lost, and the record of a message of another size.\<close>

definition lost_cells :: "(string \<Rightarrow> mobj option) \<Rightarrow> string list \<Rightarrow> nat" where
  "lost_cells unpack msg =
     (case msg of
        [f1, f2] \<Rightarrow>
          if f2 = [] then 0
          else (case unpack f2 of
              None \<Rightarrow> 0
            | Some ob \<Rightarrow>
                if \<not> is_map ob then 0
                else (case m_get_string (Some ob) ''command'' of
                    Inr (Some v) \<Rightarrow>
                      if v \<notin> set commands then 1
                      else (case m_get_string (Some ob) ''actionid'' of
                          Inr (Some a) \<Rightarrow> if length a < 5 then 1 else 0
                        | _ \<Rightarrow> 0)
                  | _ \<Rightarrow> 0))
      | _ \<Rightarrow> 1)"

definition message_ptrs :: "message_cells \<Rightarrow> nat option list" where
  "message_ptrs c = [ms_object c, ms_payload c, ms_actionid c, ms_command c, ms_identity c, ms_module c, ms_function c,
     ms_globals c, Some (ms_self c)]"

lemma rejected_live:
  "distinct (somes (message_ptrs c)) \<Longrightarrow> set (somes (message_ptrs c)) \<subseteq> mm_live m \<Longrightarrow>
   rejected c m = Inr (None, m\<lparr>mm_live := mm_live m - set (somes (message_ptrs c))\<rparr>)"
  using free_all_live [of "message_ptrs c" m] by (simp add: rejected_def message_destroy_def message_ptrs_def)

text \<open>The memory after a message was looked at: nothing is lost of one that is accepted and freed later.\<close>

definition kept_or_lost :: "(string \<Rightarrow> mobj option) \<Rightarrow> string list \<Rightarrow> memory \<Rightarrow> message_cells option \<Rightarrow> memory \<Rightarrow> bool" where
  "kept_or_lost unpack msg m r m' \<longleftrightarrow>
     (case r of
        Some c \<Rightarrow> \<exists>m''. free_message (Some c) m' = Inr m'' \<and> mm_live m'' = mm_live m
      | None \<Rightarrow> mm_live m \<subseteq> mm_live m' \<and> card (mm_live m' - mm_live m) = lost_cells unpack msg)"

lemma kept:
  assumes "distinct (somes (message_ptrs c))" and "mm_live m' - set (somes (message_ptrs c)) = mm_live m"
    and "set (somes (message_ptrs c)) \<subseteq> mm_live m'"
  shows "kept_or_lost unpack msg m (Some c) m'"
  using free_all_live [OF assms(1,3)] assms(2)
  by (simp add: kept_or_lost_def free_message_def message_destroy_def message_ptrs_def)

lemma insert_lost: "a \<notin> A \<Longrightarrow> A \<subseteq> insert a A \<and> card (insert a A - A) = 1"
  by (auto simp: insert_Diff_if)

text \<open>The cells up to the zone of the unpacked object, and the memory then.\<close>

definition unpacked_cells :: "nat \<Rightarrow> message_cells" where
  "unpacked_cells n = \<lparr>ms_self = n, ms_object = Some (Suc (Suc (Suc n))), ms_payload = Some (Suc (Suc n)), ms_actionid = None,
     ms_command = None, ms_identity = Some (Suc n), ms_module = None, ms_function = None, ms_globals = None\<rparr>"

definition unpacked_memory :: "memory \<Rightarrow> memory" where
  "unpacked_memory m = m\<lparr>mm_live := {mm_next m, Suc (mm_next m), Suc (Suc (mm_next m)), Suc (Suc (Suc (mm_next m)))} \<union> mm_live m,
     mm_next := Suc (Suc (Suc (Suc (mm_next m))))\<rparr>"

lemma message_receive_map:
  assumes "f2 \<noteq> []" and "unpack f2 = Some ob" and "is_map ob"
  shows "message_receive unpack [f1, f2] m =
    rbind (command_alloc ob (unpacked_memory m)) (\<lambda>(command, m5).
      let c4 = (unpacked_cells (mm_next m))\<lparr>ms_command := command\<rparr> in
      if command = None then rejected c4 m5
      else rbind (actionid_alloc ob m5) (\<lambda>(actionid, m6).
        let c5 = c4\<lparr>ms_actionid := actionid\<rparr> in
        if actionid = None then rejected c5 m6 else Inr (Some c5, m6)))"
  using assms by (simp add: message_receive_def unpacked_cells_def unpacked_memory_def Let_def insert_commute cong: if_cong)

text \<open>Rejecting then leaves exactly what is not in the record.\<close>

lemma rejected_unpacked:
  assumes ok: "memory_ok m" and c: "c = (unpacked_cells (mm_next m))\<lparr>ms_command := cmd\<rparr>"
    and cmd: "cmd = None \<or> cmd = Some (mm_next (unpacked_memory m))"
    and m5: "mm_live m5 = mm_live (unpacked_memory m) \<union> set (somes [cmd]) \<union> L" and L: "L \<inter> mm_live m = {}"
      "\<forall>a \<in> L. mm_next (unpacked_memory m) < a \<or> cmd = None \<and> mm_next (unpacked_memory m) \<le> a"
  shows "\<exists>m'. rejected c m5 = Inr (None, m') \<and> mm_live m' = mm_live m \<union> L"
proof -
  note fresh = memory_fresh_Suc [OF ok]
  have "distinct (somes (message_ptrs c))"
    using cmd by (auto simp: c message_ptrs_def unpacked_cells_def unpacked_memory_def)
  moreover have "set (somes (message_ptrs c)) \<subseteq> mm_live m5"
    using cmd by (auto simp: c m5 message_ptrs_def unpacked_cells_def unpacked_memory_def)
  moreover have "mm_live m5 - set (somes (message_ptrs c)) = mm_live m \<union> L"
    using cmd fresh L(2) by (auto simp: c m5 message_ptrs_def unpacked_cells_def unpacked_memory_def)
  ultimately show ?thesis using rejected_live [of c m5] by simp
qed

lemma message_receive_memory:
  assumes ok: "memory_ok m" and acc: "message_fromzmq strhex unpack now msg local = Inr x"
  shows "\<exists>r m'. message_receive unpack msg m = Inr (r, m') \<and> (r = None \<longleftrightarrow> x = None) \<and> kept_or_lost unpack msg m r m'"
proof -
  note fresh = memory_fresh_Suc [OF ok]
  let ?n = "mm_next m"
  consider (size) "length msg \<noteq> 2" | (early) f1 f2 where "msg = [f1, f2]" "f2 = [] \<or> unpack f2 = None"
    | (no_map) f1 f2 ob where "msg = [f1, f2]" "f2 \<noteq> []" "unpack f2 = Some ob" "\<not> is_map ob"
    | (map) f1 f2 ob where "msg = [f1, f2]" "f2 \<noteq> []" "unpack f2 = Some ob" "is_map ob"
    by (cases msg rule: remdups_adj.cases) (auto simp: length_Suc_conv)
  then show ?thesis
  proof cases
    case size
    then have "message_receive unpack msg m = Inr (None, m\<lparr>mm_live := insert ?n (mm_live m), mm_next := Suc ?n\<rparr>)"
      "lost_cells unpack msg = 1" "x = None"
      using acc by (auto simp: message_receive_def lost_cells_def message_fromzmq_def Let_def split: list.splits)
    with insert_lost [OF fresh(6)] show ?thesis by (simp add: kept_or_lost_def)
  next
    case early
    then have "x = None" "lost_cells unpack msg = 0"
      using acc by (auto simp: message_fromzmq_def lost_cells_def split: if_splits)
    moreover have "\<exists>m'. message_receive unpack msg m = Inr (None, m') \<and> mm_live m' = mm_live m"
      using early fresh
      by (auto simp: message_receive_def rejected_live message_ptrs_def Let_def split: if_splits)
    ultimately show ?thesis by (auto simp: kept_or_lost_def)
  next
    case no_map
    then have "x = None" "lost_cells unpack msg = 0"
      using acc by (auto simp: message_fromzmq_def lost_cells_def)
    moreover have "\<exists>m'. message_receive unpack msg m = Inr (None, m') \<and> mm_live m' = mm_live m"
      using no_map fresh
      by (auto simp: message_receive_def rejected_live message_ptrs_def Let_def)
    ultimately show ?thesis by (auto simp: kept_or_lost_def)
  next
    case map
    note R = message_receive_map [where unpack = unpack, OF map(2-4), of f1 m]
    let ?u = "unpacked_memory m" and ?c = "unpacked_cells ?n"
    let ?N = "mm_next ?u"
    have new: "?N \<notin> mm_live m" "Suc ?N \<notin> mm_live m" using fresh by (simp_all add: unpacked_memory_def)
    have same: "?c\<lparr>ms_command := None\<rparr> = ?c" by (simp add: unpacked_cells_def)
    obtain v where v: "m_get_string (Some ob) ''command'' = Inr v"
      using acc map by (auto simp: message_fromzmq_def message_check_command_def res_simps)
    show ?thesis
    proof (cases v)
      case None
      then have x: "x = None" "lost_cells unpack msg = 0"
        using acc map v by (auto simp: message_fromzmq_def message_check_command_def lost_cells_def)
      obtain m' where "rejected (?c\<lparr>ms_command := None\<rparr>) ?u = Inr (None, m')" "mm_live m' = mm_live m \<union> {}"
        using rejected_unpacked [OF ok refl, of None ?u "{}"] by auto
      with x map R v None show ?thesis by (simp add: command_alloc_def kept_or_lost_def)
    next
      case (Some s)
      let ?m5 = "?u\<lparr>mm_live := insert ?N (mm_live ?u), mm_next := Suc ?N\<rparr>"
      show ?thesis
      proof (cases "s \<in> set commands")
        case False
        then have x: "x = None" "lost_cells unpack msg = 1" "log_format s = Inr ()"
          using acc map v Some by (auto simp: message_fromzmq_def message_check_command_def lost_cells_def res_simps)
        obtain m' where "rejected (?c\<lparr>ms_command := None\<rparr>) ?m5 = Inr (None, m')" "mm_live m' = mm_live m \<union> {?N}"
          using rejected_unpacked [OF ok refl, of None ?m5 "{?N}"] new by auto
        with x map R v Some False insert_lost [OF new(1)] show ?thesis by (simp add: command_alloc_def kept_or_lost_def)
      next
        case True
        have ca: "command_alloc ob ?u = Inr (Some ?N, ?m5)" using v Some True by (simp add: command_alloc_def)
        let ?c4 = "?c\<lparr>ms_command := Some ?N\<rparr>"
        obtain a where a: "m_get_string (Some ob) ''actionid'' = Inr a"
          using acc map v Some True by (auto simp: message_fromzmq_def message_check_command_def message_check_actionid_def res_simps)
        show ?thesis
        proof (cases a)
          case None
          then have x: "x = None" "lost_cells unpack msg = 0"
            using acc map v Some True a
            by (auto simp: message_fromzmq_def message_check_command_def message_check_actionid_def lost_cells_def)
          obtain m' where "rejected ?c4 ?m5 = Inr (None, m')" "mm_live m' = mm_live m \<union> {}"
            using rejected_unpacked [OF ok refl, of "Some ?N" ?m5 "{}"] by auto
          with x map R ca a None show ?thesis by (simp add: actionid_alloc_def unpacked_cells_def kept_or_lost_def)
        next
          case (Some t)
          let ?m6 = "?m5\<lparr>mm_live := insert (Suc ?N) (mm_live ?m5), mm_next := Suc (Suc ?N)\<rparr>"
          show ?thesis
          proof (cases "length t < 5")
            case True
            then have x: "x = None" "lost_cells unpack msg = 1"
              using acc map v \<open>v = Some s\<close> \<open>s \<in> set commands\<close> a Some
              by (auto simp: message_fromzmq_def message_check_command_def message_check_actionid_def lost_cells_def)
            obtain m' where "rejected ?c4 ?m6 = Inr (None, m')" "mm_live m' = mm_live m \<union> {Suc ?N}"
              using rejected_unpacked [OF ok refl, of "Some ?N" ?m6 "{Suc ?N}"] new by auto
            with x map R ca a Some True insert_lost [OF new(2)] show ?thesis
              by (simp add: actionid_alloc_def unpacked_cells_def kept_or_lost_def)
          next
            case False
            let ?c5 = "?c4\<lparr>ms_actionid := Some (Suc ?N)\<rparr>"
            have x: "x \<noteq> None"
              using acc map v \<open>v = Some s\<close> \<open>s \<in> set commands\<close> a Some False
              by (auto simp: message_fromzmq_def message_check_command_def message_check_actionid_def)
            have "kept_or_lost unpack msg m (Some ?c5) ?m6"
              by (rule kept) (use fresh in \<open>auto simp: message_ptrs_def unpacked_cells_def unpacked_memory_def\<close>)
            with x map R ca a Some False show ?thesis by (simp add: actionid_alloc_def)
          qed
        qed
      qed
    qed
  qed
qed

end
