(* ===== verification/Data_Properties.thy ===== *)
theory Data_Properties
  imports Exchange Placing Peers Scenario Lifetimes
begin

text \<open>
  The properties of the data the broker works on: unpacked objects, received and built
  messages, interfaces and their lists.
\<close>

section \<open>Messages\<close>

text \<open>C27: A received message is handed on only if it has two frames, the second decodes to a map,
  its command is one of the eight known ones and its action id has at least five characters;
  the message then carries that object, the sender's identity (in hexadecimal for a local
  peer) and no routing state.\<close>

theorem message_accepted:
  assumes "message_fromzmq strhex unpack now msg local = Inr (Some m)"
  shows "\<exists>f1 f2 c. msg = [f1, f2] \<and> f2 \<noteq> [] \<and> unpack f2 = Some (msg_object m) \<and> is_map (msg_object m) \<and>
    msg_command m = Some c \<and> c \<in> set commands \<and> 5 \<le> length (msg_actionid m) \<and>
    msg_identity m = (if local then strhex f1 else cstr f1) \<and> msg_local m = local \<and>
    msg_in_ts m = now \<and> unplaced m"
  using assms
proof (cases rule: message_fromzmq_Some)
  case (1 f1 f2 ob c a)
  then show ?thesis
    using check_command_commands [OF 1(5)] check_actionid_length [OF 1(6)] by (simp add: unplaced_def)
qed

theorem message_accepted_witness:
  "\<exists>f1 f2 c. [worker_frame, ''C''] = [f1, f2] \<and> f2 \<noteq> [] \<and> demo_unpack f2 = Some call_obj \<and> is_map call_obj \<and>
    c \<in> set commands"
  using message_accepted [OF demo_received(2) [of 7 worker_frame True]] by auto

text \<open>C28: An exception the broker builds is accepted as a message by a broker that receives it,
  and reads back as the same code and the same text.\<close>

theorem exception_roundtrip:
  assumes "message_exception (Some aid) txt code = Some ob" and "is_cstr txt" and "int_range code"
    and "is_cstr aid" and "5 \<le> length aid" and "unpack payload = Some ob" and "payload \<noteq> []"
  shows "\<exists>m. message_fromzmq strhex unpack now [sender, payload] local = Inr (Some m) \<and>
    msg_command m = Some ''exception'' \<and> msg_actionid m = aid \<and>
    message_getExceptionCode m = Inr code \<and> message_getExceptionString m = Inr (Some txt)"
proof -
  have "is_map ob" using assms(1) by (auto simp: message_exception_def is_map_def)
  then have "message_fromzmq strhex unpack now [sender, payload] local =
      Inr (Some (accepted strhex now local sender ob ''exception'' aid))"
    using message_exception_accepted [OF assms(1,4,5)] assms(6,7) by (simp add: message_fromzmq_two)
  with message_exception_read [OF assms(1) _ assms(2,3), of "accepted strhex now local sender ob ''exception'' aid"]
  show ?thesis by simp
qed

theorem exception_roundtrip_witness:
  "\<exists>m. message_fromzmq demo_strhex (\<lambda>_. Some busy_obj) 5 [worker_frame, ''X''] False = Inr (Some m) \<and>
    msg_command m = Some ''exception'' \<and> msg_actionid m = ''call-1'' \<and>
    message_getExceptionCode m = Inr 111 \<and> message_getExceptionString m = Inr (Some ''No modules found'')"
  by (rule exception_roundtrip)
    (simp_all add: busy_obj_def message_exception_def is_cstr_def int_range_def)

text \<open>C29: The interface list a broker sends contains one line for every interface that has a
  local provider, in order, and none else; the reader of the list gets exactly these lines.\<close>

theorem interface_list_roundtrip:
  assumes "message_ifacelist_response ifaces h (Some aid) = Inr (Some ob, l)" and "msg_object m = ob"
    and "\<And>a. a \<in> set (zl_items ifaces) \<Longrightarrow> is_cstr (iface_path (h a))"
  shows "message_getIfaceList m =
    Inr (Some (map (\<lambda>a. iface_path (h a)) (filter (\<lambda>a. if_locals (h a) \<noteq> []) (zl_items ifaces))))"
  using message_ifacelist_read [OF assms] by (simp add: offered_def)

theorem interface_list_roundtrip_witness:
  "message_getIfaceList (the_call 1\<lparr>msg_object := list_obj\<rparr>) = Inr (Some [''calc:add:2''])"
  by (subst interface_list_roundtrip [OF demo_list])
    (simp_all add: introduced_def calc_path is_cstr_def, simp add: calc_iface_def if_locals_def)

text \<open>A line of the list, cut at the colons and its version read as a number, gives back the
  module, the function and the version it was printed from, for names without colons and
  versions that fit into an \<open>int\<close>: learning a line is finding or creating that interface and
  entering the fabric there.\<close>

theorem interface_line_roundtrip:
  assumes "good_name (if_mod i)" and "good_name (if_func i)" and "good_version (if_ver i)"
  shows "learn_iface fab (iface_path i) p =
    rbind (find_or_new_iface (if_mod i) (if_func i) (if_ver i) p) (\<lambda>(a, p1).
      print_iface a (p1\<lparr>px_heap := (px_heap p1)(a :=
        snd (iface_append_global (px_heap p1 a) (snd (fb_identity fab))))\<rparr>))"
  using iface_path_parse [OF assms] by (simp add: learn_iface_def)

theorem interface_line_roundtrip_witness:
  "learn_iface far_fabric ''calc:add:2'' proxy_new =
    rbind (find_or_new_iface ''calc'' ''add'' 2 proxy_new) (\<lambda>(a, p1).
      print_iface a (p1\<lparr>px_heap := (px_heap p1)(a := snd (iface_append_global (px_heap p1 a) far_endpoint))\<rparr>))"
  using interface_line_roundtrip [OF calc_good, of far_fabric proxy_new]
  by (simp add: calc_path, simp add: calc_iface_def far_fabric_def)

text \<open>C14: What one broker offers, another one learns: after the second broker has processed the
  interface list of the first, every interface of the first that has a local provider is
  served by an interface of the second that lists the first as a provider.\<close>

theorem interface_exchange:
  assumes "message_ifacelist_response (px_ifaces pA) (px_heap pA) (Some aid) = Inr (Some ob, l)"
    and "\<And>a. a \<in> set (zl_items (px_ifaces pA)) \<Longrightarrow> good_iface (px_heap pA a)"
    and "msg_object m = ob" and "zh_lookup (msg_identity m) (px_fabs pB) = Some fab"
    and "router_inv pB" and "process_ifacelist m pB = Inr pB'"
    and "a \<in> set (zl_items (px_ifaces pA))" and "if_locals (px_heap pA a) \<noteq> []"
  shows "\<exists>b \<in> set (zl_items (px_ifaces pB')).
    iface_serves (if_mod (px_heap pA a)) (if_func (px_heap pA a)) (if_ver (px_heap pA a)) (px_heap pB' b) \<and>
    msg_identity m \<in> set (if_globals (px_heap pB' b))"
  using exchange [OF assms] by (simp add: known_at_def)

theorem interface_exchange_witness:
  "\<exists>b \<in> set (zl_items (px_ifaces learnt)). iface_serves ''calc'' ''add'' 2 (px_heap learnt b) \<and>
    far_endpoint \<in> set (if_globals (px_heap learnt b))"
  using interface_exchange [OF demo_list _ list_message_simps(1) _ far_inv demo_learning, of far_fabric 1]
  by (simp only: introduced_ifaces list_message_simps)
    (simp add: introduced_ifaces calc_good_iface, simp add: calc_iface_def)

section \<open>Identities and interfaces\<close>

text \<open>The identity a local message is given is an address: an answer sent to it goes to the
  very frame the message came from, for the five-byte identities of ZeroMQ.\<close>

theorem local_address_roundtrip:
  assumes "\<And>bs. strhex bs = concat (map show_hex_byte bs)" and "length frame = 5"
    and "message_fromzmq strhex unpack now [frame, payload] True = Inr (Some m)"
  shows "send_message (Some ob) (msg_identity m) p = Inr (emit (To_Local frame ob) p)"
  using assms(3)
proof (cases rule: message_fromzmq_Some)
  case (1 f1 f2 ob' c a)
  then have "msg_identity m = concat (map show_hex_byte frame)" using assms(1) by simp
  then show ?thesis using send_message_local [OF assms(2)] by simp
qed

theorem local_address_roundtrip_witness:
  "send_message (Some result_obj) ''0011223344'' proxy_new = Inr (emit (To_Local client_frame result_obj) proxy_new)"
  using local_address_roundtrip [of demo_strhex client_frame, OF demo_strhex_def _ demo_received(2) [of 7 client_frame True]]
  by (simp add: client_frame_def [THEN arg_cong [where f = length]] demo_identities)

text \<open>A lookup finds the first interface of the list that has the module's name, the function
  and at least the version asked for, and none if there is no such interface; it moves the
  cursor of the list and changes nothing else.\<close>

theorem lookup_first_match:
  "\<exists>l. zl_items l = zl_items (px_ifaces p) \<and>
     check_interface (Some md) (Some func) ver p =
       Inr (find (\<lambda>a. if_mod (px_heap p a) = md \<and> if_func (px_heap p a) = func \<and> ver \<le> if_ver (px_heap p a))
              (zl_items (px_ifaces p)), p\<lparr>px_ifaces := l\<rparr>)"
  using check_interface_eq [of p md func ver] by (simp add: iface_serves_def)

text \<open>C30: The loop of \<open>iface_remove\<close>, which unlinks interfaces from the list it walks along, takes
  the identity off every interface and keeps exactly the interfaces that still have a
  provider, in their order.\<close>

theorem remove_is_filter:
  assumes "distinct (zl_items ifaces)"
  shows "iface_remove byval ifaces h ident =
    (\<lparr>zl_items = filter (\<lambda>a. \<not> iface_unused (iface_forget byval ident (h a))) (zl_items ifaces), zl_cur = None\<rparr>,
     (\<lambda>a. if a \<in> set (zl_items ifaces) then iface_forget byval ident (h a) else h a))"
  by (rule iface_remove_eq [OF assms])

theorem remove_is_filter_witness:
  "zl_items (fst (iface_remove True (px_ifaces introduced) (px_heap introduced) (0, ''00ABCD0102''))) = []"
  by (subst remove_is_filter)
    (simp_all add: introduced_ifaces, simp add: calc_iface_def iface_forget_def zl_remove_def iface_unused_def
      zl_size_def zl_new_def remove_at_def)

text \<open>Entering a provider puts its identity at the end of the list if it is not there yet and
  says so, and changes neither the other list nor an existing entry.\<close>

theorem append_provider:
  "if_locals (snd (iface_append_local i q)) =
     (if snd q \<in> set (if_locals i) then if_locals i else if_locals i @ [snd q]) \<and>
   fst (iface_append_local i q) = (snd q \<notin> set (if_locals i)) \<and>
   if_globals (snd (iface_append_local i q)) = if_globals i \<and>
   if_globals (snd (iface_append_global i g)) =
     (if g \<in> set (if_globals i) then if_globals i else if_globals i @ [g]) \<and>
   fst (iface_append_global i g) = (g \<notin> set (if_globals i)) \<and>
   if_locals (snd (iface_append_global i g)) = if_locals i"
  using iface_append_local_locals [of i q] iface_append_local_items(3) [of i q] iface_append_local_frame(4) [of i q]
    iface_append_global_items [of i g] by simp

text \<open>Printing an interface writes its name and all its providers into a buffer of 1024 bytes:
  it overflows as soon as the line is longer, which enough providers make it.\<close>

theorem print_overflow:
  "iface_print i =
     (if length (iface_text i) < 1024 then Inr (iface_text i, iface_at_end i) else Inl Buffer_Overflow) \<and>
   length (iface_text i) = length (if_mod i) + length (if_func i) + length (show_int (sint (if_ver i))) +
     length (concat (if_locals i)) + length (concat (if_globals i)) + 37"
  by (simp add: iface_print_eq) (simp add: iface_text_def)

section \<open>Reading objects\<close>

text \<open>On an object whose keys are strings, \<open>m_get_string\<close> returns the first string entry of
  that name in depth-first order: a key inside an earlier nested map hides a later one.\<close>

theorem get_string_depth_first:
  assumes "raw_keys (MMap kvs)"
  shows "m_get_string (Some (MMap kvs)) key = Inr (map_option cstr (map_of (flat_strs (MMap kvs)) key))"
  using m_get_str_flat(1) [OF assms] by (simp add: m_get_string_def)

theorem get_string_depth_first_witness:
  "m_get_string (Some (MMap [(MRaw ''body'', MMap [(MRaw ''command'', MRaw ''inner'')]), (MRaw ''command'', MRaw ''call'')]))
     ''command'' = Inr (Some ''inner'')"
  by (subst get_string_depth_first) (simp_all add: is_cstr_def key_name_def cstr_def)

text \<open>\<open>m_find_map\<close> returns the first entry whose key is a prefix of the one asked for, not
  the entry of that name.\<close>

theorem find_map_prefix:
  assumes "raw_keys (MMap kvs)"
  shows "m_find_map (MMap kvs) key =
    Inr (map_option snd (find (\<lambda>(k, v). key_name k = take (length (key_name k)) key) kvs))"
  using assms m_find_map_kvs_eq [of kvs key] by (simp add: m_find_map_def)

theorem find_map_prefix_witness:
  "m_find_map (MMap [(MRaw ''bo'', MPos 1), (MRaw ''body'', MMap [])]) ''body'' = Inr (Some (MPos 1))"
  by (subst find_map_prefix) (simp_all add: is_cstr_def key_name_def)

text \<open>\<open>m_get_int\<close> returns the first integer entry of that name of the map itself, and 0 when
  there is none; what its recursive calls find in nested maps is dropped.\<close>

theorem get_int_top_level:
  assumes "raw_keys (MMap kvs)"
  shows "m_get_int (Some (MMap kvs)) key = Inr (case map_of (top_vals sel_int kvs) key of Some u \<Rightarrow> u | None \<Rightarrow> 0)"
  using assms get_int.rd_top [of kvs key] by (simp add: m_get_int_def)

theorem get_int_top_level_witness:
  "m_get_int (Some (MMap [(MRaw ''inner'', MMap [(MRaw ''pid'', MPos 7)])])) ''pid'' = Inr 0"
  by (subst get_int_top_level) (simp_all add: is_cstr_def sel_int_def)

text \<open>Unpacking a map gives a table in which every key has the value of its first entry;
  entries that are neither strings, integers, maps nor arrays are left out.\<close>

theorem unpack_map_first_wins:
  assumes "raw_keys (MMap kvs)"
  shows "\<exists>h. m_unpack_map [] (MMap kvs) = Inr h \<and> (\<forall>k. zh_lookup k h = map_of (top_vals unpack_val kvs) k)"
  using assms m_unpack_kvs_lookup [of kvs] by simp

theorem unpack_map_first_wins_witness:
  "\<exists>h. m_unpack_map [] (MMap [(MRaw ''add'', MPos 2), (MRaw ''x'', MNil), (MRaw ''add'', MPos 3)]) = Inr h \<and>
    zh_lookup ''add'' h = Some (UPos 2) \<and> zh_lookup ''x'' h = None"
  using unpack_map_first_wins [of "[(MRaw ''add'', MPos 2), (MRaw ''x'', MNil), (MRaw ''add'', MPos 3)]"]
  by (auto simp: is_cstr_def key_name_def unpack_val_def unpack_item_def)

text \<open>A message with an unknown command that contains a percent sign is not rejected but used as
  a format of the log: the broker reads arguments that were never passed.\<close>

theorem unknown_command_format:
  assumes "unpack payload = Some ob" and "payload \<noteq> []" and "is_map ob"
    and "m_get_string (Some ob) ''command'' = Inr (Some v)" and "v \<notin> set commands" and "CHR ''%'' \<in> set v"
  shows "message_fromzmq strhex unpack now [sender, payload] local = Inl Uninit_Read"
  using assms by (simp add: message_fromzmq_two message_check_command_def log_format_def)

theorem unknown_command_format_witness:
  "message_fromzmq demo_strhex (\<lambda>_. Some (MMap [(MRaw ''command'', MRaw ''%s%n'')])) 5 [worker_frame, ''X''] True = Inl Uninit_Read"
  by (rule unknown_command_format [where v = "''%s%n''" and ob = "MMap [(MRaw ''command'', MRaw ''%s%n'')]"])
    (simp_all add: is_map_def m_get_string_def key_equal_def cstr_def commands_def)

text \<open>No accepted message has the command \<open>message\<close>, although the dispatcher has a branch for
  it: text messages of modules are rejected before they reach their handler.\<close>

theorem text_messages_rejected:
  assumes "message_fromzmq strhex unpack now msg local = Inr (Some m)"
  shows "msg_command m \<noteq> Some ''message''"
  using assms
proof (cases rule: message_fromzmq_Some)
  case (1 f1 f2 ob c a)
  then show ?thesis using check_command_commands [OF 1(5)] by (auto simp: commands_def)
qed

theorem text_messages_rejected_witness:
  "msg_command (accepted demo_strhex 7 True worker_frame call_obj ''call'' ''call-1'') \<noteq> Some ''message''"
  by (rule text_messages_rejected [OF demo_received(2)])

section \<open>Memory\<close>

text \<open>C18: The memory of a received message: one that is accepted is freed as a whole by its destructor, and
  of one that is rejected everything is freed, but for the record of a message of the wrong size
  and the copy of a string that is no command or too short an action id, which are lost. Nothing is
  freed twice.\<close>

theorem received_message_memory:
  assumes "memory_ok m" and "message_fromzmq strhex unpack now msg local = Inr x"
  shows "\<exists>r m'. message_receive unpack msg m = Inr (r, m') \<and>
    (case r of
       Some c \<Rightarrow> x \<noteq> None \<and> (\<exists>m''. free_message (Some c) m' = Inr m'' \<and> mm_live m'' = mm_live m)
     | None \<Rightarrow> x = None \<and> mm_live m \<subseteq> mm_live m' \<and> card (mm_live m' - mm_live m) = lost_cells unpack msg)"
proof -
  obtain r m' where "message_receive unpack msg m = Inr (r, m')" "r = None \<longleftrightarrow> x = None" "kept_or_lost unpack msg m r m'"
    using message_receive_memory [OF assms] by blast
  then show ?thesis by (cases r) (auto simp: kept_or_lost_def)
qed

theorem received_message_memory_witness:
  "\<exists>r m'. message_receive demo_unpack [''peer''] \<lparr>mm_live = {}, mm_next = 0\<rparr> = Inr (r, m') \<and> card (mm_live m') = 1"
proof -
  have "memory_ok \<lparr>mm_live = {}, mm_next = 0\<rparr>" by (simp add: memory_ok_def)
  moreover have "message_fromzmq demo_strhex demo_unpack 5 [''peer''] True = Inr None" by (simp add: message_fromzmq_def)
  ultimately obtain r m' where "message_receive demo_unpack [''peer''] \<lparr>mm_live = {}, mm_next = 0\<rparr> = Inr (r, m')"
      "case r of Some c \<Rightarrow> False | None \<Rightarrow> card (mm_live m') = lost_cells demo_unpack [''peer'']"
    using received_message_memory [of "\<lparr>mm_live = {}, mm_next = 0\<rparr>" demo_strhex demo_unpack 5 "[''peer'']" True None]
    by (auto split: option.splits)
  then show ?thesis by (auto simp: lost_cells_def split: option.splits)
qed

end
