(* ===== verification/Replies.thy ===== *)
theory Replies
  imports Broker_Inv Timeouts
begin

text \<open>
  No call of a local client is lost: as long as a call has not been answered it stays in the
  queue. \<open>progress\<close> relates two states of the broker; it is transitive, and every handler
  makes such a step.
\<close>

definition same_caller :: "message \<Rightarrow> message \<Rightarrow> bool" where
  "same_caller m m' \<longleftrightarrow> msg_identity m' = msg_identity m \<and> msg_local m' = msg_local m \<and>
     msg_actionid m' = msg_actionid m \<and> msg_object m' = msg_object m \<and>
     (msg_routed m \<noteq> None \<longrightarrow> msg_routed m' = msg_routed m \<and> msg_proc_ts m' = msg_proc_ts m)"

text \<open>An exception of the broker for the call \<open>aid\<close>, and what counts as an answer to it: \<open>A\<close> is the
  notion of an answer, which has to admit these exceptions.\<close>

definition exception_for :: "string \<Rightarrow> mobj \<Rightarrow> bool" where
  "exception_for aid ob \<longleftrightarrow> (\<exists>t c. is_cstr t \<and> message_exception (Some aid) t c = Some ob)"

definition admits_exceptions :: "(string \<Rightarrow> mobj \<Rightarrow> bool) \<Rightarrow> bool" where
  "admits_exceptions A \<longleftrightarrow> (\<forall>aid ob. exception_for aid ob \<longrightarrow> A aid ob)"

definition kept_or_answered :: "(string \<Rightarrow> mobj \<Rightarrow> bool) \<Rightarrow> proxy \<Rightarrow> proxy \<Rightarrow> string \<Rightarrow> message \<Rightarrow> bool" where
  "kept_or_answered A p p' k m \<longleftrightarrow>
     (\<exists>m'. zh_lookup k (px_queue p') = Some m' \<and> same_caller m m') \<or>
     (\<exists>ob. A (msg_actionid m) ob \<and> answered_with ob m p p')"

text \<open>A call that is on its way to \<open>via\<close> was so before, or has been sent there.\<close>

definition placed_or_sent :: "proxy \<Rightarrow> proxy \<Rightarrow> string \<Rightarrow> message \<Rightarrow> string \<Rightarrow> bool" where
  "placed_or_sent p p' k m' via \<longleftrightarrow>
     (\<exists>m. zh_lookup k (px_queue p) = Some m \<and> msg_routed m = Some via \<and> msg_object m = msg_object m') \<or>
     sent_between (msg_object m') via p p'"

text \<open>\<open>K\<close> are action ids under which no call is entered: what is stored under them was stored before.\<close>

definition progress :: "(string \<Rightarrow> mobj \<Rightarrow> bool) \<Rightarrow> string set \<Rightarrow> proxy \<Rightarrow> proxy \<Rightarrow> bool" where
  "progress A K p p' \<longleftrightarrow> more_out p p' \<and>
     (\<forall>k m. zh_lookup k (px_queue p) = Some m \<longrightarrow> msg_local m \<longrightarrow> kept_or_answered A p p' k m) \<and>
     (\<forall>k \<in> K. \<forall>m'. zh_lookup k (px_queue p') = Some m' \<longrightarrow>
        (\<exists>m. zh_lookup k (px_queue p) = Some m \<and> same_caller m m')) \<and>
     (\<forall>k m' via. zh_lookup k (px_queue p') = Some m' \<longrightarrow> msg_routed m' = Some via \<longrightarrow> placed_or_sent p p' k m' via)"

lemma same_caller_refl [simp]: "same_caller m m"
  by (simp add: same_caller_def)

lemma same_caller_trans: "same_caller m m1 \<Longrightarrow> same_caller m1 m2 \<Longrightarrow> same_caller m m2"
  by (auto simp: same_caller_def)

lemma answered_caller: "same_caller m m' \<Longrightarrow> answered_with ob m' p p' \<Longrightarrow> answered_with ob m p p'"
  by (simp add: sent_between_def same_caller_def)

lemma progress_same:
  assumes "px_queue p' = px_queue p" and "more_out p p'"
  shows "progress A K p p'"
  using assms by (auto simp: progress_def kept_or_answered_def placed_or_sent_def intro: exI [of _ _])

lemma progress_refl [simp]: "progress A K p p"
  by (rule progress_same) simp_all

lemma progress_trans:
  assumes "progress A K p p1" and "progress A K p1 p2"
  shows "progress A K p p2"
proof -
  have out: "more_out p p1" "more_out p1 p2" using assms by (simp_all add: progress_def)
  have "kept_or_answered A p p2 k m" if k: "zh_lookup k (px_queue p) = Some m" "msg_local m" for k m
  proof -
    consider m' where "zh_lookup k (px_queue p1) = Some m'" "same_caller m m'"
      | ob where "A (msg_actionid m) ob" "answered_with ob m p p1"
      using assms(1) k unfolding progress_def kept_or_answered_def by blast
    then show ?thesis
    proof cases
      case 1
      then have "kept_or_answered A p1 p2 k m'"
        using assms(2) k(2) unfolding progress_def same_caller_def by blast
      then consider m2 where "zh_lookup k (px_queue p2) = Some m2" "same_caller m' m2"
        | ob where "A (msg_actionid m) ob" "answered_with ob m' p1 p2"
        using \<open>same_caller m m'\<close> unfolding kept_or_answered_def same_caller_def by auto
      then show ?thesis
      proof cases
        case (1 m2)
        with \<open>same_caller m m'\<close> have "same_caller m m2" by (blast intro: same_caller_trans)
        with 1 show ?thesis unfolding kept_or_answered_def by blast
      next
        case (2 ob)
        with sent_earlier [OF out(1)] answered_caller [OF \<open>same_caller m m'\<close>] show ?thesis
          unfolding kept_or_answered_def by blast
      qed
    next
      case 2
      then show ?thesis
        unfolding kept_or_answered_def using sent_later out(2) by blast
    qed
  qed
  moreover have "\<exists>m. zh_lookup k (px_queue p) = Some m \<and> same_caller m m2"
    if "k \<in> K" "zh_lookup k (px_queue p2) = Some m2" for k m2
    using assms that same_caller_trans unfolding progress_def by blast
  moreover have "placed_or_sent p p2 k m2 via"
    if "zh_lookup k (px_queue p2) = Some m2" "msg_routed m2 = Some via" for k m2 via
  proof -
    from assms(2) that consider m1 where "zh_lookup k (px_queue p1) = Some m1" "msg_routed m1 = Some via" "msg_object m1 = msg_object m2"
      | "sent_between (msg_object m2) via p1 p2"
      unfolding progress_def placed_or_sent_def by blast
    then show ?thesis
    proof cases
      case 1
      then have "placed_or_sent p p1 k m1 via" using assms(1) unfolding progress_def by blast
      with 1(3) show ?thesis unfolding placed_or_sent_def using sent_later [OF _ out(2)] by metis
    next
      case 2
      then show ?thesis unfolding placed_or_sent_def using sent_earlier [OF out(1)] by blast
    qed
  qed
  ultimately show ?thesis
    using more_out_trans [OF out] by (simp add: progress_def)
qed

lemma progress_no_new:
  assumes "progress A K p p'" and "k \<in> K" and "zh_lookup k (px_queue p) = None"
  shows "zh_lookup k (px_queue p') = None"
  using assms by (cases "zh_lookup k (px_queue p')") (auto simp: progress_def)

text \<open>Steps that change one entry of the queue.\<close>

lemma progress_modify:
  assumes "zh_lookup k (px_queue p) = Some m" and "same_caller m m'"
    and "px_queue p' = zh_modify k m' (px_queue p)" and "more_out p p'"
    and "\<And>via. msg_routed m' = Some via \<Longrightarrow> placed_or_sent p p' k m' via"
  shows "progress A K p p'"
  using assms by (auto simp: progress_def kept_or_answered_def zh_lookup_modify placed_or_sent_def)

lemma progress_insert:
  assumes "px_queue p' = zh_insert k m' (px_queue p)" and "more_out p p'" and "k \<notin> K"
    and "\<And>via. msg_routed m' = Some via \<Longrightarrow> placed_or_sent p p' k m' via"
  shows "progress A K p p'"
  using assms by (auto simp: progress_def kept_or_answered_def zh_lookup_insert placed_or_sent_def)

lemma progress_drop:
  assumes "zh_lookup k (px_queue p) = Some m" and "msg_local m \<Longrightarrow> A (msg_actionid m) ob \<and> answered_with ob m p p'"
    and "px_queue p' = zh_delete k (px_queue p)" and "more_out p p'"
  shows "progress A K p p'"
  using assms by (auto simp: progress_def kept_or_answered_def zh_lookup_delete placed_or_sent_def)

section \<open>The shared steps\<close>

lemma call_outcome_out: "call_outcome E m p m' p' \<Longrightarrow> more_out p p'"
  by (cases rule: call_outcome.cases) (auto simp: more_out_def)

lemma place_call_frame:
  assumes "place_call E m p = Inr (rc, m', p')"
  shows "px_queue p' = px_queue p" "more_out p p'" "same_caller m m'"
    "msg_routed m' = Some via \<Longrightarrow> msg_routed m = Some via \<or> sent_between (msg_object m') via p p'"
proof -
  note P = place_call_effect(1-3) [OF assms]
  have "msg_routed m \<noteq> None \<Longrightarrow> m' = m" using assms by (auto simp: place_call_def)
  with P call_outcome_out show "px_queue p' = px_queue p" "more_out p p'" "same_caller m m'"
    by (auto simp: same_frame_def same_message_def same_caller_def)
  show "msg_routed m = Some via \<or> sent_between (msg_object m') via p p'" if "msg_routed m' = Some via"
    using P(3)
  proof (cases rule: call_outcome.cases)
    case stays
    with that show ?thesis by simp
  next
    case (handed via' mo es)
    with that P(1) have "px_out p' = px_out p @ [] @ es @ []" "sends (msg_object m') via es"
      by (simp_all add: same_message_def)
    then show ?thesis unfolding sent_between_def by blast
  next
    case (passed_on via' es)
    with that P(1) have "px_out p' = px_out p @ [] @ es @ []" "sends (msg_object m') via es"
      by (simp_all add: same_message_def)
    then show ?thesis unfolding sent_between_def by blast
  qed
qed

lemma place_call_item_progress:
  assumes "zh_lookup k (px_queue p) = Some m" and "place_call_item E k m p = Inr (rc, p')"
  shows "progress A K p p'"
proof -
  obtain m' p1 where pc: "place_call E m p = Inr (rc, m', p1)"
    and p': "p' = p1\<lparr>px_queue := zh_modify k m' (px_queue p1)\<rparr>"
    using assms(2) by (auto simp: place_call_item_def res_simps)
  note F = place_call_frame [OF pc]
  show ?thesis
    by (rule progress_modify [OF assms(1) F(3)])
      (use p' F assms(1) in \<open>auto simp: more_out_def placed_or_sent_def same_caller_def sent_between_def\<close>)
qed

interpretation waiting_calls: iteration px_queue "place_call_item E" "progress A K p0" for A K E p0
  by unfold_locales (blast intro: progress_trans place_call_item_progress)

lemma place_all_progress: "place_all E p = Inr p' \<Longrightarrow> progress A K p p'"
  by (auto simp: place_all_def res_simps intro: waiting_calls.foreach_keeps [OF progress_refl])

lemma release_module_progress:
  assumes "release_module E ident p = Inr p'"
  shows "progress A K p p'"
proof (cases "zh_lookup ident (px_modules p)")
  case None
  with assms show ?thesis by (simp add: release_module_def)
next
  case (Some mo)
  show ?thesis
  proof (cases "mo_need_restart mo")
    case True
    with assms Some show ?thesis by (auto simp: release_module_def intro: progress_same)
  next
    case False
    let ?p = "p\<lparr>px_modules := zh_modify ident (mo\<lparr>mo_state := IDLE\<rparr>) (px_modules p)\<rparr>"
    have "place_all E ?p = Inr p'" using assms Some False by (simp add: release_module_def)
    moreover have "progress A K p ?p" by (rule progress_same) (simp_all add: more_out_def)
    ultimately show ?thesis using place_all_progress progress_trans by blast
  qed
qed

lemma verdict_text: "verdict E m = Inr (Some (t, c)) \<Longrightarrow> is_cstr t"
  by (auto simp: verdict_def res_simps is_cstr_def split: if_splits)

lemma process_queue_item_progress:
  assumes k: "zh_lookup k (px_queue p) = Some m" and run: "process_queue_item E k m p = Inr (rc, p')"
    and A: "admits_exceptions A"
  shows "progress A K p p'"
proof -
  obtain v where v: "verdict E m = Inr v" "more_out p p'" "case v of None \<Rightarrow> p' = p
     | Some (t, c) \<Rightarrow> px_queue p' = zh_delete k (px_queue p) \<and>
         (\<exists>ob. message_exception (Some (msg_actionid m)) t c = Some ob \<and> answered_with ob m p p')"
    using process_queue_item_verdict [OF run] by blast
  show ?thesis
  proof (cases v)
    case None
    with v(3) show ?thesis by simp
  next
    case (Some tc)
    then obtain t c ob where tc: "v = Some (t, c)" and q: "px_queue p' = zh_delete k (px_queue p)"
      and ob: "message_exception (Some (msg_actionid m)) t c = Some ob" "answered_with ob m p p'"
      using v(3) by (cases tc) auto
    have "exception_for (msg_actionid m) ob"
      using verdict_text v(1) tc ob(1) unfolding exception_for_def by blast
    with A have "A (msg_actionid m) ob" by (simp add: admits_exceptions_def)
    with q v(2) ob(2) show ?thesis using progress_drop [OF k] by blast
  qed
qed

interpretation timer_pass: iteration px_queue "process_queue_item E" "\<lambda>s. admits_exceptions A \<longrightarrow> progress A K p0 s"
  for A K E p0
proof unfold_locales
  fix s k v rc s'
  assume "admits_exceptions A \<longrightarrow> progress A K p0 s" and "zh_lookup k (px_queue s) = Some v"
    and "process_queue_item E k v s = Inr (rc, s')"
  then show "admits_exceptions A \<longrightarrow> progress A K p0 s'"
    using process_queue_item_progress progress_trans by blast
qed

lemma process_queue_progress: "process_queue E p = Inr p' \<Longrightarrow> admits_exceptions A \<Longrightarrow> progress A K p p'"
  using timer_pass.foreach_keeps [of A K p p E]
  by (auto simp: process_queue_def res_simps split: if_splits)

text \<open>Removing a peer does not touch the queue.\<close>

lemma print_forget_frame:
  assumes "print_ifaces (forget_identity E ident p) = Inr p'"
  shows "px_queue p' = px_queue p" "px_out p' = px_out p"
  using print_ifaces_frame [OF assms]
  by (auto simp: forget_identity_def same_frame_def split: prod.splits)

lemma get_ifacelist_item_progress:
  assumes "get_ifacelist_item E k fab p = Inr (rc, p')"
  shows "progress A K p p'"
proof (cases "fb_alive fab")
  case True
  then obtain msg p2 where s: "send_message msg (snd (fb_identity fab)) (p\<lparr>px_uuids := Suc (px_uuids p)\<rparr>) = Inr p2"
    and p': "p' = p2\<lparr>px_fabs := zh_modify k (fab\<lparr>fb_alive := False\<rparr>) (px_fabs p2)\<rparr>"
    using assms by (auto simp: get_ifacelist_item_def getActionid_def res_simps)
  show ?thesis
    by (rule progress_same) (use p' send_message_fields(6) [OF s] more_out_send [OF s] in \<open>auto simp: more_out_def\<close>)
next
  case False
  then obtain p2 where s: "print_ifaces (forget_identity E (fb_identity fab)
      (emit (Disconnect k) (p\<lparr>px_uuids := Suc (px_uuids p)\<rparr>))) = Inr p2"
    and p': "p' = p2\<lparr>px_fabs := zh_delete k (px_fabs p2)\<rparr>"
    using assms by (auto simp: get_ifacelist_item_def getActionid_def res_simps)
  show ?thesis
    by (rule progress_same) (use p' print_forget_frame [OF s] in \<open>auto simp: more_out_def\<close>)
qed

interpretation poll_pass: iteration px_fabs "get_ifacelist_item E" "progress A K p0" for A K E p0
  by unfold_locales (blast intro: progress_trans get_ifacelist_item_progress)

lemma procman_checkpid_progress:
  assumes "procman_checkpid E command pid k mo p = Inr (rc, p')"
  shows "progress A K p p'"
proof (cases "mo_pid mo = pid \<and> command = ''remove''")
  case True
  then obtain p1 where s: "print_ifaces (forget_identity E (mo_identity mo) p) = Inr p1"
    and p': "p' = p1\<lparr>px_modules := zh_delete (snd (mo_identity mo)) (px_modules p1)\<rparr>"
    using assms by (auto simp: procman_checkpid_def res_simps)
  show ?thesis
    by (rule progress_same) (use p' print_forget_frame [OF s] in \<open>auto simp: more_out_def\<close>)
next
  case False
  with assms have "px_queue p' = px_queue p \<and> more_out p p'"
    by (auto simp: procman_checkpid_def more_out_def split: if_splits)
  then show ?thesis using progress_same by blast
qed

interpretation procman_pass: iteration px_modules "procman_checkpid E command pid" "progress A K p0" for A K E command pid p0
  by unfold_locales (blast intro: progress_trans procman_checkpid_progress)

section \<open>The handlers\<close>

text \<open>The call is dropped after an answer, and the module that sent it released.\<close>

lemma dropped_progress:
  assumes "router_inv p" and "zh_lookup k (px_queue p) = Some m"
    and "msg_local m \<Longrightarrow> A k ob \<and> answered_with ob m p p1" and "p1 = p\<lparr>px_out := es\<rparr>" and "more_out p p1"
  shows "progress A K p (drop_call (msg_actionid m) p1)"
  using assms queued_call(1) [OF assms(1,2)]
  by (intro progress_drop [OF assms(2), of A ob]) (auto simp: drop_call_def sent_between_def more_out_def)

lemma sent_progress:
  assumes "router_inv p" and "zh_lookup k (px_queue p) = Some m"
    and s: "send_message (Some ob) (msg_identity m) p = Inr p1" and "A k ob"
  shows "progress A K p (drop_call (msg_actionid m) p1)"
proof -
  obtain es where "p1 = p\<lparr>px_out := es\<rparr>" using send_message_out [OF s] by blast
  with dropped_progress [OF assms(1,2), of A ob p1 es] show ?thesis
    using sent_send [OF s] more_out_send [OF s] assms(4) by blast
qed

lemma fabric_progress:
  assumes "router_inv p" and "zh_lookup k (px_queue p) = Some stored" and "\<not> msg_local stored"
    and a: "answer_fabric m stored p = Inr p1"
  shows "progress A K p (drop_call (msg_actionid stored) p1)"
proof -
  have "more_out p p1"
    using a by (auto simp: answer_fabric_def split: option.splits dest: more_out_send)
  moreover obtain es where "p1 = p\<lparr>px_out := es\<rparr>" using answer_fabric_out [OF a] by blast
  ultimately show ?thesis using dropped_progress [OF assms(1,2), of A MNil p1 es] assms(3) by blast
qed

lemma drop_progress:
  assumes "router_inv p" and "zh_lookup k (px_queue p) = Some m" and "\<not> msg_local m"
  shows "progress A K p (drop_call (msg_actionid m) p)"
  using dropped_progress [OF assms(1,2), of A MNil p "px_out p"] assms(3) by simp

lemma process_exception_progress:
  assumes inv: "router_inv p" and run: "process_exception E m p = Inr p'"
    and ans: "A (msg_actionid m) (msg_object m)"
  shows "progress A K p p'"
proof (cases "zh_lookup (msg_actionid m) (px_queue p)")
  case None
  with run show ?thesis by (auto simp: process_exception_def res_simps)
next
  case (Some stored)
  consider (ll) "msg_local m" "msg_local stored" | (fl) "\<not> msg_local m" "msg_local stored"
    | (lf) "msg_local m" "\<not> msg_local stored" | (ff) "\<not> msg_local m" "\<not> msg_local stored" by blast
  then show ?thesis
  proof cases
    case ll
    show ?thesis
    proof (cases "zh_lookup (msg_identity m) (px_modules p)")
      case None
      with run Some ll show ?thesis by (simp add: process_exception_def)
    next
      case (Some mo)
      then obtain p1 where s: "send_message (Some (message_tomsg m)) (msg_identity stored) p = Inr p1"
        and r: "release_module E (msg_identity m) (drop_call (msg_actionid stored) p1) = Inr p'"
        using run \<open>zh_lookup (msg_actionid m) (px_queue p) = Some stored\<close> ll
        by (auto simp: process_exception_def res_simps)
      have "progress A K p (drop_call (msg_actionid stored) p1)"
        by (rule sent_progress [OF inv \<open>zh_lookup (msg_actionid m) (px_queue p) = Some stored\<close> s])
          (simp add: message_tomsg_def ans)
      from this release_module_progress [OF r] show ?thesis by (rule progress_trans)
    qed
  next
    case fl
    obtain code where code: "message_getExceptionCode m = Inr code"
      using run Some fl by (auto simp: process_exception_def res_simps)
    show ?thesis
    proof (cases "code = MODULES_BUSY")
      case True
      then obtain rc stored' p1 where "place_call E stored p = Inr (rc, stored', p1)"
        and "p' = p1\<lparr>px_queue := zh_modify (msg_actionid m) stored' (px_queue p1)\<rparr>"
        using run Some fl code by (auto simp: process_exception_def res_simps)
      then have "place_call_item E (msg_actionid m) stored p = Inr (rc, p')"
        by (simp add: place_call_item_def)
      with place_call_item_progress [OF Some] show ?thesis by blast
    next
      case False
      then obtain p1 where "send_message (Some (message_tomsg m)) (msg_identity stored) p = Inr p1"
        and "p' = drop_call (msg_actionid stored) p1"
        using run Some fl code by (auto simp: process_exception_def res_simps)
      with sent_progress [OF inv Some, of "message_tomsg m" p1 A] ans show ?thesis by (simp add: message_tomsg_def)
    qed
  next
    case lf
    then obtain p1 where a: "answer_fabric m stored p = Inr p1"
      and r: "release_module E (msg_identity m) (drop_call (msg_actionid stored) p1) = Inr p'"
      using run Some by (auto simp: process_exception_def res_simps)
    from fabric_progress [OF inv Some lf(2) a] release_module_progress [OF r]
    show ?thesis by (rule progress_trans)
  next
    case ff
    with run Some drop_progress [OF inv Some] show ?thesis by (auto simp: process_exception_def)
  qed
qed

lemma learn_iface_frame:
  assumes "learn_iface fab path p = Inr p'"
  shows "px_queue p' = px_queue p \<and> px_out p' = px_out p"
proof (cases "p' = p")
  case False
  then obtain md func ver a p1 where found: "find_or_new_iface md func ver p = Inr (a, p1)"
    and pr: "print_iface a (p1\<lparr>px_heap := (px_heap p1)(a :=
      snd (iface_append_global (px_heap p1 a) (snd (fb_identity fab))))\<rparr>) = Inr p'"
    using assms by (auto simp: learn_iface_def res_simps split: list.splits)
  have "px_queue p1 = px_queue p \<and> px_out p1 = px_out p"
    using found check_interface_effect
    by (auto simp: find_or_new_iface_def res_simps dest!: check_interface_effect split: option.splits)
  with print_iface_effect(1) [OF pr] show ?thesis by simp
qed simp

lemma process_ifacelist_progress:
  assumes "process_ifacelist m p = Inr p'"
  shows "progress A K p p'"
proof -
  let ?I = "\<lambda>s. px_queue s = px_queue p \<and> px_out s = px_out p"
  have fold_ok: "?I p'" if "rfold (learn_iface fab) paths p = Inr p'" for fab paths
  proof -
    have step: "\<And>x s s'. x \<in> set paths \<Longrightarrow> ?I s \<Longrightarrow> learn_iface fab x s = Inr s' \<Longrightarrow> ?I s'"
      using learn_iface_frame by fastforce
    have "?I p" by simp
    from rfold_invariant [where I = ?I and f = "learn_iface fab", OF step this that] show ?thesis .
  qed
  obtain ls where "message_getIfaceList m = Inr ls"
    using assms by (auto simp: process_ifacelist_def res_simps)
  with assms fold_ok have "?I p'"
    by (auto simp: process_ifacelist_def split: option.splits)
  then show ?thesis by (intro progress_same) (auto simp: more_out_def)
qed

lemma process_result_progress:
  assumes inv: "router_inv p" and run: "process_result E m p = Inr p'"
    and ans: "A (msg_actionid m) (msg_object m)"
  shows "progress A K p p'"
proof (cases "zh_lookup (msg_actionid m) (px_queue p)")
  case None
  with run show ?thesis by (auto simp: process_result_def intro: process_ifacelist_progress)
next
  case (Some stored)
  consider (ll) "msg_local m" "msg_local stored" | (fl) "\<not> msg_local m" "msg_local stored"
    | (lf) "msg_local m" "\<not> msg_local stored" | (ff) "\<not> msg_local m" "\<not> msg_local stored" by blast
  then show ?thesis
  proof cases
    case ll
    then obtain p1 where s: "send_message (Some (message_tomsg m)) (msg_identity stored) p = Inr p1"
      and r: "release_module E (msg_identity m) (drop_call (msg_actionid stored) p1) = Inr p'"
      using run Some by (auto simp: process_result_def res_simps)
    have "progress A K p (drop_call (msg_actionid stored) p1)"
      by (rule sent_progress [OF inv Some s]) (simp add: message_tomsg_def ans)
    from this release_module_progress [OF r] show ?thesis by (rule progress_trans)
  next
    case fl
    then obtain p1 where "send_message (Some (message_tomsg m)) (msg_identity stored) p = Inr p1"
      and "p' = drop_call (msg_actionid stored) p1"
      using run Some by (auto simp: process_result_def res_simps)
    with sent_progress [OF inv Some, of "message_tomsg m" p1 A] ans show ?thesis by (simp add: message_tomsg_def)
  next
    case lf
    then obtain p1 where a: "answer_fabric m stored p = Inr p1"
      and r: "release_module E (msg_identity m) (drop_call (msg_actionid stored) p1) = Inr p'"
      using run Some by (auto simp: process_result_def res_simps)
    from fabric_progress [OF inv Some lf(2) a] release_module_progress [OF r]
    show ?thesis by (rule progress_trans)
  next
    case ff
    with run Some drop_progress [OF inv Some] show ?thesis by (auto simp: process_result_def)
  qed
qed

lemma process_call_progress:
  assumes "process_call E m0 p = Inr p'" and fresh: "msg_actionid m0 \<notin> K" and new: "unplaced m0"
  shows "progress A K p p'"
  using assms(1)
proof (cases rule: process_call_cases)
  case (malformed m)
  then show ?thesis
    by (intro progress_same) (auto simp: refuse_call_def dest: send_message_fields(6) more_out_send)
next
  case (refused md func ver rc m1 p1)
  note F = place_call_frame [OF refused(2)]
  have "more_out p1 p'" "px_queue p' = px_queue p1"
    using refused(3) by (auto simp: refuse_call_def dest: send_message_fields(6) more_out_send)
  with F more_out_trans show ?thesis by (intro progress_same) auto
next
  case (queued md func ver rc m1 p1)
  note F = place_call_frame [OF queued(2)]
  have "msg_actionid m1 = msg_actionid m0" using F(3) by (simp add: same_caller_def call_of_def)
  moreover have "sent_between (msg_object m1) via p p'" if "msg_routed m1 = Some via" for via
    using F(4) [OF that] new queued(5) by (simp add: unplaced_def call_of_def sent_between_def)
  ultimately show ?thesis
    using fresh queued(5) F
    by (intro progress_insert [where k = "msg_actionid m1"]) (auto simp: more_out_def placed_or_sent_def)
qed

lemma process_introduce_progress:
  assumes inv: "router_inv p" and run: "process_introduce E answer m p = Inr p'"
  shows "progress A K p p'"
  using run
proof (cases rule: process_introduce_cases)
  case rejected
  then show ?thesis by (auto intro: progress_same)
next
  case (empty s)
  then show ?thesis by (intro progress_same) (simp_all add: more_out_def)
next
  case (accepted s mo h p1)
  let ?p = "(emit (To_Procman s) p)\<lparr>px_next := Suc (px_next p)\<rparr>"
  have "broker_ok (E\<lparr>ev_now := 0\<rparr>) p" using inv by (simp add: broker_ok_def)
  then have "broker_ok (E\<lparr>ev_now := 0\<rparr>) ?p"
    using broker_ok_next [of "E\<lparr>ev_now := 0\<rparr>" "emit (To_Procman s) p"] by simp
  then have "registering E (mo_identity mo) ?p ?p"
    by (auto simp: registering_def broker_ok_def router_inv_def wf_providers_def)
  from introduce_functions_ok [OF accepted(2) this] have s: "same_tables ?p p1"
    by (simp add: registering_def)
  have "px_queue p' = px_queue p1 \<and> more_out p1 p'"
    using accepted(3) send_message_fields(6) more_out_send
    by (fastforce simp: register_module_def Let_def res_simps more_out_def)
  with s show ?thesis
    by (intro progress_same) (auto simp: same_tables_def more_out_def)
qed

lemma process_request_progress:
  assumes "process_request E m p = Inr p'"
  shows "progress A K p p'"
proof -
  have "progress A K p p'" if req: "process_req_ifacelist E m p = Inr p'"
  proof (cases "zh_lookup (msg_identity m) (px_fabs p)")
    case None
    with req have "p' = p\<lparr>px_uuids := Suc (px_uuids p)\<rparr>"
      by (simp add: process_req_ifacelist_def getActionid_def)
    then show ?thesis by (intro progress_same) (simp_all add: more_out_def)
  next
    case (Some fab)
    then obtain msg l where
      s: "send_message msg (snd (fb_identity fab)) (p\<lparr>px_uuids := Suc (px_uuids p), px_ifaces := l\<rparr>) = Inr p'"
      using req by (auto simp: process_req_ifacelist_def getActionid_def res_simps)
    show ?thesis
      by (rule progress_same) (use send_message_fields(6) [OF s] more_out_send [OF s] in \<open>auto simp: more_out_def\<close>)
  qed
  with assms show ?thesis
    by (auto simp: process_request_def res_simps split: option.splits if_splits)
qed

text \<open>What is assumed of a received message: an answer is one in the sense of \<open>A\<close>, a call is not for \<open>K\<close>.\<close>

definition expected :: "(string \<Rightarrow> mobj \<Rightarrow> bool) \<Rightarrow> string set \<Rightarrow> message \<Rightarrow> bool" where
  "expected A K m \<longleftrightarrow>
     (msg_command m \<in> {Some ''result'', Some ''exception''} \<longrightarrow> A (msg_actionid m) (msg_object m)) \<and>
     (msg_command m = Some ''call'' \<longrightarrow> msg_actionid m \<notin> K)"

lemma process_command_progress:
  assumes inv: "router_inv p" and run: "process_command E answer m p = Inr p'" and m: "expected A K m"
    and new: "unplaced m"
  shows "progress A K p p'"
  using run
proof (cases rule: process_command_cases)
  case request then show ?thesis by (intro process_request_progress)
next
  case result with inv m show ?thesis by (intro process_result_progress) (simp_all add: expected_def)
next
  case call with m new show ?thesis by (intro process_call_progress) (simp_all add: expected_def)
next
  case exception with inv m show ?thesis by (intro process_exception_progress) (simp_all add: expected_def)
next
  case introduce with inv show ?thesis by (intro process_introduce_progress)
next
  case same then show ?thesis by simp
qed

lemma handle_progress:
  assumes inv: "router_inv p" and run: "handle W E ev p = Inr p'" and A: "admits_exceptions A"
    and m: "\<And>m. received W E ev = Some m \<Longrightarrow> expected A K m"
  shows "progress A K p p'"
proof (cases ev)
  case Queue_Timer
  with run A show ?thesis by (auto simp: handle_def intro: process_queue_progress)
next
  case Poll_Timer
  with run show ?thesis
    by (auto simp: handle_def get_ifacelist_event_def res_simps split: if_splits
        intro: poll_pass.foreach_keeps [OF progress_refl])
next
  case (Beacon_In ip msg)
  with run have "px_queue p' = px_queue p \<and> px_out p' = px_out p"
    by (auto simp: handle_def s_beacon_event_def Let_def split: option.splits if_splits)
  then show ?thesis by (intro progress_same) (simp_all add: more_out_def)
next
  case (Procman_In command pid)
  with run show ?thesis
    by (auto simp: handle_def s_procman_event_def res_simps split: option.splits if_splits
        intro: procman_pass.foreach_keeps [OF progress_refl])
next
  case (Local_In msg answer)
  then obtain mo where mo: "message_fromzmq (wo_strhex W) (wo_unpack W) (ev_now E) msg True = Inr mo"
    using run by (auto simp: handle_def s_local_event_def res_simps)
  with run inv Local_In m fromzmq_unplaced show ?thesis
    by (cases mo) (auto simp: handle_def s_local_event_def received_def intro: process_command_progress)
next
  case (Global_In msg answer)
  obtain mo where mo: "message_fromzmq (wo_strhex W) (wo_unpack W) (ev_now E) msg False = Inr mo"
    using run Global_In by (auto simp: handle_def s_global_event_def res_simps)
  show ?thesis
  proof (cases mo)
    case None
    with run Global_In mo show ?thesis by (simp add: handle_def s_global_event_def)
  next
    case (Some m)
    let ?p = "case zh_lookup (msg_identity m) (px_fabs p) of
        Some fab \<Rightarrow> p\<lparr>px_fabs := zh_modify (msg_identity m) (fab\<lparr>fb_alive := True\<rparr>) (px_fabs p)\<rparr>
      | None \<Rightarrow> p"
    have "process_command E answer m ?p = Inr p'"
      using run Global_In mo Some by (simp add: handle_def s_global_event_def)
    moreover have "router_inv ?p"
      using inv set_alive_ok [of "E\<lparr>ev_now := 0\<rparr>" p "msg_identity m"]
      by (auto simp: broker_ok_def split: option.splits)
    moreover have "progress A K p ?p"
      by (rule progress_same) (auto simp: more_out_def split: option.splits)
    moreover have "expected A K m"
      using m [of m] Global_In mo Some by (simp add: received_def)
    moreover have "unplaced m" using fromzmq_unplaced mo Some by blast
    ultimately show ?thesis using process_command_progress progress_trans by blast
  qed
qed

section \<open>Answers with the right action id\<close>

text \<open>An answer to the call \<open>aid\<close>: an exception the broker built for it, or a message under that id.\<close>

definition answer_for :: "string \<Rightarrow> mobj \<Rightarrow> bool" where
  "answer_for aid ob \<longleftrightarrow> exception_for aid ob \<or> message_check_actionid ob = Inr (Some aid)"

lemma answer_for_admits: "admits_exceptions answer_for"
  by (simp add: admits_exceptions_def answer_for_def)

lemma received_fields:
  assumes "received W E ev = Some m"
  shows "message_check_command (msg_object m) = Inr (msg_command m)"
    "message_check_actionid (msg_object m) = Inr (Some (msg_actionid m))"
proof -
  obtain msg local where "message_fromzmq (wo_strhex W) (wo_unpack W) (ev_now E) msg local = Inr (Some m)"
    using assms by (auto simp: received_def split: event.splits sum.splits)
  then show "message_check_command (msg_object m) = Inr (msg_command m)"
    "message_check_actionid (msg_object m) = Inr (Some (msg_actionid m))"
    by (auto elim!: message_fromzmq_Some simp: accepted_def)
qed

lemma received_expected: "received W E ev = Some m \<Longrightarrow> expected answer_for {} m"
  by (simp add: expected_def answer_for_def received_fields)

lemma answered_by_identity: "msg_identity m = msg_identity m' \<Longrightarrow> answered_with ob m p p' = answered_with ob m' p p'"
  by (simp add: sent_between_def)

text \<open>A new call is queued, or refused with an exception.\<close>

lemma refused_answered:
  assumes "refuse_call m t c p = Inr p'" and "is_cstr t" and "admits_exceptions A"
  shows "\<exists>ob. A (msg_actionid m) ob \<and> answered_with ob m p p'"
proof -
  obtain ob where ob: "message_exception (Some (msg_actionid m)) t c = Some ob"
    by (simp add: message_exception_def)
  then have "A (msg_actionid m) ob"
    using assms(2,3) by (auto simp: admits_exceptions_def exception_for_def)
  with assms(1) ob sent_send show ?thesis by (auto simp: refuse_call_def)
qed

lemma process_call_handles:
  assumes run: "process_call E m0 p = Inr p'" and new: "zh_lookup (msg_actionid m0) (px_queue p) = None"
    and loc: "msg_local m0" and A: "admits_exceptions A"
  shows "kept_or_answered A p p' (msg_actionid m0) m0"
  using run
proof (cases rule: process_call_cases)
  case (malformed m)
  obtain ob where "A (msg_actionid m) ob" "answered_with ob m p p'"
    using refused_answered [OF malformed(1) _ A] by (auto simp: is_cstr_def)
  with malformed(3) answered_by_identity [OF malformed(2)] show ?thesis unfolding kept_or_answered_def by auto
next
  case (refused md func ver rc m1 p1)
  note F = place_call_frame [OF refused(2)]
  have m1: "msg_identity m1 = msg_identity m0" "msg_actionid m1 = msg_actionid m0"
    using F(3) by (simp_all add: same_caller_def call_of_def)
  obtain ob where ob: "A (msg_actionid m1) ob" "answered_with ob m1 p1 p'"
    using refused_answered [OF refused(3) _ A] by (auto simp: is_cstr_def)
  with sent_earlier [OF F(2)] have "answered_with ob m1 p p'" by blast
  with ob(1) m1(2) answered_by_identity [OF m1(1)] show ?thesis unfolding kept_or_answered_def by auto
next
  case (queued md func ver rc m1 p1)
  note F = place_call_frame [OF queued(2)]
  have "same_caller m0 m1" using F(3) by (simp add: same_caller_def call_of_def)
  moreover have "zh_lookup (msg_actionid m0) (px_queue p') = Some m1"
    using calculation F(1) new by (simp add: queued(5) zh_lookup_insert same_caller_def)
  ultimately show ?thesis unfolding kept_or_answered_def by blast
qed

section \<open>Placing waiting calls adds and removes none\<close>

interpretation waiting_keys: iteration px_queue "place_call_item E" "\<lambda>s. zh_keys (px_queue s) = ks" for E ks
  by unfold_locales (auto simp: place_call_item_def res_simps dest: place_call_frame(1))

lemma release_module_keys:
  assumes "release_module E ident p = Inr p'"
  shows "zh_keys (px_queue p') = zh_keys (px_queue p)"
proof (cases "zh_lookup ident (px_modules p)")
  case None
  with assms show ?thesis by (simp add: release_module_def)
next
  case (Some mo)
  show ?thesis
  proof (cases "mo_need_restart mo")
    case True
    with assms Some show ?thesis by (auto simp: release_module_def)
  next
    case False
    let ?p = "p\<lparr>px_modules := zh_modify ident (mo\<lparr>mo_state := IDLE\<rparr>) (px_modules p)\<rparr>"
    obtain rc where "zh_foreach px_queue (place_call_item E) ?p = Inr (rc, p')"
      using assms Some False by (auto simp: release_module_def place_all_def res_simps)
    from waiting_keys.foreach_keeps [OF _ this, of "zh_keys (px_queue p)"] show ?thesis by simp
  qed
qed

text \<open>An answer to a local caller: it is sent first, then the call is gone.\<close>

lemma process_result_delivers:
  assumes "router_inv p" and q: "zh_lookup (msg_actionid m) (px_queue p) = Some stored"
    and loc: "msg_local stored" and run: "process_result E m p = Inr p'"
  shows "\<exists>es rest. px_out p' = px_out p @ es @ rest \<and> sends (msg_object m) (msg_identity stored) es \<and>
    zh_lookup (msg_actionid m) (px_queue p') = None"
proof -
  have aid: "msg_actionid stored = msg_actionid m" using queued_call(1) [OF assms(1) q] .
  obtain p1 where s: "send_message (Some (msg_object m)) (msg_identity stored) p = Inr p1"
    and r: "p' = drop_call (msg_actionid m) p1 \<or>
      release_module E (msg_identity m) (drop_call (msg_actionid m) p1) = Inr p'"
    using run q loc aid by (cases "msg_local m") (auto simp: process_result_def message_tomsg_def res_simps)
  obtain es where es: "px_out p1 = px_out p @ es" "sends (msg_object m) (msg_identity stored) es"
    using send_message_effect [OF s] by auto
  have gone: "zh_lookup (msg_actionid m) (px_queue (drop_call (msg_actionid m) p1)) = None"
    by (simp add: drop_call_def zh_lookup_delete)
  have "more_out (drop_call (msg_actionid m) p1) p' \<and> zh_keys (px_queue p') = zh_keys (px_queue (drop_call (msg_actionid m) p1))"
    using r release_module_keys release_module_progress by (auto simp: progress_def)
  then obtain rest where "px_out p' = px_out p @ es @ rest"
    and keys: "zh_keys (px_queue p') = zh_keys (px_queue (drop_call (msg_actionid m) p1))"
    using es by (auto simp: more_out_def drop_call_def)
  moreover have "zh_lookup (msg_actionid m) (px_queue p') = None"
    using gone keys zh_keys_iff [of "msg_actionid m" "px_queue p'"]
      zh_keys_iff [of "msg_actionid m" "px_queue (drop_call (msg_actionid m) p1)"] by simp
  ultimately show ?thesis using es(2) by blast
qed

end
