(* ===== verification/Dispatcher.thy ===== *)
theory Dispatcher
  imports Replies
begin

text \<open>
  What the broker promises about calls, without messages, interfaces or tables of peers: a book of
  calls, in which a call is entered, handed to a module that has no other, or passed on to another
  broker, and struck off. Every event of the broker is a sequence of such actions.
\<close>

section \<open>The dispatcher\<close>

datatype standing = Waiting | Working string | Passed string

record dcall =
  dc_local :: bool
  dc_caller :: string
  dc_standing :: standing

type_synonym book = "string \<Rightarrow> dcall option"

datatype action = Enter string bool string | Hand string string | Pass string string | Leave string

definition free_in :: "string \<Rightarrow> book \<Rightarrow> bool" where
  "free_in via b \<longleftrightarrow> (\<forall>k d. b k = Some d \<longrightarrow> dc_standing d \<noteq> Working via)"

inductive dstep :: "book \<Rightarrow> action \<Rightarrow> book \<Rightarrow> bool" where
  enter: "b k = None \<Longrightarrow> dstep b (Enter k l c) (b(k \<mapsto> \<lparr>dc_local = l, dc_caller = c, dc_standing = Waiting\<rparr>))"
| hand: "b k = Some d \<Longrightarrow> dc_standing d = Waiting \<Longrightarrow> free_in via b \<Longrightarrow>
    dstep b (Hand k via) (b(k \<mapsto> d\<lparr>dc_standing := Working via\<rparr>))"
| pass: "b k = Some d \<Longrightarrow> dc_standing d = Waiting \<Longrightarrow>
    dstep b (Pass k via) (b(k \<mapsto> d\<lparr>dc_standing := Passed via\<rparr>))"
| leave: "k \<in> dom b \<Longrightarrow> dstep b (Leave k) (b(k := None))"

inductive dpath :: "book \<Rightarrow> action list \<Rightarrow> book \<Rightarrow> bool" where
  stop: "dpath b [] b"
| step: "dstep b a b1 \<Longrightarrow> dpath b1 as b2 \<Longrightarrow> dpath b (a # as) b2"

lemma dpath_append: "dpath b as b1 \<Longrightarrow> dpath b1 as' b2 \<Longrightarrow> dpath b (as @ as') b2"
  by (induction rule: dpath.induct) (auto intro: dpath.step)

lemma dpath_one: "dstep b a b' \<Longrightarrow> dpath b [a] b'"
  by (blast intro: dpath.intros)

text \<open>What holds of every path: no module has two calls, and a call that was placed keeps its place
  until it leaves.\<close>

definition exclusive_book :: "book \<Rightarrow> bool" where
  "exclusive_book b \<longleftrightarrow> (\<forall>k k' d d' via. b k = Some d \<longrightarrow> b k' = Some d' \<longrightarrow>
     dc_standing d = Working via \<longrightarrow> dc_standing d' = Working via \<longrightarrow> k = k')"

lemma dpath_exclusive: "dpath b as b' \<Longrightarrow> exclusive_book b \<Longrightarrow> exclusive_book b'"
proof (induction rule: dpath.induct)
  case (step b a b1 as b2)
  have "exclusive_book b1"
    using step.hyps(1) step.prems
    by (cases rule: dstep.cases) (fastforce simp: exclusive_book_def free_in_def split: if_splits)+
  with step.IH show ?case .
qed

lemma dpath_placed:
  "dpath b as b' \<Longrightarrow> b k = Some d \<Longrightarrow> dc_standing d \<noteq> Waiting \<Longrightarrow> Leave k \<notin> set as \<Longrightarrow> b' k = Some d"
proof (induction rule: dpath.induct)
  case (step b a b1 as b2)
  have "b1 k = Some d"
    using step.hyps(1) step.prems by (cases rule: dstep.cases) auto
  with step show ?case by simp
qed

section \<open>Books that differ by what an event may do\<close>

text \<open>Call by call: one that leaves, one that is new, one that is placed, or no change.\<close>

definition call_change :: "dcall option \<Rightarrow> dcall option \<Rightarrow> bool" where
  "call_change x y \<longleftrightarrow> (\<forall>d d'. x = Some d \<longrightarrow> y = Some d' \<longrightarrow> dc_local d' = dc_local d \<and>
     dc_caller d' = dc_caller d \<and> (dc_standing d = Waiting \<or> dc_standing d' = dc_standing d))"

definition newly_placed :: "dcall option \<Rightarrow> dcall option \<Rightarrow> standing \<Rightarrow> bool" where
  "newly_placed x y st \<longleftrightarrow> (\<exists>d'. y = Some d' \<and> dc_standing d' = st) \<and>
     (\<forall>d. x = Some d \<longrightarrow> dc_standing d = Waiting)"

text \<open>The actions of a path from \<open>b\<close> to \<open>b'\<close> are about the calls that changed.\<close>

definition explains :: "book \<Rightarrow> action list \<Rightarrow> book \<Rightarrow> bool" where
  "explains b as b' \<longleftrightarrow> (\<forall>a \<in> set as. case a of
      Enter k l c \<Rightarrow> b k = None \<and> (\<exists>d. b' k = Some d \<and> dc_local d = l \<and> dc_caller d = c)
    | Hand k via \<Rightarrow> newly_placed (b k) (b' k) (Working via)
    | Pass k via \<Rightarrow> newly_placed (b k) (b' k) (Passed via)
    | Leave k \<Rightarrow> b k \<noteq> None \<and> b' k = None)"

lemma explainsD:
  assumes "explains b as b'" and "a \<in> set as"
  shows "a = Enter k l c \<Longrightarrow> b k = None \<and> (\<exists>d. b' k = Some d \<and> dc_local d = l \<and> dc_caller d = c)"
    "a = Hand k via \<Longrightarrow> newly_placed (b k) (b' k) (Working via)"
    "a = Pass k via \<Longrightarrow> newly_placed (b k) (b' k) (Passed via)"
    "a = Leave k \<Longrightarrow> b k \<noteq> None \<and> b' k = None"
  using bspec [OF assms(1) [unfolded explains_def] assms(2)] by simp_all

lemma explains_simps [simp]:
  "explains b [] b'"
  "explains b (as @ as') b' \<longleftrightarrow> explains b as b' \<and> explains b as' b'"
  by (auto simp: explains_def)

lemma leave_all:
  assumes "finite F" and "F \<subseteq> dom b - dom b'"
  shows "\<exists>as. dpath b as (b |` (- F)) \<and> explains b as b'"
  using assms
proof (induction F)
  case empty
  have "dpath b [] (b |` (- {}))" using dpath.stop [of b] by (simp add: restrict_map_def)
  then show ?case by (blast intro: explains_simps(1))
next
  case (insert k F)
  then obtain as where as: "dpath b as (b |` (- F))" "explains b as b'" by auto
  have "(b |` (- F))(k := None) = b |` (- insert k F)" by (auto simp: restrict_map_def)
  moreover have "k \<in> dom (b |` (- F))" using insert.hyps(2) insert.prems by (auto simp: restrict_map_def)
  ultimately have "dpath (b |` (- F)) [Leave k] (b |` (- insert k F))"
    using dpath_one dstep.leave by metis
  then have "dpath b (as @ [Leave k]) (b |` (- insert k F))" using as(1) dpath_append by blast
  moreover have "explains b [Leave k] b'" using insert.prems by (auto simp: explains_def)
  ultimately show ?case using as(2) explains_simps(2) by blast
qed

text \<open>A waiting call gets its place.\<close>

lemma settle:
  assumes "b k = Some d" and "call_change (Some d) (Some d')"
    and "\<And>via. dc_standing d = Waiting \<Longrightarrow> dc_standing d' = Working via \<Longrightarrow> free_in via b"
    and b0: "b' k = Some d'" "\<And>d0. b0 k = Some d0 \<Longrightarrow> dc_standing d0 = dc_standing d"
  shows "\<exists>as. dpath b as (b(k \<mapsto> d')) \<and> explains b0 as b'"
proof (cases "dc_standing d' = dc_standing d")
  case True
  with assms have "b(k \<mapsto> d') = b" by (auto simp: call_change_def intro: dcall.equality)
  with dpath.stop [of b] show ?thesis by (metis explains_simps(1))
next
  case False
  with assms(2) have w: "dc_standing d = Waiting" and d': "d' = d\<lparr>dc_standing := dc_standing d'\<rparr>"
    by (auto simp: call_change_def intro: dcall.equality)
  show ?thesis
  proof (cases "dc_standing d'")
    case (Working via)
    with dstep.hand [of b k d via] assms(1) w assms(3) [OF w] d' have "dstep b (Hand k via) (b(k \<mapsto> d'))" by simp
    moreover have "explains b0 [Hand k via] b'"
      using Working b0 w by (auto simp: explains_def newly_placed_def)
    ultimately show ?thesis using dpath_one by blast
  next
    case (Passed via)
    with dstep.pass [of b k d via] assms(1) w d' have "dstep b (Pass k via) (b(k \<mapsto> d'))" by simp
    moreover have "explains b0 [Pass k via] b'"
      using Passed b0 w by (auto simp: explains_def newly_placed_def)
    ultimately show ?thesis using dpath_one by blast
  qed (use False w in simp)
qed

lemma arrive_all:
  assumes change: "\<And>k. call_change (b k) (b' k)" and excl: "exclusive_book b'" and "finite F"
    and "F \<subseteq> dom b'" and b0: "b0 = b |` dom b'"
  shows "\<exists>as. dpath b0 as (\<lambda>k. if k \<in> F then b' k else b0 k) \<and> explains b as b'"
  using assms(3,4)
proof (induction F)
  case empty
  have "dpath b0 [] (\<lambda>k. if k \<in> {} then b' k else b0 k)" using dpath.stop by simp
  then show ?case by (blast intro: explains_simps(1))
next
  case (insert k F)
  define c where "c = (\<lambda>j. if j \<in> F then b' j else b0 j)"
  obtain as where as: "dpath b0 as c" "explains b as b'" using insert by (auto simp: c_def)
  obtain d' where d': "b' k = Some d'" using insert.prems by auto
  have c_k: "c k = b k" using insert.hyps(2) d' by (simp add: c_def b0 restrict_map_def domI)
  have placed: "\<exists>d'. b' j = Some d' \<and> dc_standing d' = Working via"
    if j: "c j = Some d" "dc_standing d = Working via" for j d via
    using j change [of j] by (cases "j \<in> F") (auto simp: c_def b0 call_change_def restrict_map_def split: if_splits)
  have free: "free_in via c" if w: "dc_standing d' = Working via" "\<And>d. c k = Some d \<Longrightarrow> dc_standing d = Waiting" for via
  proof -
    have "j = k" if "c j = Some d" "dc_standing d = Working via" for j d
      using placed [OF that] excl d' w(1) unfolding exclusive_book_def by blast
    with w(2) show ?thesis unfolding free_in_def by fastforce
  qed
  obtain as1 where as1: "dpath c as1 (c(k \<mapsto> d'))" "explains b as1 b'"
  proof (cases "c k")
    case (Some d)
    have "call_change (Some d) (Some d')" using change [of k] Some d' c_k by simp
    moreover have "free_in via c" if "dc_standing d = Waiting" "dc_standing d' = Working via" for via
      using free [OF that(2)] that(1) Some by simp
    moreover have "dc_standing d0 = dc_standing d" if "b k = Some d0" for d0 using that Some c_k by simp
    ultimately have "\<exists>as. dpath c as (c(k \<mapsto> d')) \<and> explains b as b'"
      using settle [of c k d d' b' b] Some d' by blast
    then show ?thesis using that by blast
  next
    case None
    let ?d = "\<lparr>dc_local = dc_local d', dc_caller = dc_caller d', dc_standing = Waiting\<rparr>"
    let ?e = "Enter k (dc_local d') (dc_caller d')"
    have e: "dpath c [?e] (c(k \<mapsto> ?d))" by (rule dpath_one [OF dstep.enter [of c, OF None]])
    have "\<exists>as. dpath (c(k \<mapsto> ?d)) as (c(k \<mapsto> ?d, k \<mapsto> d')) \<and> explains b as b'"
    proof (rule settle)
      show "call_change (Some ?d) (Some d')" by (simp add: call_change_def)
      show "free_in via (c(k \<mapsto> ?d))" if "dc_standing d' = Working via" for via
        using free [OF that] None by (auto simp: free_in_def)
    qed (use None c_k d' in simp_all)
    then obtain as2 where "dpath (c(k \<mapsto> ?d)) as2 (c(k \<mapsto> d'))" "explains b as2 b'" by auto
    moreover have "explains b [?e] b'" using None c_k d' by (simp add: explains_def)
    ultimately show ?thesis using that dpath_append [OF e] explains_simps(2) by blast
  qed
  have "c(k \<mapsto> d') = (\<lambda>j. if j \<in> insert k F then b' j else b0 j)" using d' by (auto simp: c_def)
  with dpath_append [OF as(1) as1(1)] have "dpath b0 (as @ as1) (\<lambda>j. if j \<in> insert k F then b' j else b0 j)" by simp
  moreover have "explains b (as @ as1) b'" using as(2) as1(2) by simp
  ultimately show ?case by blast
qed

lemma change_dispatched:
  assumes "\<And>k. call_change (b k) (b' k)" and "exclusive_book b'" and "finite (dom b)" and "finite (dom b')"
  shows "\<exists>as. dpath b as b' \<and> explains b as b'"
proof -
  obtain as where as: "dpath b as (b |` (- (dom b - dom b')))" "explains b as b'"
    using leave_all [of "dom b - dom b'" b b'] assms(3) by auto
  have b0: "b |` (- (dom b - dom b')) = b |` dom b'" by (auto simp: restrict_map_def)
  obtain as1 where as1: "dpath (b |` dom b') as1 (\<lambda>k. if k \<in> dom b' then b' k else (b |` dom b') k)" "explains b as1 b'"
    using arrive_all [OF assms(1,2,4) order_refl refl] by blast
  have "(\<lambda>k. if k \<in> dom b' then b' k else (b |` dom b') k) = b'" by (rule ext) (auto simp: domIff)
  with as as1 b0 dpath_append explains_simps(2) show ?thesis by metis
qed

section \<open>The broker\<close>

definition standing_of :: "message \<Rightarrow> standing" where
  "standing_of m = (case msg_routed m of
      None \<Rightarrow> Waiting
    | Some via \<Rightarrow> if msg_proc_ts m \<noteq> 0 then Working via else Passed via)"

definition dcall_of :: "message \<Rightarrow> dcall" where
  "dcall_of m = \<lparr>dc_local = msg_local m, dc_caller = msg_identity m, dc_standing = standing_of m\<rparr>"

definition book_of :: "proxy \<Rightarrow> book" where
  "book_of p = (\<lambda>k. map_option dcall_of (zh_lookup k (px_queue p)))"

lemma working_standing: "standing_of m = Working via \<longleftrightarrow> works_on via m"
  by (auto simp: standing_of_def works_on_def split: option.splits)

lemma book_exclusive: "exclusive p \<Longrightarrow> exclusive_book (book_of p)"
  unfolding exclusive_def exclusive_in_def exclusive_book_def book_of_def
  by (auto simp: dcall_of_def working_standing)

lemma book_finite: "finite (dom (book_of p))"
proof -
  have "dom (book_of p) \<subseteq> fst ` set (px_queue p)"
    by (auto simp: book_of_def zh_lookup_def dest!: map_of_SomeD intro: rev_image_eqI)
  then show ?thesis using finite_subset by blast
qed

lemma same_caller_change: "same_caller m m' \<Longrightarrow> call_change (Some (dcall_of m)) (Some (dcall_of m'))"
  by (auto simp: same_caller_def call_change_def dcall_of_def standing_of_def split: option.splits)

text \<open>A call that arrives is entered, or the queue is unchanged under its action id.\<close>

definition entered :: "message \<Rightarrow> proxy \<Rightarrow> proxy \<Rightarrow> bool" where
  "entered m p p' \<longleftrightarrow> zh_lookup (msg_actionid m) (px_queue p') = zh_lookup (msg_actionid m) (px_queue p) \<or>
     zh_lookup (msg_actionid m) (px_queue p) = None \<and>
     (\<exists>m'. zh_lookup (msg_actionid m) (px_queue p') = Some m' \<and> msg_local m' = msg_local m \<and> msg_identity m' = msg_identity m)"

lemma process_call_enters:
  assumes "process_call E m p = Inr p'"
  shows "entered m p p'"
  using assms
proof (cases rule: process_call_cases)
  case (malformed m')
  then show ?thesis by (auto simp: entered_def refuse_call_def dest: send_message_fields(6))
next
  case (refused md func ver rc m1 p1)
  then show ?thesis
    using place_call_frame(1) by (auto simp: entered_def refuse_call_def dest: send_message_fields(6))
next
  case (queued md func ver rc m1 p1)
  note F = place_call_frame [OF queued(2)]
  have "msg_actionid m1 = msg_actionid m" "msg_local m1 = msg_local m" "msg_identity m1 = msg_identity m"
    using F(3) by (simp_all add: same_caller_def call_of_def)
  with F(1) show ?thesis
    by (cases "zh_lookup (msg_actionid m) (px_queue p)") (auto simp: entered_def queued(5) zh_lookup_insert)
qed

lemma handle_enters:
  assumes "handle W E ev p = Inr p'" and "received W E ev = Some m" and "msg_command m = Some ''call''"
  shows "entered m p p'"
proof (cases ev)
  case (Local_In msg answer)
  then have "process_call E m p = Inr p'"
    using assms by (auto simp: handle_def s_local_event_def received_def process_command_def res_simps split: sum.splits)
  then show ?thesis by (rule process_call_enters)
next
  case (Global_In msg answer)
  then obtain p1 where "process_call E m p1 = Inr p'" "px_queue p1 = px_queue p"
    using assms by (auto simp: handle_def s_global_event_def received_def process_command_def res_simps
        split: sum.splits option.splits)
  then show ?thesis using process_call_enters by (fastforce simp: entered_def)
qed (use assms(2) in \<open>simp_all add: received_def\<close>)

text \<open>The action id under which an event may enter a call.\<close>

definition new_ids :: "world \<Rightarrow> env \<Rightarrow> event \<Rightarrow> string set" where
  "new_ids W E ev = {k. \<exists>m. received W E ev = Some m \<and> msg_command m = Some ''call'' \<and> k = msg_actionid m}"

lemma handle_changes:
  assumes run: "handle W E ev p = Inr p'" and prog: "progress A (- new_ids W E ev) p p'"
  shows "call_change (book_of p k) (book_of p' k)"
    "book_of p k = None \<Longrightarrow> book_of p' k = Some d \<Longrightarrow> \<exists>m. received W E ev = Some m \<and>
       msg_command m = Some ''call'' \<and> msg_actionid m = k \<and> msg_local m = dc_local d \<and> msg_identity m = dc_caller d"
proof -
  have old: "\<exists>m. zh_lookup k (px_queue p) = Some m \<and> same_caller m m'"
    if "k \<notin> new_ids W E ev" "zh_lookup k (px_queue p') = Some m'" for m'
    using prog that by (auto simp: progress_def)
  have new: "\<exists>m. received W E ev = Some m \<and> msg_command m = Some ''call'' \<and> msg_actionid m = k \<and> entered m p p'"
    if "k \<in> new_ids W E ev"
    using that handle_enters [OF run] by (auto simp: new_ids_def)
  show "call_change (book_of p k) (book_of p' k)"
  proof (cases "zh_lookup k (px_queue p)")
    case None
    then show ?thesis by (simp add: book_of_def call_change_def)
  next
    case (Some m)
    show ?thesis
    proof (cases "zh_lookup k (px_queue p')")
      case None
      then show ?thesis by (simp add: book_of_def call_change_def)
    next
      case (Some m')
      have "same_caller m m'"
        using old [OF _ Some] new \<open>zh_lookup k (px_queue p) = Some m\<close> Some
        by (cases "k \<in> new_ids W E ev") (auto simp: entered_def)
      from same_caller_change [OF this] show ?thesis
        using \<open>zh_lookup k (px_queue p) = Some m\<close> Some by (simp add: book_of_def)
    qed
  qed
  show "\<exists>m. received W E ev = Some m \<and> msg_command m = Some ''call'' \<and> msg_actionid m = k \<and>
      msg_local m = dc_local d \<and> msg_identity m = dc_caller d"
    if new_call: "book_of p k = None" "book_of p' k = Some d"
  proof -
    obtain m' where m': "zh_lookup k (px_queue p) = None" "zh_lookup k (px_queue p') = Some m'" "d = dcall_of m'"
      using new_call by (auto simp: book_of_def)
    with old have "k \<in> new_ids W E ev" by fastforce
    from new [OF this] m' show ?thesis by (auto simp: entered_def dcall_of_def)
  qed
qed

text \<open>What is behind an action: a call that arrived, the message with a call that was sent on, and the
  answer to a local caller.\<close>

definition backed :: "world \<Rightarrow> env \<Rightarrow> event \<Rightarrow> proxy \<Rightarrow> proxy \<Rightarrow> action \<Rightarrow> bool" where
  "backed W E ev p p' a \<longleftrightarrow> (case a of
      Enter k l c \<Rightarrow> \<exists>m. received W E ev = Some m \<and> msg_command m = Some ''call'' \<and>
        msg_actionid m = k \<and> msg_local m = l \<and> msg_identity m = c
    | Hand k via \<Rightarrow> \<exists>m. zh_lookup k (px_queue p') = Some m \<and> sent_between (msg_object m) via p p'
    | Pass k via \<Rightarrow> \<exists>m. zh_lookup k (px_queue p') = Some m \<and> sent_between (msg_object m) via p p'
    | Leave k \<Rightarrow> \<exists>m. zh_lookup k (px_queue p) = Some m \<and>
        (msg_local m \<longrightarrow> (\<exists>ob. answer_for k ob \<and> answered_with ob m p p')))"

lemma newly_placed_sent:
  assumes prog: "progress A K p p'" and "newly_placed (book_of p k) (book_of p' k) st" and "st = Working via \<or> st = Passed via"
  shows "\<exists>m. zh_lookup k (px_queue p') = Some m \<and> sent_between (msg_object m) via p p'"
proof -
  obtain m where m: "zh_lookup k (px_queue p') = Some m" "standing_of m = st"
    using assms(2) by (auto simp: newly_placed_def book_of_def dcall_of_def)
  have "msg_routed m = Some via" using m(2) assms(3) by (auto simp: standing_of_def split: option.splits if_splits)
  with prog m(1) have "placed_or_sent p p' k m via" by (auto simp: progress_def)
  moreover have "msg_routed m0 = None" if "zh_lookup k (px_queue p) = Some m0" for m0
    using assms(2) that by (auto simp: newly_placed_def book_of_def dcall_of_def standing_of_def split: option.splits if_splits)
  ultimately show ?thesis using m(1) by (auto simp: placed_or_sent_def)
qed

lemma explained_backed:
  assumes run: "handle W E ev p = Inr p'" and inv: "router_inv p"
    and prog: "progress answer_for (- new_ids W E ev) p p'"
    and "explains (book_of p) as (book_of p')" and "a \<in> set as"
  shows "backed W E ev p p' a"
proof (cases a)
  case (Enter k l c)
  with explainsD(1) [OF assms(4,5)] handle_changes(2) [OF run prog] show ?thesis by (auto simp: backed_def)
next
  case (Hand k via)
  with explainsD(2) [OF assms(4,5)] newly_placed_sent [OF prog] show ?thesis by (simp add: backed_def)
next
  case (Pass k via)
  with explainsD(3) [OF assms(4,5)] newly_placed_sent [OF prog] show ?thesis by (simp add: backed_def)
next
  case (Leave k)
  with explainsD(4) [OF assms(4,5)] obtain m where m: "zh_lookup k (px_queue p) = Some m" "zh_lookup k (px_queue p') = None"
    by (auto simp: book_of_def)
  have "\<exists>ob. answer_for k ob \<and> answered_with ob m p p'" if "msg_local m"
  proof -
    have "kept_or_answered answer_for p p' k m" using prog m(1) that by (auto simp: progress_def)
    with m queued_call(1) [OF inv m(1)] show ?thesis by (auto simp: kept_or_answered_def)
  qed
  with m Leave show ?thesis by (simp add: backed_def)
qed

lemma event_dispatched:
  assumes "reach W p" and "admissible W E ev p" and run: "handle W E ev p = Inr p'"
  shows "\<exists>as. dpath (book_of p) as (book_of p') \<and> (\<forall>a \<in> set as. backed W E ev p p' a)"
proof -
  have inv: "router_inv p" using reach_ok [OF assms(1)] by blast
  have excl: "exclusive p'" using reach_ok [OF reach.event [OF assms]] by blast
  have exp: "expected answer_for (- new_ids W E ev) m" if "received W E ev = Some m" for m
    using received_expected [OF that] that by (auto simp: expected_def new_ids_def)
  from handle_progress [OF inv run answer_for_admits exp]
  have prog: "progress answer_for (- new_ids W E ev) p p'" .
  obtain as where "dpath (book_of p) as (book_of p')" "explains (book_of p) as (book_of p')"
    using change_dispatched [OF handle_changes(1) [OF run prog] book_exclusive [OF excl] book_finite book_finite]
    by blast
  with explained_backed [OF run inv prog] show ?thesis by blast
qed

lemma reach_dispatched: "reach W p \<Longrightarrow> \<exists>as. dpath Map.empty as (book_of p)"
proof (induction rule: reach.induct)
  case start
  have "book_of proxy_new = Map.empty" by (simp add: book_of_def proxy_new_def)
  with dpath.stop show ?case by metis
next
  case (event p E ev p')
  with event_dispatched dpath_append show ?case by blast
next
  case (rehash p fabs mods queue)
  have "router_inv p" using reach_ok rehash(1) by blast
  from rehash_lookup(3) [OF this rehash(2-4)] have "book_of (p\<lparr>px_fabs := fabs, px_modules := mods, px_queue := queue\<rparr>) = book_of p"
    by (simp add: book_of_def)
  with rehash.IH show ?case by metis
qed

end
