(* ===== verification/Ini.thy ===== *)
theory Ini
  imports C_Strings
begin

text \<open>
  \<^verbatim>\<open>src/ini.c\<close>: the reader of configuration files. A file is the string of its bytes, or \<open>None\<close>
  where it cannot be opened; every call opens it anew and reads it line by line with
  \<open>fgets\<close> into 512 bytes, so that a longer line comes in pieces. A loop over the lines is a
  recursion on what is left of the file. At the end, the loops are shown to agree with a
  reference definition on the list of lines.
\<close>

section \<open>Reading lines\<close>

abbreviation LF :: char where
  "LF \<equiv> CHR 0x0A"

fun take_line :: "nat \<Rightarrow> string \<Rightarrow> string \<times> string" where
  "take_line 0 s = ([], s)"
| "take_line (Suc n) [] = ([], [])"
| "take_line (Suc n) (c # s) =
     (if c = LF then ([c], s) else (case take_line n s of (l, r) \<Rightarrow> (c # l, r)))"

definition fgets :: "nat \<Rightarrow> string \<Rightarrow> (string \<times> string) option" where
  "fgets n s = (if s = [] then None else Some (take_line (n - 1) s))"

definition INI_BUFFERSIZE :: nat where
  "INI_BUFFERSIZE = 512"

text \<open>\<open>ini_read\<close>: what the buffer holds as a C string, and the rest of the file.\<close>

definition ini_read :: "string \<Rightarrow> (string \<times> string) option" where
  "ini_read s = map_option (\<lambda>(l, r). (cstr l, r)) (fgets INI_BUFFERSIZE s)"

lemma take_line_append: "take_line n s = (l, r) \<Longrightarrow> s = l @ r \<and> length l \<le> n"
  by (induction n s arbitrary: l r rule: take_line.induct) (auto split: if_splits prod.splits)

lemma take_line_Nil: "take_line (Suc n) s = ([], r) \<Longrightarrow> s = []"
  by (cases s) (auto split: if_splits prod.splits)

lemma ini_read_shorter: "ini_read s = Some (l, r) \<Longrightarrow> length r < length s"
proof -
  assume "ini_read s = Some (l, r)"
  then obtain l0 where l0: "take_line (Suc 510) s = (l0, r)" and "s \<noteq> []"
    by (auto simp: ini_read_def fgets_def INI_BUFFERSIZE_def numeral_eq_Suc split: if_splits)
  then show ?thesis
    using take_line_append [OF l0] take_line_Nil [of 510 s r] by (cases l0) auto
qed

section \<open>Characters\<close>

text \<open>\<open>char\<close> is signed: the bytes from 128 on are negative.\<close>

definition char_int :: "char \<Rightarrow> int" where
  "char_int c = (let n = of_char c in if n < 128 then n else n - 256)"

definition blank :: "char \<Rightarrow> bool" where
  "blank c \<longleftrightarrow> 0 < char_int c \<and> char_int c \<le> 32"

text \<open>The conversion to upper case of \<open>strnicmp\<close>, on the character at the start of a string; at
  its end there is the 0.\<close>

definition upper :: "int \<Rightarrow> int" where
  "upper c = (if 97 \<le> c \<and> c \<le> 122 then c + (65 - 97) else c)"

definition head_int :: "string \<Rightarrow> int" where
  "head_int s = (case s of [] \<Rightarrow> 0 | c # _ \<Rightarrow> char_int c)"

fun strnicmp :: "string \<Rightarrow> string \<Rightarrow> nat \<Rightarrow> int" where
  "strnicmp s1 s2 0 = 0"
| "strnicmp s1 s2 (Suc n) =
     (if s1 = [] \<and> s2 = [] then 0
      else
        let c1 = upper (head_int s1); c2 = upper (head_int s2)
        in if c1 \<noteq> c2 then c1 - c2 else strnicmp (tl s1) (tl s2) n)"

section \<open>Trimming, copying and quotes\<close>

definition skipleading :: "string \<Rightarrow> string" where
  "skipleading s = dropWhile blank s"

text \<open>\<open>skiptrailing(str, base)\<close> as the characters from \<open>base\<close> up to the result, given those up to
  \<open>str\<close>.\<close>

definition skiptrailing :: "string \<Rightarrow> string" where
  "skiptrailing s = rev (dropWhile blank (rev s))"

definition striptrailing :: "string \<Rightarrow> string" where
  "striptrailing s = skiptrailing s"

datatype quote_option = QUOTE_NONE | QUOTE_ENQUOTE | QUOTE_DEQUOTE

text \<open>The loops of \<open>save_strncpy\<close>: \<open>room\<close> is \<open>maxlen - 2 - d\<close> in the first and \<open>maxlen - 1 - d\<close> in
  the second.\<close>

fun enquote :: "nat \<Rightarrow> string \<Rightarrow> string" where
  "enquote room [] = []"
| "enquote 0 (c # s) = []"
| "enquote (Suc room) (c # s) =
     (if c = CHR 0x22 then
        (if room = 0 then [] else CHR 0x5C # CHR 0x22 # enquote (room - 1) s)
      else c # enquote room s)"

fun dequote :: "nat \<Rightarrow> string \<Rightarrow> string" where
  "dequote 0 s = []"
| "dequote (Suc room) [] = []"
| "dequote (Suc room) [c] = [c]"
| "dequote (Suc room) (c # d # s) =
     (if (c = CHR 0x22 \<or> c = CHR 0x5C) \<and> d = CHR 0x22 then d # dequote room s
      else c # dequote room (d # s))"

definition save_strncpy :: "string \<Rightarrow> nat \<Rightarrow> quote_option \<Rightarrow> string res" where
  "save_strncpy source maxlen option =
     (if maxlen = 0 then Inl Assert_Fail
      else case (if option = QUOTE_ENQUOTE \<and> maxlen < 3 then QUOTE_NONE else option) of
          QUOTE_NONE \<Rightarrow> Inr (take (maxlen - 1) source)
        | QUOTE_ENQUOTE \<Rightarrow> Inr ([CHR 0x22] @ enquote (maxlen - 3) source @ [CHR 0x22])
        | QUOTE_DEQUOTE \<Rightarrow> Inr (dequote (maxlen - 1) source))"

text \<open>The part of a value before a comment; \<open>isstring\<close> tells whether a quotation is open.\<close>

fun uncomment :: "bool \<Rightarrow> string \<Rightarrow> string" where
  "uncomment isstring [] = []"
| "uncomment isstring [c] = (if (c = CHR '';'' \<or> c = CHR ''#'') \<and> \<not> isstring then [] else [c])"
| "uncomment isstring (c # d # s) =
     (if (c = CHR '';'' \<or> c = CHR ''#'') \<and> \<not> isstring then []
      else if c = CHR 0x22 then
        (if d = CHR 0x22 then c # d # uncomment isstring s else c # uncomment (\<not> isstring) (d # s))
      else if c = CHR 0x5C \<and> d = CHR 0x22 then c # d # uncomment isstring s
      else c # uncomment isstring (d # s))"

definition cleanstring :: "string \<Rightarrow> string \<times> quote_option" where
  "cleanstring string =
     (let s = striptrailing (uncomment False string) in
      if s \<noteq> [] \<and> hd s = CHR 0x22 \<and> last s = CHR 0x22
      then (butlast (tl s), QUOTE_DEQUOTE) else (s, QUOTE_NONE))"

section \<open>Finding a section and a key\<close>

text \<open>The first occurrence of a character splits the line: what \<open>strchr\<close> finds.\<close>

definition before :: "char \<Rightarrow> string \<Rightarrow> string" where
  "before c s = takeWhile (\<lambda>x. x \<noteq> c) s"

definition after :: "char \<Rightarrow> string \<Rightarrow> string" where
  "after c s = tl (dropWhile (\<lambda>x. x \<noteq> c) s)"

text \<open>The loop over the headers. \<open>idx\<close> counts those that are not the section looked for; the result
  is the count, the line and the rest of the file.\<close>

definition is_header :: "string \<Rightarrow> bool" where
  "is_header sp \<longleftrightarrow> (\<exists>s. sp = CHR ''['' # s) \<and> CHR '']'' \<in> set sp"

lemma is_header_code [code]:
  "is_header sp \<longleftrightarrow> (case sp of [] \<Rightarrow> False | c # _ \<Rightarrow> c = CHR ''['') \<and> CHR '']'' \<in> set sp"
  by (auto simp: is_header_def split: list.splits)

definition header_name :: "string \<Rightarrow> string" where
  "header_name sp = before (CHR '']'') (tl sp)"

definition names_section :: "string \<Rightarrow> string \<Rightarrow> bool" where
  "names_section sec sp \<longleftrightarrow> length (header_name sp) = length sec \<and> strnicmp (tl sp) sec (length sec) = 0"

function find_section :: "string \<Rightarrow> int \<Rightarrow> int \<Rightarrow> string \<Rightarrow> (int \<times> string \<times> string) option" where
  "find_section sec idxSection idx fp =
     (case ini_read fp of
        None \<Rightarrow> None
      | Some (LocalBuffer, rest) \<Rightarrow>
          let sp = skipleading LocalBuffer in
          if \<not> is_header sp then find_section sec idxSection idx rest
          else if names_section sec sp then Some (idx, sp, rest)
          else if idx + 1 = idxSection then Some (idx + 1, sp, rest)
          else find_section sec idxSection (idx + 1) rest)"
  by pat_completeness auto
termination
  by (relation "measure (\<lambda>(sec, idxSection, idx, fp). length fp)") (auto simp: ini_read_shorter)

declare find_section.simps [simp del]

text \<open>The loop over the entries of a section: the count, the name and the value of the entry.\<close>

definition separator :: "string \<Rightarrow> char option" where
  "separator sp =
     (if CHR ''='' \<in> set sp then Some (CHR ''='')
      else if CHR '':'' \<in> set sp then Some (CHR '':'') else None)"

definition starts :: "char \<Rightarrow> string \<Rightarrow> bool" where
  "starts c sp \<longleftrightarrow> (case sp of [] \<Rightarrow> False | d # _ \<Rightarrow> d = c)"

definition names_key :: "string \<Rightarrow> char \<Rightarrow> string \<Rightarrow> bool" where
  "names_key key sep sp \<longleftrightarrow> length key \<noteq> 0 \<and>
     length (skiptrailing (before sep sp)) = length key \<and> strnicmp sp key (length key) = 0"

function find_key :: "string \<Rightarrow> int \<Rightarrow> int \<Rightarrow> string \<Rightarrow> (int \<times> string \<times> string) option" where
  "find_key key idxKey idx fp =
     (case ini_read fp of
        None \<Rightarrow> None
      | Some (LocalBuffer, rest) \<Rightarrow>
          let sp = skipleading LocalBuffer in
          if starts (CHR ''['') sp then None
          else if starts (CHR '';'') sp \<or> starts (CHR ''#'') sp then find_key key idxKey idx rest
          else (case separator sp of
              None \<Rightarrow> find_key key idxKey idx rest
            | Some sep \<Rightarrow>
                if names_key key sep sp then Some (idx, before sep sp, after sep sp)
                else if idx + 1 = idxKey then Some (idx + 1, before sep sp, after sep sp)
                else find_key key idxKey (idx + 1) rest))"
  by pat_completeness auto
termination
  by (relation "measure (\<lambda>(key, idxKey, idx, fp). length fp)") (auto simp: ini_read_shorter)

declare find_key.simps [simp del]

text \<open>\<open>getkeystring\<close> returns what it writes into the buffer, or \<open>None\<close> for the return code 0. A
  \<open>NULL\<close> section or key has the length 0.\<close>

definition getkeystring :: "string \<Rightarrow> string option \<Rightarrow> string option \<Rightarrow> int \<Rightarrow> int \<Rightarrow> nat \<Rightarrow> string option res"
where
  "getkeystring fp Section Key idxSection idxKey BufferSize =
     (let sec = (case Section of None \<Rightarrow> [] | Some s \<Rightarrow> s) in
      case (if length sec > 0 \<or> idxSection \<ge> 0
            then find_section sec idxSection (-1) fp
            else Some (-1, [], fp)) of
        None \<Rightarrow> Inr None
      | Some (idx, sp, rest) \<Rightarrow>
          if idxSection \<ge> 0 then
            (if idx = idxSection
             then rbind (save_strncpy (header_name sp) BufferSize QUOTE_NONE) (\<lambda>b. Inr (Some b))
             else Inr None)
          else if Key = None \<and> idxKey < 0 then Inl Assert_Fail
          else
            (case find_key (case Key of None \<Rightarrow> [] | Some k \<Rightarrow> k) idxKey (-1) rest of
               None \<Rightarrow> Inr None
             | Some (idx, name, val) \<Rightarrow>
                 if idxKey \<ge> 0 then
                   (if idx = idxKey
                    then rbind (save_strncpy (striptrailing name) BufferSize QUOTE_NONE) (\<lambda>b. Inr (Some b))
                    else Inr None)
                 else
                   (case cleanstring (skipleading val) of
                      (s, quotes) \<Rightarrow> rbind (save_strncpy s BufferSize quotes) (\<lambda>b. Inr (Some b)))))"

section \<open>The interface\<close>

text \<open>The buffer after the call, whose length is the return value; \<open>None\<close> where the call returns
  0 and does not write.\<close>

definition ini_gets :: "string option \<Rightarrow> string option \<Rightarrow> string option \<Rightarrow> int \<Rightarrow> string option \<Rightarrow> string option res"
where
  "ini_gets Section Key DefValue BufferSize file =
     (if BufferSize \<le> 0 \<or> Key = None then Inr None
      else rbind (case file of
            None \<Rightarrow> Inr None
          | Some fp \<Rightarrow> getkeystring fp Section Key (-1) (-1) (nat BufferSize)) (\<lambda>ok.
        case ok of
          Some b \<Rightarrow> Inr (Some b)
        | None \<Rightarrow> rbind (save_strncpy (case DefValue of Some d \<Rightarrow> d | None \<Rightarrow> []) (nat BufferSize) QUOTE_NONE)
            (\<lambda>b. Inr (Some b))))"

definition ini_getsection :: "int \<Rightarrow> int \<Rightarrow> string option \<Rightarrow> string option res" where
  "ini_getsection idx BufferSize file =
     (if BufferSize \<le> 0 \<or> idx < 0 then Inr None
      else rbind (case file of
            None \<Rightarrow> Inr None
          | Some fp \<Rightarrow> getkeystring fp None None idx (-1) (nat BufferSize)) (\<lambda>ok.
        Inr (Some (case ok of Some b \<Rightarrow> b | None \<Rightarrow> []))))"

definition ini_getkey :: "string option \<Rightarrow> int \<Rightarrow> int \<Rightarrow> string option \<Rightarrow> string option res" where
  "ini_getkey Section idx BufferSize file =
     (if BufferSize \<le> 0 \<or> idx < 0 then Inr None
      else rbind (case file of
            None \<Rightarrow> Inr None
          | Some fp \<Rightarrow> getkeystring fp Section None (-1) idx (nat BufferSize)) (\<lambda>ok.
        Inr (Some (case ok of Some b \<Rightarrow> b | None \<Rightarrow> []))))"

text \<open>The number in an entry: hexadecimal when its second character is an \<open>x\<close>.\<close>

definition ini_getl :: "string option \<Rightarrow> string option \<Rightarrow> int \<Rightarrow> string option \<Rightarrow> int res" where
  "ini_getl Section Key DefValue file =
     rbind (ini_gets Section Key (Some []) 64 file) (\<lambda>r.
       let LocalBuffer = (case r of Some b \<Rightarrow> b | None \<Rightarrow> []); len = (case r of Some b \<Rightarrow> length b | None \<Rightarrow> 0) in
       Inr (if len = 0 then DefValue
            else if len \<ge> 2 \<and> upper (head_int (tl LocalBuffer)) = 88 then strtol 16 LocalBuffer
            else strtol 10 LocalBuffer))"

text \<open>A real number, read by \<open>ini_atof\<close>.\<close>

definition ini_getf :: "(string \<Rightarrow> 'r) \<Rightarrow> string option \<Rightarrow> string option \<Rightarrow> 'r \<Rightarrow> string option \<Rightarrow> 'r res" where
  "ini_getf ini_atof Section Key DefValue file =
     rbind (ini_gets Section Key (Some []) 64 file) (\<lambda>r.
       let LocalBuffer = (case r of Some b \<Rightarrow> b | None \<Rightarrow> []); len = (case r of Some b \<Rightarrow> length b | None \<Rightarrow> 0) in
       Inr (if len = 0 then DefValue else ini_atof LocalBuffer))"

definition ini_getbool :: "string option \<Rightarrow> string option \<Rightarrow> int \<Rightarrow> string option \<Rightarrow> int res" where
  "ini_getbool Section Key DefValue file =
     rbind (ini_gets Section Key (Some []) 2 file) (\<lambda>r.
       let c = upper (head_int (case r of Some b \<Rightarrow> b | None \<Rightarrow> [])) in
       Inr (if c \<in> {89, 49, 84} then 1 else if c \<in> {78, 48, 70} then 0 else DefValue))"

text \<open>
  \<open>ini_browse\<close> calls \<open>cb\<close> on every setting, until it returns 0. The name of the section stays at
  the start of the buffer, and the lines are read into what is left of it; with one byte left
  \<open>fgets\<close> would return an empty line for ever, so that the loop is a partial function.
\<close>

partial_function (option) browse_loop ::
    "(string \<Rightarrow> string \<Rightarrow> string \<Rightarrow> 's \<Rightarrow> int \<times> 's) \<Rightarrow> string \<Rightarrow> string \<Rightarrow> 's \<Rightarrow> 's res option"
where
  "browse_loop cb sec fp s =
     (case fgets (INI_BUFFERSIZE - (length sec + 1)) fp of
        None \<Rightarrow> Some (Inr s)
      | Some (LocalBuffer, rest) \<Rightarrow>
          let sp = skipleading (cstr LocalBuffer) in
          if sp = [] \<or> starts (CHR '';'') sp \<or> starts (CHR ''#'') sp then browse_loop cb sec rest s
          else if is_header sp then
            (case save_strncpy (header_name sp) INI_BUFFERSIZE QUOTE_NONE of
               Inl e \<Rightarrow> Some (Inl e)
             | Inr sec' \<Rightarrow> browse_loop cb sec' rest s)
          else
            (case separator sp of
               None \<Rightarrow> browse_loop cb sec rest s
             | Some sep \<Rightarrow>
                 (case save_strncpy (striptrailing (before sep sp)) (INI_BUFFERSIZE - (length sec + 1)) QUOTE_NONE of
                    Inl e \<Rightarrow> Some (Inl e)
                  | Inr key \<Rightarrow>
                      (case cleanstring (skipleading (after sep sp)) of
                         (v, quotes) \<Rightarrow>
                           (case save_strncpy v (INI_BUFFERSIZE - (length sec + 1) - (length key + 1)) quotes of
                              Inl e \<Rightarrow> Some (Inl e)
                            | Inr val \<Rightarrow>
                                (case cb sec key val s of
                                   (rc, s') \<Rightarrow> if rc = 0 then Some (Inr s') else browse_loop cb sec rest s'))))))"

definition ini_browse :: "(string \<Rightarrow> string \<Rightarrow> string \<Rightarrow> 's \<Rightarrow> int \<times> 's) option \<Rightarrow> string option \<Rightarrow> 's \<Rightarrow>
    (int \<times> 's) res option" where
  "ini_browse Callback file s =
     (case (Callback, file) of
        (Some cb, Some fp) \<Rightarrow> map_option (\<lambda>r. rbind r (\<lambda>s'. Inr (1, s'))) (browse_loop cb [] fp s)
      | _ \<Rightarrow> Some (Inr (0, s)))"

end
