(* ===== verification/Ini_Facts.thy ===== *)
theory Ini_Facts
  imports Ini
begin

text \<open>
  The reader of configuration files against its reference: a file is the list of its lines,
  a section the lines up to the next header, and a value that of the first entry of the
  key. Names are compared without regard to case.
\<close>

section \<open>Comparison of names\<close>

definition up :: "char \<Rightarrow> int" where
  "up c = upper (char_int c)"

definition same_name :: "string \<Rightarrow> string \<Rightarrow> bool" where
  "same_name a b \<longleftrightarrow> map up a = map up b"

lemma up_NUL: "up c = 0 \<longleftrightarrow> c = NUL"
proof -
  have "char_int c = 0 \<longleftrightarrow> c = NUL"
    using nat_of_char_less_256 [of c] by (cases c) (auto simp: char_int_def Let_def of_char_Char)
  then show ?thesis by (auto simp: up_def upper_def)
qed

lemma strnicmp_cstr:
  assumes "is_cstr a" and "is_cstr b" and "n \<le> length b"
  shows "strnicmp a b n = 0 \<longleftrightarrow> n \<le> length a \<and> same_name (take n a) (take n b)"
  using assms
proof (induction n arbitrary: a b)
  case 0
  then show ?case by (simp add: same_name_def)
next
  case (Suc n)
  then obtain d b' where b: "b = d # b'" by (cases b) auto
  show ?case
  proof (cases a)
    case Nil
    with Suc.prems b up_NUL [of d] show ?thesis
      by (auto simp: head_int_def Let_def up_def upper_def)
  next
    case (Cons c a')
    with Suc b show ?thesis
      by (auto simp: head_int_def Let_def same_name_def up_def)
  qed
qed

lemma skiptrailing_prefix: "\<exists>t. s = skiptrailing s @ t"
  by (metis rev_append rev_rev_ident skiptrailing_def takeWhile_dropWhile_id)

lemma before_prefix: "\<exists>t. s = before c s @ t"
  unfolding before_def by (metis takeWhile_dropWhile_id)

lemma same_name_prefix:
  assumes "s = p @ t" and "is_cstr s" and "is_cstr name"
  shows "length p = length name \<and> strnicmp s name (length name) = 0 \<longleftrightarrow> same_name p name"
proof -
  have "length p = length name" if "same_name p name"
    using that map_eq_imp_length_eq unfolding same_name_def by blast
  moreover have "strnicmp s name (length name) = 0 \<longleftrightarrow> same_name p name" if "length p = length name"
    using strnicmp_cstr [OF assms(2,3), of "length name"] that assms(1)
    by (metis append_eq_conv_conj length_append le_add1 order_refl take_all)
  ultimately show ?thesis by blast
qed

lemma names_section_iff:
  assumes "is_cstr sp" and "is_cstr sec"
  shows "names_section sec sp \<longleftrightarrow> same_name (header_name sp) sec"
proof -
  obtain t where "tl sp = header_name sp @ t"
    using before_prefix [of "tl sp" "CHR '']''"] unfolding header_name_def by auto
  moreover have "is_cstr (tl sp)"
    using assms(1) by (cases sp) auto
  ultimately show ?thesis
    using same_name_prefix [OF _ _ assms(2)] unfolding names_section_def by blast
qed

lemma names_key_iff:
  assumes "is_cstr sp" and "is_cstr key"
  shows "names_key key sep sp \<longleftrightarrow> key \<noteq> [] \<and> same_name (skiptrailing (before sep sp)) key"
proof -
  obtain t u where "sp = skiptrailing (before sep sp) @ t @ u"
    using before_prefix [of sp sep] skiptrailing_prefix [of "before sep sp"] by (metis append_assoc)
  from same_name_prefix [OF this assms] show ?thesis
    unfolding names_key_def by auto
qed

section \<open>Lines\<close>

function file_lines :: "string \<Rightarrow> string list" where
  "file_lines fp = (case ini_read fp of None \<Rightarrow> [] | Some (l, rest) \<Rightarrow> skipleading l # file_lines rest)"
  by pat_completeness auto
termination
  by (relation "measure length") (auto simp: ini_read_shorter)

declare file_lines.simps [simp del]

lemma file_lines_cases:
  "ini_read fp = None \<Longrightarrow> file_lines fp = []"
  "ini_read fp = Some (l, rest) \<Longrightarrow> file_lines fp = skipleading l # file_lines rest"
  by (simp_all add: file_lines.simps [of fp])

lemma is_cstr_skipleading: "is_cstr s \<Longrightarrow> is_cstr (skipleading s)"
  unfolding is_cstr_def skipleading_def using set_dropWhileD by fastforce

lemma ini_read_cstr: "ini_read fp = Some (l, rest) \<Longrightarrow> is_cstr (skipleading l)"
  by (auto simp: ini_read_def intro!: is_cstr_skipleading)

section \<open>The reference\<close>

definition opens :: "string \<Rightarrow> string \<Rightarrow> bool" where
  "opens sec sp \<longleftrightarrow> is_header sp \<and> same_name (header_name sp) sec"

definition section_lines :: "string \<Rightarrow> string list \<Rightarrow> string list" where
  "section_lines sec ls =
     takeWhile (\<lambda>sp. \<not> starts (CHR ''['') sp)
       (if sec = [] then ls else tl (dropWhile (\<lambda>sp. \<not> opens sec sp) ls))"

definition entry_for :: "string \<Rightarrow> string \<Rightarrow> bool" where
  "entry_for key sp \<longleftrightarrow> \<not> starts (CHR '';'') sp \<and> \<not> starts (CHR ''#'') sp \<and>
     (case separator sp of None \<Rightarrow> False | Some sep \<Rightarrow> key \<noteq> [] \<and> same_name (skiptrailing (before sep sp)) key)"

definition entry_value :: "string \<Rightarrow> string \<times> quote_option" where
  "entry_value sp = cleanstring (skipleading (after (the (separator sp)) sp))"

definition clip :: "nat \<Rightarrow> string \<times> quote_option \<Rightarrow> string" where
  "clip n = (\<lambda>(s, quotes). if quotes = QUOTE_DEQUOTE then dequote (n - 1) s else take (n - 1) s)"

definition ini_value :: "string \<Rightarrow> string \<Rightarrow> nat \<Rightarrow> string \<Rightarrow> string option" where
  "ini_value sec key n fp =
     map_option (\<lambda>sp. clip n (entry_value sp)) (find (entry_for key) (section_lines sec (file_lines fp)))"

section \<open>The loops\<close>

lemma find_section_lines:
  assumes "is_cstr sec" and "-1 \<le> idx" and "i = -1"
  shows "map_option (\<lambda>(i, sp, rest). sp # file_lines rest) (find_section sec i idx fp) =
    (case dropWhile (\<lambda>sp. \<not> opens sec sp) (file_lines fp) of [] \<Rightarrow> None | ls \<Rightarrow> Some ls)"
  using assms
proof (induction sec i idx fp rule: find_section.induct)
  case (1 sec i idx fp)
  show ?case
  proof (cases "ini_read fp")
    case None
    then show ?thesis by (simp add: find_section.simps [of _ _ _ fp] file_lines_cases)
  next
    case (Some lr)
    obtain l rest where lr: "lr = (l, rest)" by (cases lr)
    note sec = names_section_iff [OF ini_read_cstr [OF Some [unfolded lr]] 1(3)]
    note IH = 1(1,2) [OF Some lr [symmetric] refl]
    show ?thesis
      using IH 1(3-5) Some lr
      by (simp add: find_section.simps [of _ _ idx fp] file_lines_cases sec opens_def Let_def)
  qed
qed

lemma find_key_lines:
  assumes "is_cstr key" and "-1 \<le> idx" and "i = -1"
  shows "map_option (\<lambda>(i, name, val). (name, val)) (find_key key i idx fp) =
    map_option (\<lambda>sp. (before (the (separator sp)) sp, after (the (separator sp)) sp))
      (find (entry_for key) (takeWhile (\<lambda>sp. \<not> starts (CHR ''['') sp) (file_lines fp)))"
  using assms
proof (induction key i idx fp rule: find_key.induct)
  case (1 key i idx fp)
  show ?case
  proof (cases "ini_read fp")
    case None
    then show ?thesis by (simp add: find_key.simps [of _ _ _ fp] file_lines_cases)
  next
    case (Some lr)
    obtain l rest where lr: "lr = (l, rest)" by (cases lr)
    let ?sp = "skipleading l"
    note key = names_key_iff [OF ini_read_cstr [OF Some [unfolded lr]] 1(4)]
    note IH = 1(1,2,3) [OF Some lr [symmetric] refl]
    note step = find_key.simps [of key _ idx fp] file_lines_cases Some lr Let_def entry_for_def [of key ?sp]
    show ?thesis
    proof (cases "starts (CHR ''['') ?sp \<or> starts (CHR '';'') ?sp \<or> starts (CHR ''#'') ?sp \<or> separator ?sp = None")
      case True
      with IH(1,2) 1(4-6) show ?thesis by (auto simp: step)
    next
      case False
      then obtain sep where sep: "separator ?sp = Some sep" by auto
      with False IH(3) 1(4-6) show ?thesis by (cases "names_key key sep ?sp") (auto simp: step key)
    qed
  qed
qed

lemma save_strncpy_clip: "0 < n \<Longrightarrow> q \<noteq> QUOTE_ENQUOTE \<Longrightarrow> save_strncpy s n q = Inr (clip n (s, q))"
  by (cases q) (auto simp: save_strncpy_def clip_def)

lemma cleanstring_quotes: "snd (cleanstring s) \<noteq> QUOTE_ENQUOTE"
  by (simp add: cleanstring_def Let_def)

lemma dequote_length: "length (dequote n s) \<le> n"
  by (induction n s rule: dequote.induct) auto

lemma clip_length: "0 < n \<Longrightarrow> length (clip n x) < n"
proof -
  assume "0 < n"
  then have "length (dequote (n - 1) s) < n" for s
    using dequote_length [of "n - 1" s] by linarith
  with \<open>0 < n\<close> show ?thesis
    by (cases x) (auto simp: clip_def)
qed

section \<open>Agreement with the reference\<close>

lemma find_key_value:
  assumes "0 < n" and "is_cstr key"
  shows "(case find_key key (-1) (-1) rest of
      None \<Rightarrow> Inr None
    | Some (idx, name, val) \<Rightarrow>
        (case cleanstring (skipleading val) of
           (s, quotes) \<Rightarrow> rbind (save_strncpy s n quotes) (\<lambda>b. Inr (Some b)))) =
    (Inr (map_option (\<lambda>sp. clip n (entry_value sp))
      (find (entry_for key) (takeWhile (\<lambda>sp. \<not> starts (CHR ''['') sp) (file_lines rest)))) :: string option res)"
    (is "?lhs = Inr (map_option ?v ?f)")
proof -
  have clean: "(case cleanstring x of (s, quotes) \<Rightarrow> rbind (save_strncpy s n quotes) (\<lambda>b. Inr (Some b))) =
      (Inr (Some (clip n (cleanstring x))) :: string option res)" for x
    using save_strncpy_clip [OF assms(1)] cleanstring_quotes [of x] by (cases "cleanstring x") auto
  show ?thesis
    using find_key_lines [OF assms(2), of "-1" "-1" rest] clean
    by (cases "find_key key (-1) (-1) rest"; cases ?f) (auto simp: entry_value_def)
qed

lemma getkeystring_value:
  assumes "0 < n" and "is_cstr sec" and "is_cstr key"
  shows "getkeystring fp (Some sec) (Some key) (-1) (-1) n = Inr (ini_value sec key n fp)"
proof (cases "sec = []")
  case True
  then show ?thesis
    by (simp add: getkeystring_def find_key_value [OF assms(1,3)] ini_value_def section_lines_def
        cong: option.case_cong prod.case_cong)
next
  case False
  show ?thesis
  proof (cases "find_section sec (-1) (-1) fp")
    case None
    then have "dropWhile (\<lambda>sp. \<not> opens sec sp) (file_lines fp) = []"
      using find_section_lines [OF assms(2), of "-1" "-1" fp] by (auto split: list.splits)
    with None False show ?thesis
      by (simp add: getkeystring_def ini_value_def section_lines_def del: dropWhile_eq_Nil_conv)
  next
    case (Some r)
    obtain i sp rest where r: "r = (i, sp, rest)" by (cases r)
    then have "dropWhile (\<lambda>sp. \<not> opens sec sp) (file_lines fp) = sp # file_lines rest"
      using Some find_section_lines [OF assms(2), of "-1" "-1" fp] by (auto split: list.splits)
    with Some r False show ?thesis
      by (simp add: getkeystring_def find_key_value [OF assms(1,3)] ini_value_def section_lines_def
        cong: option.case_cong prod.case_cong)
  qed
qed

text \<open>The buffer after \<open>ini_gets\<close>: the value, or else the default, cut to the size.\<close>

definition ini_string :: "string \<Rightarrow> string \<Rightarrow> string \<Rightarrow> nat \<Rightarrow> string option \<Rightarrow> string" where
  "ini_string sec key def n file =
     (case (case file of None \<Rightarrow> None | Some fp \<Rightarrow> ini_value sec key n fp) of
        Some v \<Rightarrow> v
      | None \<Rightarrow> take (n - 1) def)"

lemma ini_gets_eq:
  assumes "0 < n" and "is_cstr sec" and "is_cstr key"
  shows "ini_gets (Some sec) (Some key) (Some def) (int n) file = Inr (Some (ini_string sec key def n file))"
  using assms
  by (cases "file") (auto simp: ini_gets_def ini_string_def getkeystring_value save_strncpy_def split: option.split)

lemma ini_string_length: "0 < n \<Longrightarrow> length (ini_string sec key def n file) < n"
  by (auto simp: ini_string_def ini_value_def clip_length split: option.split)

section \<open>The names of the sections\<close>

text \<open>The enumeration of the sections ends at the first header without a name.\<close>

definition section_names :: "string list \<Rightarrow> string list" where
  "section_names ls = takeWhile (\<lambda>n. n \<noteq> []) (map header_name (filter is_header ls))"

lemma same_name_Nil [simp]: "same_name x [] \<longleftrightarrow> x = []"
  by (simp add: same_name_def)

lemma find_section_nth:
  assumes "idx < i" and "sec = []"
  shows "(case find_section sec i idx fp of
      None \<Rightarrow> None
    | Some (j, sp, rest) \<Rightarrow> if j = i then Some (header_name sp) else None) =
    (if nat (i - idx - 1) < length (section_names (file_lines fp))
     then Some (section_names (file_lines fp) ! nat (i - idx - 1)) else None)"
  using assms
proof (induction sec i idx fp rule: find_section.induct)
  case (1 sec i idx fp)
  show ?case
  proof (cases "ini_read fp")
    case None
    then show ?thesis by (simp add: find_section.simps [of _ _ _ fp] file_lines_cases section_names_def)
  next
    case (Some lr)
    obtain l rest where lr: "lr = (l, rest)" by (cases lr)
    let ?sp = "skipleading l"
    note named = names_section_iff [OF ini_read_cstr [OF Some [unfolded lr]], of "[]"]
    note IH = 1(1,2) [OF Some lr [symmetric] refl]
    note step = find_section.simps [of _ _ idx fp] file_lines_cases Some lr Let_def section_names_def named
    consider "\<not> is_header ?sp" | "is_header ?sp" "header_name ?sp = []"
      | "is_header ?sp" "header_name ?sp \<noteq> []" "idx + 1 = i" | "is_header ?sp" "header_name ?sp \<noteq> []" "idx + 1 \<noteq> i"
      by blast
    then show ?thesis
    proof cases
      case 4
      then have "nat (i - idx - 1) = Suc (nat (i - (idx + 1) - 1))" using 1(3) by linarith
      with 4 IH(2) 1(3,4) show ?thesis by (simp add: step)
    qed (use IH(1) 1(3,4) in \<open>simp_all add: step\<close>)
  qed
qed

lemma ini_getsection_eq:
  assumes "0 < n" and "0 \<le> idx"
  shows "ini_getsection idx (int n) (Some fp) = Inr (Some
    (let ns = section_names (file_lines fp) in if nat idx < length ns then take (n - 1) (ns ! nat idx) else []))"
  using assms find_section_nth [of "-1" idx "[]" fp]
  by (auto simp: ini_getsection_def getkeystring_def save_strncpy_def Let_def split: option.splits if_splits)

section \<open>Quotation\<close>

definition enq :: "string \<Rightarrow> string" where
  "enq s = concat (map (\<lambda>c. if c = CHR 0x22 then [CHR 0x5C, CHR 0x22] else [c]) s)"

lemma enq_simps [simp]:
  "enq [] = []" "enq (c # s) = (if c = CHR 0x22 then CHR 0x5C # CHR 0x22 # enq s else c # enq s)"
  by (simp_all add: enq_def)

lemma enq_hd: "enq s = d # r \<Longrightarrow> d \<noteq> CHR 0x22"
  by (cases s) (auto split: if_splits)

lemma enq_not_quote: "enq s \<noteq> CHR 0x22 # r"
  using enq_hd by blast

lemma enq_Nil_iff [simp]: "enq s = [] \<longleftrightarrow> s = []"
  by (cases s) auto

lemma enquote_enq: "length (enq s) \<le> room \<Longrightarrow> enquote room s = enq s"
proof (induction s arbitrary: room)
  case Nil
  then show ?case by simp
next
  case (Cons c s)
  then obtain r where "room = Suc r" by (cases room) (auto split: if_splits)
  with Cons show ?case by (cases "c = CHR 0x22") auto
qed

lemma dequote_Cons:
  assumes "c \<noteq> CHR 0x22" and "\<And>r. t \<noteq> CHR 0x22 # r"
  shows "dequote (Suc room) (c # t) = c # dequote room t"
proof (cases t)
  case Nil
  then show ?thesis by (cases room) auto
next
  case (Cons d t')
  with assms show ?thesis by auto
qed

lemma dequote_enq: "length s \<le> room \<Longrightarrow> dequote room (enq s) = s"
proof (induction s arbitrary: room)
  case Nil
  then show ?case by (cases room) auto
next
  case (Cons c s)
  then obtain r where "room = Suc r" by (cases room) auto
  with Cons show ?case
    using dequote_Cons [of c "enq s"] enq_not_quote [of s] by (cases "c = CHR 0x22") auto
qed

definition all_blank :: "string \<Rightarrow> bool" where
  "all_blank t \<longleftrightarrow> (\<forall>c \<in> set t. blank c)"

lemma blank_facts: "\<not> blank (CHR 0x22)" "\<not> blank (CHR '';'')" "\<not> blank (CHR ''#'')" "\<not> blank (CHR 0x5C)"
  "\<not> blank (CHR ''['')" "\<not> blank (CHR ''='')" "\<not> blank NUL" "blank LF" "blank (CHR '' '')"
  by (simp_all add: blank_def char_int_def Let_def)

lemma uncomment_Cons:
  assumes "c \<noteq> CHR 0x22" and "\<not> isstring \<longrightarrow> c \<noteq> CHR '';'' \<and> c \<noteq> CHR ''#''"
    and "c = CHR 0x5C \<longrightarrow> (\<forall>r. t \<noteq> CHR 0x22 # r)"
  shows "uncomment isstring (c # t) = c # uncomment isstring t"
  using assms by (cases t) auto

lemma uncomment_blank: "all_blank t \<Longrightarrow> uncomment isstring t = t"
proof (induction t)
  case (Cons c t)
  then have "c \<noteq> CHR 0x22" "c \<noteq> CHR '';''" "c \<noteq> CHR ''#''" "c \<noteq> CHR 0x5C"
    using blank_facts by (auto simp: all_blank_def)
  with Cons show ?case by (simp add: uncomment_Cons all_blank_def)
qed simp

lemma uncomment_close: "all_blank t \<Longrightarrow> uncomment True (CHR 0x22 # t) = CHR 0x22 # t"
proof (cases t)
  case (Cons d r)
  assume "all_blank t"
  with Cons have "d \<noteq> CHR 0x22" using blank_facts(1) by (auto simp: all_blank_def)
  then have "uncomment True (CHR 0x22 # t) = CHR 0x22 # uncomment False t" by (simp add: Cons)
  with uncomment_blank [OF \<open>all_blank t\<close>] show ?thesis by simp
qed simp

lemma uncomment_enq:
  assumes "all_blank t"
  shows "uncomment True (enq s @ CHR 0x22 # t) = enq s @ CHR 0x22 # t"
proof (induction s)
  case Nil
  with assms show ?case by (simp add: uncomment_close)
next
  case (Cons c s)
  consider "c = CHR 0x22" | "c = CHR 0x5C" "s = []" | "c = CHR 0x5C" "s \<noteq> []" | "c \<noteq> CHR 0x22" "c \<noteq> CHR 0x5C"
    by blast
  then show ?case
  proof cases
    case 2
    with assms show ?thesis by (simp add: uncomment_blank)
  next
    case 3
    then obtain d r where d: "enq s = d # r" by (cases "enq s") auto
    with 3 enq_hd [OF d] Cons uncomment_Cons [of c True "enq s @ CHR 0x22 # t"] show ?thesis by auto
  qed (use Cons uncomment_Cons [of c True "enq s @ CHR 0x22 # t"] in auto)
qed

lemma uncomment_quoted:
  assumes "all_blank t"
  shows "uncomment False (CHR 0x22 # enq s @ CHR 0x22 # t) = CHR 0x22 # enq s @ CHR 0x22 # t"
proof (cases "enq s")
  case Nil
  with assms show ?thesis by (simp add: uncomment_blank)
next
  case (Cons d r)
  with enq_hd [OF Cons] uncomment_enq [OF assms, of s] show ?thesis by simp
qed

lemma skiptrailing_blank: "all_blank t \<Longrightarrow> \<not> blank c \<Longrightarrow> skiptrailing (s @ c # t) = s @ [c]"
  by (simp add: skiptrailing_def all_blank_def dropWhile_append2 [of "rev t" blank, simplified])

lemma cleanstring_quoted:
  "all_blank t \<Longrightarrow> cleanstring (CHR 0x22 # enq s @ CHR 0x22 # t) = (enq s, QUOTE_DEQUOTE)"
  using skiptrailing_blank [of t "CHR 0x22" "CHR 0x22 # enq s"]
  by (simp add: cleanstring_def uncomment_quoted striptrailing_def blank_facts)

section \<open>Lines that end with a line feed\<close>

lemma take_line_LF: "LF \<notin> set l \<Longrightarrow> length l < n \<Longrightarrow> take_line n (l @ LF # r) = (l @ [LF], r)"
proof (induction l arbitrary: n)
  case Nil
  then show ?case by (cases n) auto
next
  case (Cons c l)
  then show ?case by (cases n) auto
qed

definition short_line :: "string \<Rightarrow> bool" where
  "short_line l \<longleftrightarrow> LF \<notin> set l \<and> is_cstr l \<and> length l < 511"

lemma file_lines_LF: "short_line l \<Longrightarrow> file_lines (l @ LF # r) = skipleading (l @ [LF]) # file_lines r"
  using take_line_LF [of l 511 r]
  by (simp add: short_line_def file_lines.simps [of "l @ LF # r"] ini_read_def fgets_def INI_BUFFERSIZE_def)

lemma skipleading_id: "\<not> blank c \<Longrightarrow> skipleading (c # s) = c # s"
  by (simp add: skipleading_def)

lemma before_char: "c \<notin> set a \<Longrightarrow> before c (a @ c # s) = a"
  unfolding before_def by (rule takeWhile_stop) auto

lemma after_char: "c \<notin> set a \<Longrightarrow> after c (a @ c # s) = s"
  unfolding after_def by (subst dropWhile_append2) auto

definition good_key :: "string \<Rightarrow> bool" where
  "good_key key \<longleftrightarrow> key \<noteq> [] \<and> LF \<notin> set key \<and> is_cstr key \<and> CHR ''='' \<notin> set key \<and> \<not> blank (hd key) \<and>
     \<not> blank (last key) \<and> hd key \<notin> {CHR ''['', CHR '';'', CHR ''#''}"

lemma entry_of_line:
  assumes "good_key key"
  shows "skipleading (key @ CHR ''='' # v) = key @ CHR ''='' # v" "\<not> starts (CHR ''['') (key @ CHR ''='' # v)"
    "entry_for key (key @ CHR ''='' # v)" "entry_value (key @ CHR ''='' # v) = cleanstring (skipleading v)"
proof -
  have sep: "separator (key @ CHR ''='' # v) = Some (CHR ''='')" by (simp add: separator_def)
  have "skiptrailing key = key"
    using assms by (cases key rule: rev_cases) (auto simp: good_key_def skiptrailing_def)
  moreover obtain c k where key: "key = c # k" using assms by (cases key) (auto simp: good_key_def)
  ultimately show "skipleading (key @ CHR ''='' # v) = key @ CHR ''='' # v" "\<not> starts (CHR ''['') (key @ CHR ''='' # v)"
    "entry_for key (key @ CHR ''='' # v)" "entry_value (key @ CHR ''='' # v) = cleanstring (skipleading v)"
    using assms before_char [of "CHR ''=''" key v] after_char [of "CHR ''=''" key v] sep
    by (simp_all add: good_key_def skipleading_def starts_def entry_for_def same_name_def entry_value_def)
qed

text \<open>The first entry of the first section.\<close>

lemma first_setting:
  assumes "short_line (CHR ''['' # sec @ '']'')" and "sec \<noteq> []" and "CHR '']'' \<notin> set sec"
    and "good_key key" and "short_line (key @ CHR ''='' # v)"
  shows "ini_value sec key n ((CHR ''['' # sec @ '']'') @ LF # (key @ CHR ''='' # v) @ LF # rest) =
    Some (clip n (cleanstring (skipleading (v @ [LF]))))"
proof -
  let ?h = "CHR ''['' # sec @ CHR '']'' # [LF]"
  have h: "header_name ?h = sec" "is_header ?h"
    using before_char [OF assms(3), of "[LF]"] by (simp_all add: header_name_def is_header_def)
  have lines: "file_lines ((CHR ''['' # sec @ '']'') @ LF # (key @ CHR ''='' # v) @ LF # rest) =
      ?h # (key @ CHR ''='' # v @ [LF]) # file_lines rest"
    using file_lines_LF [OF assms(1)] file_lines_LF [OF assms(5)] entry_of_line(1) [OF assms(4), of "v @ [LF]"]
    by (simp add: skipleading_id blank_facts)
  show ?thesis
    unfolding ini_value_def lines using h assms(2) entry_of_line(2-4) [OF assms(4), of "v @ [LF]"]
    by (simp add: section_lines_def opens_def same_name_def)
qed

lemma quoted_value:
  assumes "save_strncpy s n QUOTE_ENQUOTE = Inr q" and "length (enq s) + 3 \<le> n" and "length s < m"
  shows "q = CHR 0x22 # enq s @ [CHR 0x22]" "clip m (cleanstring (skipleading (q @ [LF]))) = s"
proof -
  show q: "q = CHR 0x22 # enq s @ [CHR 0x22]"
    using assms(1,2) enquote_enq [of s "n - 3"] by (auto simp: save_strncpy_def split: if_splits)
  have "cleanstring (q @ [LF]) = (enq s, QUOTE_DEQUOTE)"
    using cleanstring_quoted [of "[LF]" s] by (simp add: q all_blank_def blank_facts)
  moreover have "skipleading (q @ [LF]) = q @ [LF]" by (simp add: q skipleading_id blank_facts)
  moreover have "dequote (m - 1) (enq s) = s" by (rule dequote_enq) (use assms(3) in linarith)
  ultimately show "clip m (cleanstring (skipleading (q @ [LF]))) = s" by (simp add: clip_def)
qed

section \<open>Browsing\<close>

lemma header_name_length: "is_header sp \<Longrightarrow> length (header_name sp) + 2 \<le> length sp"
proof -
  assume "is_header sp"
  then obtain s where sp: "sp = CHR ''['' # s" and "CHR '']'' \<in> set s" by (auto simp: is_header_def)
  then obtain a b where "s = a @ CHR '']'' # b" "CHR '']'' \<notin> set a" using split_list_first by metis
  then show ?thesis by (simp add: sp header_name_def before_char)
qed

lemma separator_before: "separator sp = Some sep \<Longrightarrow> length (before sep sp) < length sp"
proof -
  assume "separator sp = Some sep"
  then have "sep \<in> set sp" by (auto simp: separator_def split: if_splits)
  then obtain a b where "sp = a @ sep # b" "sep \<notin> set a" using split_list_first by metis
  then show ?thesis by (simp add: before_char)
qed

lemma length_skipleading: "length (skipleading s) \<le> length s"
  by (simp add: skipleading_def length_dropWhile_le)

lemma length_cstr: "length (cstr s) \<le> length s"
  by (simp add: cstr_def length_takeWhile_le)

lemma browse_loop_returns: "length sec \<le> 509 \<Longrightarrow> \<exists>s'. browse_loop cb sec fp s = Some (Inr s')"
proof (induction "length fp" arbitrary: sec fp s rule: less_induct)
  case less
  define n where "n = INI_BUFFERSIZE - (length sec + 1)"
  note unfolded = browse_loop.simps [of cb sec fp s, folded n_def]
  show ?case
  proof (cases "fgets n fp")
    case None
    then show ?thesis by (simp add: unfolded)
  next
    case (Some lr)
    obtain l rest where lr: "lr = (l, rest)" by (cases lr)
    let ?sp = "skipleading (cstr l)"
    have n: "2 \<le> n" using less.prems by (simp add: n_def INI_BUFFERSIZE_def)
    then obtain k where k: "n = Suc (Suc k)" by (metis add_2_eq_Suc le_Suc_ex)
    have tl: "take_line (Suc k) fp = (l, rest)" "fp \<noteq> []"
      using Some lr k by (auto simp: fgets_def split: if_splits)
    have l: "fp = l @ rest" "length l \<le> Suc k" "l \<noteq> []"
      using take_line_append [OF tl(1)] take_line_Nil [of k fp rest] tl by auto
    then have shorter: "length rest < length fp" by simp
    have sp: "length ?sp < n"
      using l(2) k length_skipleading [of "cstr l"] length_cstr [of l] by linarith
    note go = less.hyps [OF shorter]
    note step = unfolded Some lr Let_def
    consider (skip) "?sp = [] \<or> starts (CHR '';'') ?sp \<or> starts (CHR ''#'') ?sp"
      | (header) "?sp \<noteq> []" "\<not> starts (CHR '';'') ?sp" "\<not> starts (CHR ''#'') ?sp" "is_header ?sp"
      | (none) "?sp \<noteq> []" "\<not> starts (CHR '';'') ?sp" "\<not> starts (CHR ''#'') ?sp" "\<not> is_header ?sp" "separator ?sp = None"
      | (entry) sep where "?sp \<noteq> []" "\<not> starts (CHR '';'') ?sp" "\<not> starts (CHR ''#'') ?sp" "\<not> is_header ?sp"
          "separator ?sp = Some sep" by fast
    then show ?thesis
    proof cases
      case skip
      then show ?thesis using go [OF less.prems] by (auto simp: step)
    next
      case header
      have "length (header_name ?sp) \<le> 509"
        using header_name_length [OF header(4)] sp by (simp add: n_def INI_BUFFERSIZE_def)
      with header go [OF this] show ?thesis
        by (simp add: step save_strncpy_def INI_BUFFERSIZE_def)
    next
      case none
      then show ?thesis using go [OF less.prems] by (simp add: step)
    next
      case entry
      let ?key = "striptrailing (before sep ?sp)"
      obtain v q where vq: "cleanstring (skipleading (after sep ?sp)) = (v, q)" by fastforce
      have "q \<noteq> QUOTE_ENQUOTE" using cleanstring_quotes [of "skipleading (after sep ?sp)"] vq by simp
      have "length ?key \<le> length (before sep ?sp)"
        using skiptrailing_prefix [of "before sep ?sp"] unfolding striptrailing_def
        by (metis le_add1 length_append)
      then have len: "length ?key + 1 < n"
        using separator_before [OF entry(5)] sp by linarith
      have key: "save_strncpy ?key n QUOTE_NONE = Inr ?key"
        using len by (simp add: save_strncpy_def)
      obtain val where val: "save_strncpy v (n - (length ?key + 1)) q = Inr val"
        using len save_strncpy_clip [of "n - (length ?key + 1)" q v] \<open>q \<noteq> QUOTE_ENQUOTE\<close> by auto
      obtain rc s' where cb: "cb sec ?key val s = (rc, s')" by fastforce
      show ?thesis
        using entry key val vq cb go [OF less.prems] by (simp add: step)
    qed
  qed
qed

end
