(* ===== verification/Config.thy ===== *)
theory Config
  imports Ini_Facts Router
begin

text \<open>
  \<^verbatim>\<open>src/config.c\<close>: the settings of the broker and of its modules, read from a file. Arrays of
  characters are strings, cut where the code cuts them; a structure starts zeroed. The calls of
  \<open>zclock_log\<close> are left out, but for an argument that is no string.
\<close>

section \<open>The structures\<close>

record config_module =
  cm_exec :: string
  cm_modworkpath :: string
  cm_modinstances :: string
  cm_owner :: string
  cm_modargs :: string
  cm_name :: string
  cm_path :: string
  cm_workpath :: string
  cm_user :: string
  cm_group :: string
  cm_instances :: int
  cm_args :: string
  cm_maxmem :: int
  cm_start_timeout :: int
  cm_log_err :: bool
  cm_log_out :: bool

record server_config =
  sc_name :: string
  sc_path :: string
  sc_owner :: string
  sc_mode :: string
  sc_pid_path :: string
  sc_log_path :: string
  sc_mod_path :: string
  sc_mod_work_path :: string
  sc_socket :: string
  sc_socket_file :: string
  sc_pid_file :: string
  sc_log_file :: string
  sc_modules_path :: string
  sc_modules_workpath :: string
  sc_modules_log_err :: string
  sc_modules_log_out :: string
  sc_socket_mode :: i32
  sc_socket_user :: string
  sc_socket_group :: string
  sc_log_level :: int
  sc_debug :: bool
  sc_global :: int
  sc_daemon :: int
  sc_runas :: string
  sc_iface :: string
  sc_log_max_size :: int
  sc_log_method :: string
  sc_log_mode :: i32
  sc_modules :: "config_module zhash option"
  sc_queue_poll :: int
  sc_in_timeout :: int
  sc_out_timeout :: int
  sc_process_timeout :: int
  sc_modlist_poll :: int

definition module_zero :: config_module where
  "module_zero = \<lparr>cm_exec = [], cm_modworkpath = [], cm_modinstances = [], cm_owner = [], cm_modargs = [],
     cm_name = [], cm_path = [], cm_workpath = [], cm_user = [], cm_group = [], cm_instances = 0, cm_args = [],
     cm_maxmem = 0, cm_start_timeout = 0, cm_log_err = False, cm_log_out = False\<rparr>"

definition config_zero :: server_config where
  "config_zero = \<lparr>sc_name = [], sc_path = [], sc_owner = [], sc_mode = [], sc_pid_path = [], sc_log_path = [],
     sc_mod_path = [], sc_mod_work_path = [], sc_socket = [], sc_socket_file = [], sc_pid_file = [],
     sc_log_file = [], sc_modules_path = [], sc_modules_workpath = [], sc_modules_log_err = [],
     sc_modules_log_out = [], sc_socket_mode = 0, sc_socket_user = [], sc_socket_group = [], sc_log_level = 0,
     sc_debug = False, sc_global = 0, sc_daemon = 0, sc_runas = [], sc_iface = [], sc_log_max_size = 0,
     sc_log_method = [], sc_log_mode = 0, sc_modules = None, sc_queue_poll = 0, sc_in_timeout = 0,
     sc_out_timeout = 0, sc_process_timeout = 0, sc_modlist_poll = 0\<rparr>"

section \<open>Reading one setting\<close>

text \<open>The buffer after \<open>ini_gets(section, key, default, buffer, n, file)\<close>.\<close>

definition setting :: "string option \<Rightarrow> string \<Rightarrow> string \<Rightarrow> string \<Rightarrow> nat \<Rightarrow> string res" where
  "setting file section key def n =
     rbind (ini_gets (Some section) (Some key) (Some def) (int n) file)
       (\<lambda>r. Inr (case r of Some b \<Rightarrow> b | None \<Rightarrow> []))"

text \<open>\<open>if (ini_gets(..., value, ...) > 0) field = atoi(value);\<close>\<close>

definition int_setting :: "string option \<Rightarrow> string \<Rightarrow> string \<Rightarrow> string \<Rightarrow> int \<Rightarrow> int res" where
  "int_setting file section key def old =
     rbind (setting file section key def 256) (\<lambda>value. if value = [] then Inr old else atoi value)"

definition flag_setting :: "string option \<Rightarrow> string \<Rightarrow> string \<Rightarrow> string \<Rightarrow> bool \<Rightarrow> bool res" where
  "flag_setting file section key def old =
     rbind (setting file section key def 256) (\<lambda>value.
       if value = [] then Inr old else rbind (atoi value) (\<lambda>i. Inr (i \<noteq> 0)))"

text \<open>\<open>if (ini_gets(..., value, ...) > 0) snprintf(field, n, "%s", value);\<close>\<close>

definition string_setting :: "string option \<Rightarrow> string \<Rightarrow> string \<Rightarrow> string \<Rightarrow> nat \<Rightarrow> string \<Rightarrow> string res" where
  "string_setting file section key def n old =
     rbind (setting file section key def 256) (\<lambda>value. Inr (if value = [] then old else snprintf_str n value))"

text \<open>\<open>atol\<close>, undefined outside \<open>long\<close>; a conversion of \<open>long\<close> to \<open>unsigned int\<close> keeps the low bits.\<close>

definition atol :: "string \<Rightarrow> int res" where
  "atol s =
     (let v = (case dropWhile is_space s of
                 [] \<Rightarrow> 0
               | c # cs \<Rightarrow> if c = CHR ''-'' then - int (digits_val 0 cs)
                           else if c = CHR ''+'' then int (digits_val 0 cs)
                           else int (digits_val 0 (c # cs)))
      in if long_clamp v = v then Inr v else Inl Int_Range)"

text \<open>The two tokens of an owner, \<open>user:group\<close>, each cut to 8 bytes; the string is cut at the end
  of the first. \<open>snprintf\<close> reads through a \<open>NULL\<close> token.\<close>

definition owner_tokens :: "string \<Rightarrow> (string \<times> string \<times> string) res" where
  "owner_tokens s =
     (case strtok_all (CHR '':'') s of
        u # g # _ \<Rightarrow> Inr (takeWhile (\<lambda>c. c = CHR '':'') s @ u, snprintf_str 8 u, snprintf_str 8 g)
      | _ \<Rightarrow> Inl Null_Deref)"

section \<open>The section of the broker\<close>

definition read_socket :: "string option \<Rightarrow> string \<Rightarrow> server_config \<Rightarrow> server_config res" where
  "read_socket file section c =
     rbind (setting file section ''name'' [] 256) (\<lambda>name.
     rbind (setting file section ''s_path'' ''./'' 256) (\<lambda>path.
     rbind (setting file section ''s_owner'' [] 256) (\<lambda>owner.
     rbind (if owner \<noteq> [] then owner_tokens owner else Inr (owner, sc_socket_user c, sc_socket_group c))
       (\<lambda>(owner', user, group).
     rbind (setting file section ''s_mode'' ''0666'' 256) (\<lambda>mode.
       Inr (c\<lparr>sc_name := name, sc_path := path,
              sc_socket := snprintf_str 256 (''ipc://'' @ path @ name @ ''.socket''),
              sc_socket_file := snprintf_str 256 (path @ name @ ''.socket''),
              sc_owner := owner', sc_socket_user := user, sc_socket_group := group,
              sc_mode := mode, sc_socket_mode := word_of_int (strtol 8 mode)\<rparr>))))))"

definition read_paths :: "string option \<Rightarrow> string \<Rightarrow> server_config \<Rightarrow> server_config res" where
  "read_paths file section c =
     rbind (setting file section ''pid_path'' ''./'' 256) (\<lambda>pid_path.
     rbind (setting file section ''log_path'' ''./'' 256) (\<lambda>log_path.
     rbind (setting file section ''mod_path'' ''./'' 256) (\<lambda>mod_path.
     rbind (setting file section ''mod_work_path'' ''./'' 256) (\<lambda>mod_work_path.
       Inr (c\<lparr>sc_pid_path := pid_path, sc_pid_file := snprintf_str 256 (pid_path @ sc_name c @ ''.pid''),
              sc_log_path := log_path, sc_log_file := snprintf_str 256 (log_path @ sc_name c @ ''.log''),
              sc_mod_path := mod_path, sc_modules_path := snprintf_str 256 mod_path,
              sc_mod_work_path := mod_work_path, sc_modules_workpath := snprintf_str 256 mod_work_path\<rparr>)))))"

definition read_modes :: "string option \<Rightarrow> string \<Rightarrow> server_config \<Rightarrow> server_config res" where
  "read_modes file section c =
     rbind (flag_setting file section ''debug'' [] (sc_debug c)) (\<lambda>debug.
     rbind (int_setting file section ''log_level'' [] (sc_log_level c)) (\<lambda>log_level.
     rbind (int_setting file section ''global'' [] (sc_global c)) (\<lambda>global.
     rbind (int_setting file section ''daemon'' [] 0) (\<lambda>daemon.
       Inr (c\<lparr>sc_debug := debug, sc_log_level := log_level, sc_global := global, sc_daemon := daemon\<rparr>)))))"

definition read_timeouts :: "string option \<Rightarrow> string \<Rightarrow> server_config \<Rightarrow> server_config res" where
  "read_timeouts file section c =
     rbind (int_setting file section ''queue_poll'' ''10'' (sc_queue_poll c)) (\<lambda>queue_poll.
     rbind (int_setting file section ''modlist_poll'' ''5000'' (sc_modlist_poll c)) (\<lambda>modlist_poll.
     rbind (int_setting file section ''in_timeout'' ''1000'' (sc_in_timeout c)) (\<lambda>in_timeout.
     rbind (int_setting file section ''out_timeout'' ''1000'' (sc_out_timeout c)) (\<lambda>out_timeout.
     rbind (int_setting file section ''process_timeout'' ''10000'' (sc_process_timeout c)) (\<lambda>process_timeout.
       Inr (c\<lparr>sc_queue_poll := queue_poll, sc_modlist_poll := modlist_poll, sc_in_timeout := in_timeout,
              sc_out_timeout := out_timeout, sc_process_timeout := process_timeout\<rparr>))))))"

text \<open>\<open>strncpy(config->log_method, value, 16)\<close> leaves the array without a terminator when the value has
  16 characters or more; the log line that follows reads on.\<close>

definition log_method_setting :: "string \<Rightarrow> string \<Rightarrow> string res" where
  "log_method_setting value old =
     (if value = [] then Inr old else if length value < 16 then Inr value else Inl Over_Read)"

definition read_logging :: "string option \<Rightarrow> string \<Rightarrow> server_config \<Rightarrow> server_config res" where
  "read_logging file section c =
     rbind (string_setting file section ''runas'' [] 16 (sc_runas c)) (\<lambda>runas.
     rbind (string_setting file section ''iface'' [] 16 (sc_iface c)) (\<lambda>iface.
     rbind (setting file section ''log_max_size'' ''0'' 256) (\<lambda>v1.
     rbind (if v1 = [] then Inr (sc_log_max_size c) else atol v1) (\<lambda>log_max_size.
     rbind (setting file section ''log_method'' ''none'' 256) (\<lambda>v2.
     rbind (log_method_setting v2 (sc_log_method c)) (\<lambda>log_method.
     rbind (setting file section ''log_mode'' ''0666'' 256) (\<lambda>v3.
     rbind (string_setting file section ''mod_log_err'' ''./'' 256 (sc_modules_log_err c)) (\<lambda>mod_log_err.
     rbind (string_setting file section ''mod_log_out'' ''./'' 256 (sc_modules_log_out c)) (\<lambda>mod_log_out.
       Inr (c\<lparr>sc_runas := runas, sc_iface := iface, sc_log_max_size := log_max_size, sc_log_method := log_method,
              sc_log_mode := (if v3 = [] then sc_log_mode c else word_of_int (strtol 8 v3)),
              sc_modules_log_err := mod_log_err, sc_modules_log_out := mod_log_out\<rparr>))))))))))"

definition read_server :: "string option \<Rightarrow> string \<Rightarrow> server_config \<Rightarrow> server_config res" where
  "read_server file section c =
     rbind (read_socket file section c) (\<lambda>c1.
     rbind (read_paths file section c1) (\<lambda>c2.
     rbind (read_modes file section c2) (\<lambda>c3.
     rbind (read_timeouts file section c3) (\<lambda>c4.
       read_logging file section c4))))"

section \<open>The sections of the modules\<close>

definition module_paths :: "string option \<Rightarrow> string \<Rightarrow> server_config \<Rightarrow> config_module \<Rightarrow> config_module res" where
  "module_paths file module c m =
     rbind (setting file module ''workpath'' ''./'' 256) (\<lambda>workpath.
     rbind (setting file module ''args'' [] 256) (\<lambda>args.
       Inr (m\<lparr>cm_path := snprintf_str 256 (sc_modules_path c @ cm_exec m),
              cm_modworkpath := workpath,
              cm_workpath := (if workpath = [] then cm_workpath m
                              else snprintf_str 256 (sc_modules_workpath c @ workpath)),
              cm_modargs := args,
              cm_args := (if args \<noteq> [] then snprintf_str 256 (sc_socket c @ '' '' @ args)
                          else snprintf_str 256 (sc_socket c @ '' ''))\<rparr>)))"

definition module_limits :: "string option \<Rightarrow> string \<Rightarrow> config_module \<Rightarrow> config_module res" where
  "module_limits file module m =
     rbind (setting file module ''instances'' ''1'' 2) (\<lambda>instances.
     rbind (if instances = [] then Inr (cm_instances m) else atoi instances) (\<lambda>n.
     rbind (int_setting file module ''start_timeout'' ''10'' (cm_start_timeout m)) (\<lambda>start_timeout.
     rbind (int_setting file module ''maxmem'' ''0'' (cm_maxmem m)) (\<lambda>maxmem.
     rbind (setting file module ''owner'' [] 256) (\<lambda>owner.
     rbind (if owner \<noteq> [] then owner_tokens owner else Inr (owner, cm_user m, cm_group m)) (\<lambda>(owner', user, group).
     rbind (flag_setting file module ''log_err'' ''0'' (cm_log_err m)) (\<lambda>log_err.
     rbind (flag_setting file module ''log_out'' ''0'' (cm_log_out m)) (\<lambda>log_out.
       Inr (m\<lparr>cm_modinstances := instances, cm_instances := n, cm_start_timeout := start_timeout,
              cm_maxmem := maxmem, cm_owner := owner', cm_user := user, cm_group := group,
              cm_log_err := log_err, cm_log_out := log_out\<rparr>)))))))))"

text \<open>A module without an executable is skipped.\<close>

definition read_module :: "string option \<Rightarrow> string \<Rightarrow> server_config \<Rightarrow> server_config res" where
  "read_module file module c =
     rbind (setting file module ''exec'' [] 256) (\<lambda>exec.
       if exec = [] then Inr c
       else
         rbind (module_paths file module c (module_zero\<lparr>cm_name := snprintf_str 32 module, cm_exec := exec\<rparr>)) (\<lambda>m1.
         rbind (module_limits file module m1) (\<lambda>m2.
           Inr (c\<lparr>sc_modules := map_option (zh_insert module m2) (sc_modules c)\<rparr>))))"

section \<open>The loops over the sections\<close>

definition section_count :: "string option \<Rightarrow> nat" where
  "section_count file = (case file of None \<Rightarrow> 0 | Some fp \<Rightarrow> length (section_names (file_lines fp)))"

definition section_at :: "string option \<Rightarrow> nat \<Rightarrow> string res" where
  "section_at file k =
     rbind (ini_getsection (int k) 50 file) (\<lambda>r. Inr (case r of Some b \<Rightarrow> b | None \<Rightarrow> []))"

lemma section_at_eq:
  "section_at file k = Inr (case file of None \<Rightarrow> [] | Some fp \<Rightarrow>
     (let ns = section_names (file_lines fp) in if k < length ns then take 49 (ns ! k) else []))"
  using ini_getsection_eq [of 50 "int k"]
  by (cases "file") (auto simp: section_at_def ini_getsection_def Let_def)

lemma section_at_bound: "section_at file k = Inr name \<Longrightarrow> name \<noteq> [] \<Longrightarrow> k < section_count file"
  by (auto simp: section_at_eq section_count_def Let_def split: option.splits if_splits)

function read_modules :: "string option \<Rightarrow> nat \<Rightarrow> server_config \<Rightarrow> server_config res" where
  "read_modules file k c =
     rbind (section_at file k) (\<lambda>module.
       if module = [] then Inr c
       else rbind (read_module file module c) (\<lambda>c'. read_modules file (Suc k) c'))"
  by pat_completeness auto
termination
  by (relation "measure (\<lambda>(file, k, c). section_count file - k)") (auto dest: section_at_bound)

declare read_modules.simps [simp del]

definition read_section :: "string option \<Rightarrow> nat \<Rightarrow> string \<Rightarrow> server_config \<Rightarrow> server_config res" where
  "read_section file s section c =
     rbind (if section = ''server'' then read_server file section c else Inr c) (\<lambda>c1.
       if section = ''modules'' then read_modules file (Suc s) (c1\<lparr>sc_modules := Some []\<rparr>) else Inr c1)"

function read_sections :: "string option \<Rightarrow> nat \<Rightarrow> server_config \<Rightarrow> server_config res" where
  "read_sections file s c =
     rbind (section_at file s) (\<lambda>section.
       if section = [] then Inr c
       else rbind (read_section file s section c) (\<lambda>c'. read_sections file (Suc s) c'))"
  by pat_completeness auto
termination
  by (relation "measure (\<lambda>(file, s, c). section_count file - s)") (auto dest: section_at_bound)

declare read_sections.simps [simp del]

definition config_new :: "string option \<Rightarrow> server_config res" where
  "config_new file = read_sections file 0 config_zero"

text \<open>The settings the handlers of the broker read.\<close>

definition broker_config :: "server_config \<Rightarrow> config" where
  "broker_config c = \<lparr>cf_in_timeout = sc_in_timeout c, cf_out_timeout = sc_out_timeout c,
     cf_process_timeout = sc_process_timeout c, cf_debug = sc_debug c\<rparr>"

end
