(* ===== verification/Startup.thy ===== *)
theory Startup
  imports Broker Config
begin

text \<open>
  The start and the end of the broker (\<open>execute\<close>, \<open>createPidFile\<close> and \<open>finalize\<close> of
  \<^verbatim>\<open>src/modbusd.c\<close>) and the thread that sends and receives beacons (\<^verbatim>\<open>src/beacon.c\<close>): the endpoint
  the broker binds, the beacon that announces it, what the reactor listens to, and the messages
  sent when the broker ends. The results of \<open>bind\<close>, \<open>open\<close> and \<open>lockf\<close> are arguments.
\<close>

section \<open>The endpoint and its beacon\<close>

text \<open>The range of dynamic ports of the library, \<open>ZSOCKET_DYNFROM\<close> to \<open>ZSOCKET_DYNTO\<close>.\<close>

definition DYNFROM :: int where
  "DYNFROM = 49152"

definition DYNTO :: int where
  "DYNTO = 65535"

text \<open>The loop over the ports; the name goes into 64 bytes.\<close>

function bind_global :: "(string \<Rightarrow> bool) \<Rightarrow> string \<Rightarrow> int \<Rightarrow> string option res" where
  "bind_global bind self_ip port =
     (if port \<le> DYNTO then
        rbind (sprintf_buf 64 (''tcp://'' @ self_ip @ '':'' @ show_int port)) (\<lambda>bind_point.
          if bind bind_point then Inr (Some bind_point) else bind_global bind self_ip (port + 1))
      else Inr None)"
  by pat_completeness auto
termination
  by (relation "measure (\<lambda>(bind, self_ip, port). nat (DYNTO + 1 - port))") auto

declare bind_global.simps [simp del]

definition beacon_name :: "string \<Rightarrow> string res" where
  "beacon_name endpoint = sprintf_buf 128 (''ModBus'' @ ''@'' @ endpoint)"

text \<open>The thread passes a beacon on as two strings.\<close>

definition s_beacon_outer_event :: "string option \<Rightarrow> string option \<Rightarrow> string list" where
  "s_beacon_outer_event ipaddress msg =
     (case (ipaddress, msg) of (Some ip, Some m) \<Rightarrow> [ip, m] | _ \<Rightarrow> [])"

text \<open>What the thread does with its pipe and with the beacon object of the library, in order.\<close>

datatype beacon_effect =
    Bc_Pipe string
  | Bc_Interval
  | Bc_Noecho
  | Bc_Publish string nat
  | Bc_Subscribe
  | Bc_Unsubscribe
  | Bc_Silence
  | Bc_Destroy

text \<open>\<open>self\<close> is the host name that the library found, \<open>endpoint\<close> the answer of the broker; the string
  \<open>start\<close> that follows is only waited for. \<open>beacons\<close> are the pairs received until the reactor ends. All
  128 bytes of the array are published, also those behind the name.\<close>

definition beacon_thread :: "string option \<Rightarrow> string option \<Rightarrow> (string option \<times> string option) list \<Rightarrow>
    beacon_effect list res" where
  "beacon_thread self endpoint beacons =
     (case self of
        None \<Rightarrow> Inl Assert_Fail
      | Some ip \<Rightarrow>
          (case endpoint of
             None \<Rightarrow> Inl Null_Deref
           | Some ep \<Rightarrow>
               rbind (beacon_name ep) (\<lambda>name.
                 Inr ([Bc_Pipe ip, Bc_Interval, Bc_Noecho, Bc_Publish name 128, Bc_Subscribe] @
                   map Bc_Pipe (concat (map (\<lambda>(ipaddress, msg). s_beacon_outer_event ipaddress msg) beacons)) @
                   [Bc_Unsubscribe, Bc_Silence, Bc_Destroy]))))"

section \<open>Start\<close>

text \<open>The text of the pid file, cut to 9 characters; a broker that runs already holds the file.\<close>

definition createPidFile :: "bool \<Rightarrow> bool \<Rightarrow> bool \<Rightarrow> int \<Rightarrow> string res" where
  "createPidFile created testable locked pid =
     (if \<not> created then Inl Exits
      else if \<not> testable then Inl Exits
      else if \<not> locked then Inl Exits
      else Inr (snprintf_str 10 (show_int pid)))"

record reactor =
  re_proxy :: proxy
  re_endpoint :: "string option"
  re_queue_poll :: int
  re_modlist_poll :: int
  re_beacon :: "string list"
  re_procman :: "string list"

text \<open>\<open>self_ip\<close> is the first string of the beacon thread; \<open>None\<close> is the return code \<open>-1\<close>.\<close>

definition execute :: "(string \<Rightarrow> bool) \<Rightarrow> string option \<Rightarrow> bool \<Rightarrow> bool \<Rightarrow> server_config \<Rightarrow> reactor option res" where
  "execute bind self_ip local_new local_bind conf =
     rbind (if sc_global conf \<noteq> 0 then
              (case self_ip of
                 None \<Rightarrow> Inl Assert_Fail
               | Some ip \<Rightarrow> rbind (bind_global bind ip DYNFROM) (\<lambda>ep.
                   case ep of None \<Rightarrow> Inl Exits | Some e \<Rightarrow> Inr (Some e)))
            else Inr None) (\<lambda>endpoint.
       if \<not> local_new then Inr None
       else if \<not> local_bind then Inr None
       else Inr (Some \<lparr>re_proxy = proxy_new, re_endpoint = endpoint, re_queue_poll = sc_queue_poll conf,
              re_modlist_poll = sc_modlist_poll conf,
              re_beacon = (case endpoint of None \<Rightarrow> [] | Some e \<Rightarrow> [e, ''start'']),
              re_procman = [''startall'']\<rparr>))"

text \<open>The events the reactor was told to poll: without the global mode neither the fabrics nor the
  beacons.\<close>

definition reactor_polls :: "reactor \<Rightarrow> event \<Rightarrow> bool" where
  "reactor_polls r ev =
     (case ev of
        Poll_Timer \<Rightarrow> re_endpoint r \<noteq> None
      | Beacon_In _ _ \<Rightarrow> re_endpoint r \<noteq> None
      | Global_In _ _ \<Rightarrow> re_endpoint r \<noteq> None
      | _ \<Rightarrow> True)"

section \<open>End\<close>

definition stopall_item :: "env \<Rightarrow> string \<Rightarrow> module \<Rightarrow> proxy \<Rightarrow> (int \<times> proxy) res" where
  "stopall_item E key mo p =
     (case getActionid E p of
        (actionid, p1) \<Rightarrow>
          rbind (send_message (message_stop (Some actionid)) (snd (mo_identity mo)) p1) (\<lambda>p2. Inr (0, p2)))"

definition closefabs_item :: "string \<Rightarrow> fabric \<Rightarrow> proxy \<Rightarrow> (int \<times> proxy) res" where
  "closefabs_item key fab p = Inr (0, if fb_peer fab then emit (Disconnect (snd (fb_identity fab))) p else p)"

text \<open>The state at the exit, of which only what was sent matters: everything else is freed.\<close>

definition finalize :: "env \<Rightarrow> bool \<Rightarrow> proxy \<Rightarrow> proxy res" where
  "finalize E interrupted p =
     (if interrupted then Inr p
      else
        let p1 = emit (To_Procman [''stop_all'']) p in
        rbind (if length (px_modules p1) > 0
               then rbind (zh_foreach px_modules (stopall_item E) p1) (\<lambda>(rc, p2). Inr p2) else Inr p1) (\<lambda>p2.
        rbind (zh_foreach px_fabs closefabs_item (emit (To_Procman [''killall'']) p2)) (\<lambda>(rc, p3). Inr p3)))"

end
