(* ===== verification/Local_Mode.thy ===== *)
theory Local_Mode
  imports Broker_Inv Startup
begin

text \<open>
  The broker with the global mode off: its reactor listens to the local socket, the process manager
  and the queue timer only. There are no other brokers, every provider is a registered
  module, and the placing of a call, which faults when an interface has a fabric beside
  its modules, cannot fail.
\<close>

section \<open>States without other brokers\<close>

text \<open>The reachable states when the reactor \<open>r\<close> delivers the events. The frames with the identities of local
  peers are those that ZeroMQ makes, of five bytes, which \<open>zframe_strhex\<close> writes in hexadecimal.\<close>

definition zmq_identities :: "world \<Rightarrow> event \<Rightarrow> bool" where
  "zmq_identities W ev \<longleftrightarrow> (case ev of
      Local_In (fr # _) _ \<Rightarrow> length fr = 5 \<and> wo_strhex W fr = concat (map show_hex_byte fr)
    | _ \<Rightarrow> True)"

inductive polled_reach :: "reactor \<Rightarrow> world \<Rightarrow> proxy \<Rightarrow> bool" for r W where
  start: "polled_reach r W (re_proxy r)"
| event: "polled_reach r W p \<Longrightarrow> reactor_polls r ev \<Longrightarrow> zmq_identities W ev \<Longrightarrow> admissible W E ev p \<Longrightarrow>
    handle W E ev p = Inr p' \<Longrightarrow> polled_reach r W p'"
| rehash: "polled_reach r W p \<Longrightarrow> zh_same (px_fabs p) fabs \<Longrightarrow> zh_same (px_modules p) mods \<Longrightarrow>
    zh_same (px_queue p) queue \<Longrightarrow>
    polled_reach r W (p\<lparr>px_fabs := fabs, px_modules := mods, px_queue := queue\<rparr>)"

text \<open>The reactor that \<open>execute\<close> starts without the global mode.\<close>

definition local_reactor :: "reactor \<Rightarrow> bool" where
  "local_reactor r \<longleftrightarrow> re_proxy r = proxy_new \<and> re_endpoint r = None"

lemma execute_local:
  "execute bind self_ip local_new local_bind conf = Inr (Some r) \<Longrightarrow> sc_global conf = 0 \<Longrightarrow> local_reactor r"
  by (auto simp: execute_def local_reactor_def split: if_splits)

lemma polled_reach_reach: "polled_reach r W p \<Longrightarrow> local_reactor r \<Longrightarrow> reach W p"
  by (induction rule: polled_reach.induct) (auto simp: local_reactor_def intro: reach.intros)

definition no_globals :: "iheap \<Rightarrow> bool" where
  "no_globals h \<longleftrightarrow> (\<forall>a. zl_items (if_global (h a)) = [])"

definition local_call :: "message \<Rightarrow> bool" where
  "local_call m \<longleftrightarrow> msg_local m \<and> msg_globals m = None \<and> msg_mod m \<noteq> None \<and> msg_func m \<noteq> None"

fun inward :: "effect \<Rightarrow> bool" where
  "inward (To_Local i ob) = True"
| "inward (To_Procman s) = True"
| "inward _ = False"

definition hex_keys :: "module zhash \<Rightarrow> bool" where
  "hex_keys mods \<longleftrightarrow> (\<forall>k mo. zh_lookup k mods = Some mo \<longrightarrow> hex_identity k \<and> snd (mo_identity mo) = k)"

definition alone :: "proxy \<Rightarrow> bool" where
  "alone p \<longleftrightarrow> px_fabs p = [] \<and> no_globals (px_heap p) \<and> hex_keys (px_modules p) \<and>
     (\<forall>k m. zh_lookup k (px_queue p) = Some m \<longrightarrow> local_call m) \<and> (\<forall>e \<in> set (px_out p). inward e)"

text \<open>With the providers registered.\<close>

definition staffed_alone :: "proxy \<Rightarrow> bool" where
  "staffed_alone p \<longleftrightarrow> alone p \<and> wf_providers {} (px_modules p) (px_heap p)"

lemma alone_staffed: "router_inv p \<Longrightarrow> alone p \<Longrightarrow> staffed_alone p"
  by (simp add: staffed_alone_def router_inv_def)

lemma no_globals_same: "same_heap h h' \<Longrightarrow> no_globals h' = no_globals h"
  by (simp add: no_globals_def same_heap_def same_lists_def)

lemma no_globals_upd: "no_globals h \<Longrightarrow> zl_items (if_global i) = [] \<Longrightarrow> no_globals (h(a := i))"
  by (simp add: no_globals_def)

lemma hex_keys_modify: "hex_keys mods \<Longrightarrow> zh_lookup k mods = Some mo \<Longrightarrow> mo_identity mo' = mo_identity mo \<Longrightarrow>
   hex_keys (zh_modify k mo' mods)"
  by (auto simp: hex_keys_def zh_lookup_modify)

lemma hex_keys_delete: "hex_keys mods \<Longrightarrow> hex_keys (zh_delete k mods)"
  by (auto simp: hex_keys_def zh_lookup_delete)

section \<open>Placing\<close>

lemma hex_identity_length: "hex_identity s \<Longrightarrow> length s = 10"
  by (auto simp: hex_identity_def show_hex_length)

lemma sends_hex: "hex_identity via \<Longrightarrow> sends ob via es \<Longrightarrow> \<forall>e \<in> set es. inward e"
  by (auto simp: sends_def hex_identity_length)

text \<open>The search finds an idle module or none.\<close>

lemma choose_alone:
  assumes s: "staffed_alone p" and m: "local_call m" "msg_routed m = None"
  shows "\<exists>r p2. choose_route m a p = Inr (m\<lparr>msg_routed := r\<rparr>, p2) \<and>
    (\<forall>via. r = Some via \<longrightarrow> (\<exists>mo. zh_lookup via (px_modules p2) = Some mo \<and> mo_state mo = IDLE))"
proof (cases "zl_items (if_local (px_heap p a))")
  case Nil
  have "route_global m = m\<lparr>msg_routed := None\<rparr>" using m by (simp add: route_global_def local_call_def)
  then show ?thesis using Nil by (intro exI [of _ None]) (simp add: choose_route_def zl_size_def)
next
  case (Cons q qs)
  then have "q \<in> set (zl_items (if_local (px_heap p a)))" by simp
  then obtain mo where mo: "zh_lookup (snd q) (px_modules p) = Some mo" "mo_identity mo = q"
    using s unfolding staffed_alone_def wf_providers_def by blast
  have rest: "zl_rest (if_global (px_heap p a)) = []"
    using s by (simp add: staffed_alone_def alone_def no_globals_def zl_rest_def split: option.splits)
  show ?thesis
    using Cons mo m rest by (auto simp: choose_route_def zl_size_def route_local_eq [OF Cons] try_provider_def)
qed

lemma assign_alone:
  assumes s: "staffed_alone p" and m: "local_call m"
  shows "\<exists>found m' p'. assign_iface m p = Inr (found, m', p') \<and> local_call m' \<and> staffed_alone p'"
proof (cases "msg_iface m")
  case (Some a)
  with assms have "assign_iface m p = Inr (True, m, p)" by (simp add: assign_iface_def)
  with assms show ?thesis by blast
next
  case None
  obtain md f where mf: "msg_mod m = Some md" "msg_func m = Some f" using m by (auto simp: local_call_def)
  obtain l r where c: "check_interface (Some md) (Some f) (msg_ver m) p = Inr (r, p\<lparr>px_ifaces := l\<rparr>)"
    using check_interface_eq by blast
  have "copy_globals x a (p\<lparr>px_ifaces := l\<rparr>) = Inr (x, p\<lparr>px_ifaces := l\<rparr>)" for x a
    using s by (simp add: staffed_alone_def alone_def no_globals_def copy_globals_def zl_size_def)
  with c None mf m s show ?thesis
    by (cases r) (auto simp: assign_iface_def local_call_def staffed_alone_def alone_def)
qed

lemma place_alone_returns:
  assumes s: "staffed_alone p" and m: "local_call m"
  shows "\<exists>rc m' p'. place_call E m p = Inr (rc, m', p') \<and> local_call m' \<and>
    (msg_routed m = None \<longrightarrow> (\<forall>via. msg_routed m' = Some via \<longrightarrow> hex_identity via))"
proof (cases "msg_routed m")
  case (Some via)
  with m show ?thesis by (simp add: place_call_def)
next
  case None
  obtain found m1 p1 where a: "assign_iface m p = Inr (found, m1, p1)" "local_call m1" "staffed_alone p1"
    using assign_alone [OF s m] by blast
  have un: "msg_routed m1 = None" using assign_iface_effect(2) [OF a(1)] None by simp
  show ?thesis
  proof (cases "msg_iface m1")
    case None
    with a un \<open>msg_routed m = None\<close> show ?thesis by (cases found) (auto simp: place_call_def)
  next
    case (Some i)
    have found: "found" using assign_iface_effect(8) [OF a(1)] Some by simp
    obtain r p2 where c: "choose_route m1 i p1 = Inr (m1\<lparr>msg_routed := r\<rparr>, p2)"
      and r: "\<And>via. r = Some via \<Longrightarrow> \<exists>mo. zh_lookup via (px_modules p2) = Some mo \<and> mo_state mo = IDLE"
      using choose_alone [OF a(3,2) un] by blast
    have keys: "hex_keys (px_modules p2)"
      using a(3) choose_route_effect(5) [OF c] by (simp add: staffed_alone_def alone_def)
    have "\<exists>m3 p3. send_routed E (m1\<lparr>msg_routed := r\<rparr>) p2 = Inr (m3, p3) \<and> local_call m3 \<and> msg_routed m3 = r"
    proof (cases r)
      case None
      with a(2) show ?thesis by (simp add: send_routed_def local_call_def)
    next
      case (Some via)
      then obtain mo where mo: "zh_lookup via (px_modules p2) = Some mo" "mo_state mo = IDLE" using r by blast
      then obtain bs where "length bs = 5" "via = concat (map show_hex_byte bs)"
        using keys by (auto simp: hex_keys_def hex_identity_def)
      with Some mo a(2) show ?thesis
        by (simp add: send_routed_def message_tomsg_def send_message_local local_call_def)
    qed
    then obtain m3 p3 where "send_routed E (m1\<lparr>msg_routed := r\<rparr>) p2 = Inr (m3, p3)" "local_call m3" "msg_routed m3 = r"
      by blast
    moreover have "hex_identity via" if "r = Some via" for via
      using r [OF that] keys by (auto simp: hex_keys_def)
    ultimately show ?thesis
      using a(1) found Some c \<open>msg_routed m = None\<close> by (simp add: place_call_def)
  qed
qed

lemma place_alone:
  assumes s: "staffed_alone p" and m: "local_call m" and run: "place_call E m p = Inr (rc, m', p')"
  shows "staffed_alone p'" "local_call m'"
proof -
  have m': "local_call m'" and via: "msg_routed m = None \<Longrightarrow> msg_routed m' = Some via \<Longrightarrow> hex_identity via" for via
    using place_alone_returns [OF s m, of E] run by auto
  note P = place_call_effect [OF run]
  have frame: "px_fabs p' = px_fabs p" "px_queue p' = px_queue p" "same_heap (px_heap p) (px_heap p')"
    using P(2) by (simp_all add: same_frame_def)
  have mods: "hex_keys (px_modules p') \<and> wf_providers {} (px_modules p') (px_heap p') \<and>
      (\<exists>es. px_out p' = px_out p @ es \<and> (\<forall>e \<in> set es. inward e))"
    using P(3)
  proof (cases rule: call_outcome.cases)
    case stays
    with s frame(3) show ?thesis
      by (auto simp: staffed_alone_def alone_def wf_providers_def same_heap_def same_lists_def)
  next
    case (handed via mo es)
    let ?mods = "zh_modify via (mo\<lparr>mo_state := BUSY\<rparr>) (px_modules p)"
    have "wf_providers {} ?mods (px_heap p)"
      using s handed(3) wf_providers_modify by (simp add: staffed_alone_def)
    with s handed via frame(3) sends_hex hex_keys_modify [OF _ handed(3), of "mo\<lparr>mo_state := BUSY\<rparr>"] show ?thesis
      by (auto simp: staffed_alone_def alone_def wf_providers_def same_heap_def same_lists_def)
  next
    case (passed_on via es)
    with s via frame(3) sends_hex show ?thesis
      by (auto simp: staffed_alone_def alone_def wf_providers_def same_heap_def same_lists_def)
  qed
  with s frame no_globals_same show "staffed_alone p'"
    by (auto simp: staffed_alone_def alone_def)
  show "local_call m'" by (rule m')
qed


text \<open>The waiting calls: every pass over them returns.\<close>

lemma place_item_alone:
  assumes "staffed_alone p" and "zh_lookup k (px_queue p) = Some m" and "place_call_item E k m p = Inr (rc, p')"
  shows "staffed_alone p'"
proof -
  have m: "local_call m" using assms(1,2) by (simp add: staffed_alone_def alone_def)
  obtain m' p1 where pc: "place_call E m p = Inr (rc, m', p1)"
    and p': "p' = p1\<lparr>px_queue := zh_modify k m' (px_queue p1)\<rparr>"
    using assms(3) by (auto simp: place_call_item_def res_simps)
  from place_alone [OF assms(1) m pc] show ?thesis
    unfolding p' by (auto simp: staffed_alone_def alone_def zh_lookup_modify)
qed

interpretation lonely: safe_iteration px_queue "place_call_item E" staffed_alone for E
proof unfold_locales
  show "staffed_alone s \<Longrightarrow> zh_lookup k (px_queue s) = Some v \<Longrightarrow> place_call_item E k v s = Inr (rc, s') \<Longrightarrow>
    staffed_alone s'" for s k v rc s'
    by (rule place_item_alone)
  show "returns (place_call_item E k v s)" if "staffed_alone s" "zh_lookup k (px_queue s) = Some v" for s k v
    using place_alone_returns [OF that(1), of v E] that by (auto simp: place_call_item_def staffed_alone_def alone_def)
qed

lemma place_all_alone:
  assumes "staffed_alone p"
  shows "\<exists>p'. place_all E p = Inr p' \<and> staffed_alone p'"
proof -
  have "returns (zh_foreach px_queue (place_call_item E) p)" by (rule lonely.foreach_returns [OF assms])
  then obtain rc p' where "zh_foreach px_queue (place_call_item E) p = Inr (rc, p')"
    by (auto simp: returns_iff)
  with lonely.foreach_keeps [OF assms this] show ?thesis by (auto simp: place_all_def)
qed

section \<open>Handlers\<close>

lemma send_alone:
  assumes "alone p" and "send_message msg ident p = Inr p'"
  shows "alone p'" "staffed_alone p \<Longrightarrow> staffed_alone p'"
proof -
  have "px_fabs p = []" using assms(1) by (simp add: alone_def)
  then have "p' = p \<or> (\<exists>i ob. p' = emit (To_Local i ob) p)"
    using assms(2) by (auto simp: send_message_def zh_lookup_def res_simps split: option.splits if_splits)
  with assms(1) show "alone p'" "staffed_alone p \<Longrightarrow> staffed_alone p'"
    by (auto simp: staffed_alone_def alone_def)
qed

lemma drop_alone: "alone p \<Longrightarrow> alone (drop_call k p)" "staffed_alone p \<Longrightarrow> staffed_alone (drop_call k p)"
  by (auto simp: staffed_alone_def alone_def drop_call_def zh_lookup_delete)

lemma alone_procman [simp]: "alone (emit (To_Procman s) p) = alone p" "staffed_alone (emit (To_Procman s) p) = staffed_alone p"
  by (auto simp: staffed_alone_def alone_def)

lemma alone_update: "alone p \<Longrightarrow> zh_lookup k (px_modules p) = Some mo \<Longrightarrow> mo_identity mo' = mo_identity mo \<Longrightarrow>
   alone (p\<lparr>px_modules := zh_modify k mo' (px_modules p)\<rparr>)"
  by (auto simp: alone_def hex_keys_modify)

lemma release_alone:
  assumes "staffed_alone p" and "release_module E ident p = Inr p'"
  shows "alone p'"
proof (cases "zh_lookup ident (px_modules p)")
  case None
  with assms show ?thesis by (simp add: release_module_def staffed_alone_def)
next
  case (Some mo)
  show ?thesis
  proof (cases "mo_need_restart mo")
    case True
    with assms Some show ?thesis by (auto simp: release_module_def staffed_alone_def)
  next
    case False
    let ?p = "p\<lparr>px_modules := zh_modify ident (mo\<lparr>mo_state := IDLE\<rparr>) (px_modules p)\<rparr>"
    have "staffed_alone ?p"
      using assms(1) Some alone_update [OF _ Some] wf_providers_modify [OF _ Some] by (simp add: staffed_alone_def)
    moreover have "place_all E ?p = Inr p'" using assms(2) Some False by (simp add: release_module_def)
    ultimately show ?thesis using place_all_alone [of ?p E] by (auto simp: staffed_alone_def)
  qed
qed

lemma answer_alone:
  assumes s: "staffed_alone p" and local: "msg_local m" and q: "zh_lookup (msg_actionid m) (px_queue p) = Some stored"
  shows "process_result E m p = Inr p' \<Longrightarrow> alone p'" "process_exception E m p = Inr p' \<Longrightarrow> alone p'"
proof -
  have stored: "msg_local stored" using s q by (simp add: staffed_alone_def alone_def local_call_def)
  have a: "alone p" using s by (simp add: staffed_alone_def)
  have ended: "alone p'" if "send_message (Some (message_tomsg m)) (msg_identity stored) p = Inr p1"
      "release_module E (msg_identity m) (drop_call (msg_actionid stored) p1) = Inr p'" for p1
    using release_alone [OF drop_alone(2) [OF send_alone(2) [OF a that(1) s]] that(2)] .
  show "process_result E m p = Inr p' \<Longrightarrow> alone p'" "process_exception E m p = Inr p' \<Longrightarrow> alone p'"
    using ended local stored q a
    by (auto simp: process_result_def process_exception_def res_simps split: option.splits)
qed

lemma ifacelist_alone: "alone p \<Longrightarrow> process_ifacelist m p = Inr p' \<Longrightarrow> p' = p"
  by (auto simp: process_ifacelist_def res_simps alone_def zh_lookup_def split: option.splits)

lemma request_alone: "alone p \<Longrightarrow> process_request E m p = Inr p' \<Longrightarrow> alone p'"
  by (auto simp: process_request_def process_req_ifacelist_def getActionid_def res_simps alone_def zh_lookup_def
      split: option.splits if_splits)

lemma call_alone:
  assumes s: "staffed_alone p" and m: "msg_local m" "msg_globals m = None" and run: "process_call E m p = Inr p'"
  shows "alone p'"
  using run
proof (cases rule: process_call_cases)
  case (malformed m')
  with s send_alone(1) show ?thesis by (auto simp: refuse_call_def staffed_alone_def)
next
  case (refused md func ver rc m1 p1)
  have "local_call (call_of m ver (Some md) (Some func))" using m by (simp add: local_call_def call_of_def)
  from place_alone(1) [OF s this refused(2)] refused(3) send_alone(1) show ?thesis
    by (auto simp: refuse_call_def staffed_alone_def)
next
  case (queued md func ver rc m1 p1)
  have "local_call (call_of m ver (Some md) (Some func))" using m by (simp add: local_call_def call_of_def)
  from place_alone [OF s this queued(2)] queued(5) show ?thesis
    by (auto simp: staffed_alone_def alone_def zh_lookup_insert split: if_splits)
qed

text \<open>A module introduces itself: its interfaces have no fabrics.\<close>

lemma find_or_new_alone:
  assumes "alone p" and "find_or_new_iface md func ver p = Inr (a, p1)"
  shows "alone p1 \<and> px_modules p1 = px_modules p"
proof -
  obtain r p0 where c: "check_interface (Some md) (Some func) ver p = Inr (r, p0)"
    and rest: "(case r of Some a \<Rightarrow> Inr (a, p0) | None \<Rightarrow>
        (case iface_new (Some md) (Some func) ver of None \<Rightarrow> Inl Null_Deref
         | Some i \<Rightarrow> Inr (px_next p0, p0\<lparr>px_heap := (px_heap p0)(px_next p0 := i),
             px_ifaces := zl_append (px_next p0) (px_ifaces p0), px_next := Suc (px_next p0)\<rparr>))) = Inr (a, p1)"
    using assms(2) by (auto simp: find_or_new_iface_def res_simps)
  obtain l where "p0 = p\<lparr>px_ifaces := l\<rparr>" using check_interface_effect [OF c] by blast
  with assms(1) rest show ?thesis
    by (auto simp: alone_def no_globals_def iface_new_def zl_new_def split: option.splits if_splits)
qed

lemma introduce_function_alone:
  assumes "alone p" and "introduce_function mo provides func p = Inr p'"
  shows "alone p'"
proof -
  obtain ver a p1 where f: "find_or_new_iface (mo_name mo) func ver p = Inr (a, p1)"
    and pr: "print_iface a (p1\<lparr>px_heap := (px_heap p1)(a := snd (iface_append_local (px_heap p1 a) (mo_identity mo)))\<rparr>) = Inr p'"
    using assms(2) by (auto simp: introduce_function_def res_simps)
  have "alone p1" using find_or_new_alone [OF assms(1) f] by simp
  moreover have "if_global (snd (iface_append_local (px_heap p1 a) (mo_identity mo))) = if_global (px_heap p1 a)"
    by (rule iface_append_local_items(2))
  ultimately show ?thesis
    unfolding print_iface_effect(1) [OF pr] by (auto simp: alone_def no_globals_def)
qed

lemma introduce_alone:
  assumes a: "alone p" and hex: "hex_identity (msg_identity m)" and run: "process_introduce E answer m p = Inr p'"
  shows "alone p'"
  using run
proof (cases rule: process_introduce_cases)
  case rejected
  with a show ?thesis by auto
next
  case (empty s)
  with a alone_procman(1) [of s p] show ?thesis by (simp add: alone_def)
next
  case (accepted s mo h p1)
  let ?p = "(emit (To_Procman s) p)\<lparr>px_next := Suc (px_next p)\<rparr>"
  have start: "alone ?p" using a alone_procman(1) [of s p] by (simp add: alone_def)
  have step: "\<And>f s s'. f \<in> set (zh_keys h) \<Longrightarrow> alone s \<Longrightarrow> introduce_function mo h f s = Inr s' \<Longrightarrow> alone s'"
    by (rule introduce_function_alone)
  have p1: "alone p1"
    using rfold_invariant [where I = alone and f = "introduce_function mo h", OF step start accepted(2)] .
  let ?k = "msg_identity m"
  let ?p1 = "(emit (To_Procman [''register'', mo_spid mo, mo_name mo]) p1)\<lparr>px_modules := zh_insert ?k mo (px_modules p1)\<rparr>"
  have k: "snd (mo_identity mo) = ?k" using accepted(1) by simp
  have ins: "alone ?p1" using p1 hex k by (auto simp: alone_def hex_keys_def zh_lookup_insert)
  obtain p3 where s: "send_message (message_response (Some ''ok'') (Some (msg_actionid m))) ?k ?p1 = Inr p3"
    and p': "p' = (if zh_lookup ?k (px_modules p1) = None
      then p3\<lparr>px_modules := zh_modify ?k (mo\<lparr>mo_state := IDLE\<rparr>) (px_modules p3)\<rparr> else p3)"
    using accepted(3) k by (auto simp: register_module_def Let_def res_simps)
  have p3: "alone p3" using send_alone(1) [OF ins s] .
  have "zh_lookup ?k (px_modules p3) = Some mo" if "zh_lookup ?k (px_modules p1) = None"
    using send_message_fields(2) [OF s] that by (simp add: zh_lookup_insert)
  with p3 alone_update [OF p3, of ?k mo "mo\<lparr>mo_state := IDLE\<rparr>"] show ?thesis
    unfolding p' by auto
qed

lemma command_alone:
  assumes inv: "router_inv p" and a: "alone p" and m: "msg_local m" "msg_globals m = None" "hex_identity (msg_identity m)"
    and run: "process_command E answer m p = Inr p'"
  shows "alone p'"
proof -
  have s: "staffed_alone p" using alone_staffed [OF inv a] .
  have unknown: "alone p'" if "zh_lookup (msg_actionid m) (px_queue p) = None"
      "process_result E m p = Inr p' \<or> process_exception E m p = Inr p'"
  proof -
    have "process_ifacelist m p = Inr p' \<or> p' = p"
      using that by (auto simp: process_result_def process_exception_def res_simps)
    with a ifacelist_alone [OF a] show ?thesis by blast
  qed
  show ?thesis
    using run
  proof (cases rule: process_command_cases)
    case request then show ?thesis using request_alone [OF a] by blast
  next
    case result then show ?thesis
      using unknown answer_alone(1) [OF s m(1)] by (cases "zh_lookup (msg_actionid m) (px_queue p)") auto
  next
    case call then show ?thesis using call_alone [OF s m(1,2)] by blast
  next
    case exception then show ?thesis
      using unknown answer_alone(2) [OF s m(1)] by (cases "zh_lookup (msg_actionid m) (px_queue p)") auto
  next
    case introduce then show ?thesis using introduce_alone [OF a m(3)] by blast
  next
    case same with a show ?thesis by simp
  qed
qed

text \<open>Removing a module leaves no fabric behind, as there is none.\<close>

lemma forget_alone:
  assumes "router_inv p" and "alone p" and "print_ifaces (forget_identity E ident p) = Inr p'"
  shows "alone p'"
proof -
  obtain l h where r: "iface_remove (ev_byval E) (px_ifaces p) (px_heap p) ident = (l, h)"
    by (cases "iface_remove (ev_byval E) (px_ifaces p) (px_heap p) ident")
  have "wf_ifaces (px_next p) (zl_items (px_ifaces p)) (px_heap p)" using assms(1) by (simp add: router_inv_def)
  note h = wf_ifaces_remove(3) [OF this r]
  have "set (if_globals (h a)) \<subseteq> set (if_globals (px_heap p a))" for a
    unfolding h using iface_forget_subset(3) by simp
  then have "no_globals h" using assms(2) by (simp add: alone_def no_globals_def if_globals_def)
  with print_ifaces_frame [OF assms(3)] assms(2) no_globals_same show ?thesis
    by (auto simp: alone_def forget_identity_def r same_frame_def)
qed

lemma delete_alone: "alone p \<Longrightarrow> alone (p\<lparr>px_modules := zh_delete k (px_modules p)\<rparr>)"
  by (simp add: alone_def hex_keys_delete)

lemma give_up_alone:
  assumes "router_inv p" and "alone p" and "give_up_module E via p = Inr p'"
  shows "alone p'"
proof (cases "zh_lookup via (px_modules p)")
  case None
  with assms(3) show ?thesis by (simp add: give_up_module_def)
next
  case (Some mo)
  show ?thesis
  proof (cases "cf_debug (ev_conf E)")
    case True
    with assms(2,3) Some show ?thesis by (simp add: give_up_module_def)
  next
    case False
    with assms(3) Some obtain p1 where f: "print_ifaces (forget_identity E (mo_identity mo)
        (emit (To_Procman [''restart'', mo_spid mo]) p)) = Inr p1"
      and p': "p' = p1\<lparr>px_modules := zh_delete (snd (mo_identity mo)) (px_modules p1)\<rparr>"
      by (auto simp: give_up_module_def res_simps)
    have "alone p1" using forget_alone [OF _ _ f] assms(1,2) by simp
    then show ?thesis unfolding p' by (rule delete_alone)
  qed
qed

lemma timeout_item_alone:
  assumes "router_inv p" and "alone p" and "process_queue_item E k m p = Inr (rc, p')"
  shows "alone p'"
  using assms(3)
proof (cases rule: process_queue_item_cases)
  case (1 late_proc p1)
  then have "alone p1" using assms(1,2) give_up_alone by (cases late_proc) auto
  with 1(3) send_alone(1) drop_alone(1) show ?thesis by blast
qed

interpretation lonely_timeouts: iteration px_queue "process_queue_item E" "\<lambda>s. broker_ok E s \<and> alone s" for E
proof unfold_locales
  fix s k v rc s'
  assume "broker_ok E s \<and> alone s" and "zh_lookup k (px_queue s) = Some v" and "process_queue_item E k v s = Inr (rc, s')"
  then show "broker_ok E s' \<and> alone s'"
    using process_queue_item_ok [of E s] timeout_item_alone [of s E k v rc s'] unfolding broker_ok_def by blast
qed

lemma checkpid_alone:
  assumes "router_inv p" and "alone p" and "zh_lookup k (px_modules p) = Some mo"
    and "procman_checkpid E command pid k mo p = Inr (rc, p')"
  shows "alone p'"
proof (cases "mo_pid mo = pid \<and> command = ''remove''")
  case True
  then obtain p1 where f: "print_ifaces (forget_identity E (mo_identity mo) p) = Inr p1"
    and p': "p' = p1\<lparr>px_modules := zh_delete (snd (mo_identity mo)) (px_modules p1)\<rparr>"
    using assms(4) by (auto simp: procman_checkpid_def res_simps)
  show ?thesis unfolding p' by (rule delete_alone [OF forget_alone [OF assms(1,2) f]])
next
  case False
  with assms(2,4) alone_update [OF assms(2,3)] show ?thesis
    by (auto simp: procman_checkpid_def split: if_splits)
qed

interpretation lonely_procman: iteration px_modules "procman_checkpid E command pid" "\<lambda>s. broker_ok E s \<and> alone s"
  for E command pid
proof unfold_locales
  fix s k v rc s'
  assume "broker_ok E s \<and> alone s" and "zh_lookup k (px_modules s) = Some v"
    and "procman_checkpid E command pid k v s = Inr (rc, s')"
  then show "broker_ok E s' \<and> alone s'"
    using procman_checkpid_ok [of E s k v E command pid rc s'] checkpid_alone [of s k v E command pid rc s']
    unfolding broker_ok_def by blast
qed

lemma handle_alone:
  assumes inv: "broker_ok E p" and a: "alone p" and polls: "reactor_polls r ev" and re: "local_reactor r"
    and ids: "zmq_identities W ev" and run: "handle W E ev p = Inr p'"
  shows "alone p'"
proof (cases ev)
  case Queue_Timer
  with run inv a lonely_timeouts.foreach_keeps [of E p] show ?thesis
    by (auto simp: handle_def process_queue_def res_simps split: if_splits)
next
  case (Procman_In command pid)
  with run inv a lonely_procman.foreach_keeps [of E p] show ?thesis
    by (auto simp: handle_def s_procman_event_def res_simps split: option.splits if_splits)
next
  case (Local_In msg answer)
  then obtain mo where mo: "message_fromzmq (wo_strhex W) (wo_unpack W) (ev_now E) msg True = Inr mo"
    using run by (auto simp: handle_def s_local_event_def res_simps)
  show ?thesis
  proof (cases mo)
    case None
    with run Local_In mo a show ?thesis by (simp add: handle_def s_local_event_def)
  next
    case (Some m)
    with mo obtain fr payload where msg: "msg = [fr, payload]" and m: "msg_local m" "msg_globals m = None" "msg_identity m = wo_strhex W fr"
      by (auto elim!: message_fromzmq_Some simp: accepted_def message_new_def)
    then have "hex_identity (msg_identity m)"
      using ids Local_In by (auto simp: zmq_identities_def hex_identity_def)
    moreover have "process_command E answer m p = Inr p'"
      using run Local_In mo Some by (simp add: handle_def s_local_event_def)
    ultimately show ?thesis using command_alone [OF _ a m(1,2)] inv by (simp add: broker_ok_def)
  qed
qed (use polls re in \<open>simp_all add: reactor_polls_def local_reactor_def\<close>)

lemma polled_alone: "polled_reach r W p \<Longrightarrow> local_reactor r \<Longrightarrow> alone p"
proof (induction rule: polled_reach.induct)
  case start
  then show ?case by (simp add: local_reactor_def alone_def no_globals_def hex_keys_def proxy_new_def empty_iface_def zl_new_def)
next
  case (event p ev E p')
  have "broker_ok E p" using reach_ok [OF polled_reach_reach [OF event(1) event.prems]] by (simp add: broker_ok_def)
  from handle_alone [OF this event.IH [OF event.prems] event(2) event.prems event(3,5)] show ?case .
next
  case (rehash p fabs mods queue)
  have "router_inv p" using reach_ok [OF polled_reach_reach [OF rehash(1) rehash.prems]] by blast
  note L = rehash_lookup [OF this rehash(2-4)]
  have "fabs = []" using rehash(2) rehash.IH [OF rehash.prems] by (simp add: alone_def zh_same_def)
  with rehash.IH [OF rehash.prems] L show ?case by (simp add: alone_def hex_keys_def)
qed

lemma polled_staffed: "polled_reach r W p \<Longrightarrow> local_reactor r \<Longrightarrow> staffed_alone p"
  using alone_staffed polled_alone reach_ok polled_reach_reach by blast

end
