(* ===== verification/FastCGI.thy ===== *)
theory FastCGI
  imports Message
begin

text \<open>
  \<^verbatim>\<open>modules/fastcgi/modbus_fastcgi.c\<close>: a module that turns HTTP requests into calls of the broker
  and the answers of the broker into HTTP responses. What the FastCGI library accepted is an
  argument of the handler, what is written to a request or sent to the broker is appended to
  \<open>gw_out\<close>; a request is the number of its allocation.
\<close>

section \<open>State\<close>

datatype gw_effect =
    Call_Out mobj
  | Put nat string
  | Finish nat

record gateway =
  rq_list :: "nat zhash"
  gw_next :: nat
  gw_out :: "gw_effect list"

definition gateway_new :: gateway where
  "gateway_new = \<lparr>rq_list = [], gw_next = 0, gw_out = []\<rparr>"

definition reply :: "gw_effect list \<Rightarrow> gateway \<Rightarrow> gateway" where
  "reply es g = g\<lparr>gw_out := gw_out g @ es\<rparr>"

definition CRLF :: string where
  "CRLF = [CHR 0x0D, CHR 0x0A]"

definition http_400 :: string where
  "http_400 = ''Status: 400 Bad Request'' @ CRLF @ CRLF"

text \<open>A pointer that \<open>m_lookup\<close> returned, used as a string.\<close>

definition lookup_str :: "lookup_val \<Rightarrow> string res" where
  "lookup_str d = (case d of LStr s \<Rightarrow> Inr s | _ \<Rightarrow> Inl Type_Confusion)"

section \<open>The introduction\<close>

definition introduction :: "u64 \<Rightarrow> string \<Rightarrow> mobj" where
  "introduction pid actionid =
     MMap
       [(MRaw ''command'', MRaw ''introduce''),
        (MRaw ''body'', MMap
          [(MRaw ''pid'', MPos pid),
           (MRaw ''name'', MRaw ''modbus_fastcgi''),
           (MRaw ''desc'', MRaw ''modbus FastCGI upstream module''),
           (MRaw ''debug'', MBool True),
           (MRaw ''provides'', MMap [(MRaw ''stop'', mint 1)])]),
        (MRaw ''actionid'', MRaw actionid)]"

text \<open>\<open>resp\<close> is the answer, \<open>None\<close> if the receive was interrupted. Its two strings are printed and
  freed.\<close>

definition free_lookup :: "mobj \<Rightarrow> string \<Rightarrow> unit res" where
  "free_lookup ob key =
     rbind (m_lookup ob key) (\<lambda>v. case v of None \<Rightarrow> Inr () | Some d \<Rightarrow> rbind (lookup_str d) (\<lambda>s. Inr ()))"

definition introduce :: "(string \<Rightarrow> mobj option) \<Rightarrow> u64 \<Rightarrow> string option \<Rightarrow> string list option \<Rightarrow> gateway \<Rightarrow>
    (int \<times> gateway) res" where
  "introduce unpack pid actionid resp g =
     (case actionid of
        None \<Rightarrow> Inr (-1, g)
      | Some aid \<Rightarrow>
          let g1 = reply [Call_Out (introduction pid aid)] g in
          (case resp of
             None \<Rightarrow> Inr (-1, g1)
           | Some [] \<Rightarrow> Inl Assert_Fail
           | Some (payload # _) \<Rightarrow>
               (case unpack payload of
                  None \<Rightarrow> Inr (-1, g1)
                | Some ob \<Rightarrow>
                    rbind (free_lookup ob ''command'') (\<lambda>_.
                    rbind (free_lookup ob ''introduce'') (\<lambda>_. Inr (0, g1))))))"

section \<open>A request\<close>

text \<open>
  What the library delivers: whether the request could be initialised and accepted, its
  parameter \<open>REQUEST_URI\<close>, all its parameters as \<open>NAME=value\<close>, and whether the message could be
  sent.
\<close>

record upstream =
  up_init :: bool
  up_accept :: bool
  up_uri :: "string option"
  up_envp :: "string list"
  up_sent :: bool

text \<open>One parameter is copied to \<open>param[256]\<close> and \<open>value[8192]\<close>. Without an \<open>=\<close> the offset is that of
  \<open>NULL\<close> from the string, far outside. \<open>val_pos\<close> counts the \<open>=\<close> too, so that the \<open>memcpy\<close> takes
  the terminator along.\<close>

definition pack_param :: "string \<Rightarrow> (mobj \<times> mobj) res" where
  "pack_param p =
     (if CHR ''='' \<notin> set p then Inl Buffer_Overflow
      else
        let pos = length (takeWhile (\<lambda>c. c \<noteq> CHR ''='') p) in
        if pos \<noteq> 0 then
          (if \<not> pos < 256 then Inl Buffer_Overflow
           else
             let val_pos = length p - pos in
             if \<not> val_pos < 8192 then Inl Buffer_Overflow
             else Inr (MRaw (take pos p), MRaw (drop (pos + 1) p)))
        else Inr (MRaw [], MRaw []))"

definition pack_params :: "string list \<Rightarrow> (mobj \<times> mobj) list res" where
  "pack_params envp = rfold (\<lambda>p kvs. rbind (pack_param p) (\<lambda>kv. Inr (kvs @ [kv]))) envp []"

definition call_request :: "string \<Rightarrow> string \<Rightarrow> string \<Rightarrow> int \<Rightarrow> (mobj \<times> mobj) list \<Rightarrow> string \<Rightarrow> mobj" where
  "call_request command module function version params actionid =
     MMap
       [(MRaw ''command'', MRaw command),
        (MRaw ''body'', MMap
          [(MRaw ''module'', MRaw module),
           (MRaw ''function'', MRaw function),
           (MRaw ''version'', MPos (u64_of_int version)),
           (MRaw ''parameters'', MMap params),
           (MRaw ''seqno'', MPos 0)]),
        (MRaw ''actionid'', MRaw actionid)]"

text \<open>The first character of the address is skipped without looking at it.\<close>

definition upstream_event :: "string \<Rightarrow> upstream \<Rightarrow> gateway \<Rightarrow> gateway res" where
  "upstream_event actionid u g0 =
     (let request = gw_next g0; g = g0\<lparr>gw_next := Suc request\<rparr> in
      if \<not> up_init u then Inr g
      else if \<not> up_accept u then Inr g
      else (case up_uri u of
          None \<Rightarrow> Inr (reply [Finish request] g)
        | Some [] \<Rightarrow> Inl Over_Read
        | Some (_ # path) \<Rightarrow>
            (case strtok_all (CHR ''/'') path of
               command # module # function # version # _ \<Rightarrow>
                 rbind (atoi version) (\<lambda>ver.
                 rbind (pack_params (up_envp u)) (\<lambda>params.
                   if up_sent u
                   then Inr ((reply [Call_Out (call_request command module function ver params actionid)] g)
                     \<lparr>rq_list := zh_insert actionid request (rq_list g)\<rparr>)
                   else Inr g))
             | _ \<Rightarrow> Inr (reply [Put request http_400, Finish request] g))))"

section \<open>An answer\<close>

definition status_string :: "int \<Rightarrow> string" where
  "status_string code =
     (if code = 200 then ''OK'' else if code = 400 then ''Bad Request''
      else if code = 404 then ''Not Found'' else ''Internal server error'')"

definition status_line :: "int \<Rightarrow> string \<Rightarrow> string res" where
  "status_line code text = sprintf_buf 64 (''Status: '' @ show_int code @ '' '' @ text @ CRLF)"

definition put_status :: "nat \<Rightarrow> mobj \<Rightarrow> gateway \<Rightarrow> gateway res" where
  "put_status request p g =
     (case p of
        MPos u \<Rightarrow> (let code = int_of_u64 u in
          rbind (status_line code (status_string code)) (\<lambda>status. Inr (reply [Put request status] g)))
      | _ \<Rightarrow> rbind (status_line 503 ''Internal server error'') (\<lambda>status. Inr (reply [Put request status] g)))"

text \<open>\<open>FCGX_PutStr(o->via.raw.ptr, o->via.raw.size, request->out)\<close>\<close>

definition put_raw :: "nat \<Rightarrow> mobj \<Rightarrow> gateway \<Rightarrow> gateway res" where
  "put_raw request x g = (case x of MRaw bs \<Rightarrow> Inr (reply [Put request bs] g) | _ \<Rightarrow> Inl Type_Confusion)"

text \<open>The headers are taken in pairs; the value of the last one may lie behind the array.\<close>

fun put_headers :: "nat \<Rightarrow> mobj list \<Rightarrow> gateway \<Rightarrow> gateway res" where
  "put_headers request [] g = Inr g"
| "put_headers request [x] g = rbind (put_raw request x g) (\<lambda>g1. Inl Over_Read)"
| "put_headers request (x # y # xs) g =
     rbind (put_raw request x g) (\<lambda>g1.
     rbind (put_raw request y (reply [Put request '':''] g1)) (\<lambda>g2.
       put_headers request xs (reply [Put request CRLF] g2)))"

definition array_items :: "mobj \<Rightarrow> mobj list" where
  "array_items p = (case p of MArr xs \<Rightarrow> xs | _ \<Rightarrow> [])"

definition put_response :: "nat \<Rightarrow> mobj \<Rightarrow> mobj \<Rightarrow> mobj \<Rightarrow> gateway \<Rightarrow> gateway res" where
  "put_response request p0 p1 p2 g =
     rbind (put_status request p0 g) (\<lambda>g1.
     rbind (put_headers request (array_items p1) g1) (\<lambda>g2.
     rbind (rfold (put_raw request) (array_items p2) (reply [Put request CRLF] g2)) (\<lambda>g3.
       Inr (reply [Put request CRLF] g3))))"

text \<open>A result that is no array of three parts is only logged.\<close>

definition answer_result :: "nat \<Rightarrow> mobj \<Rightarrow> gateway \<Rightarrow> gateway res" where
  "answer_result request ob g =
     rbind (m_lookup ob ''result'') (\<lambda>result.
       case result of
         None \<Rightarrow> Inr g
       | Some (LObj v) \<Rightarrow> (case v of MArr [p0, p1, p2] \<Rightarrow> put_response request p0 p1 p2 g | _ \<Rightarrow> Inr g)
       | Some _ \<Rightarrow> Inl Type_Confusion)"

definition answer_exception :: "nat \<Rightarrow> mobj \<Rightarrow> gateway \<Rightarrow> gateway res" where
  "answer_exception request ob g =
     rbind (status_line 500 ''Internal server error'') (\<lambda>status.
     rbind (m_lookup ob ''string'') (\<lambda>message.
     rbind (case message of None \<Rightarrow> Inr [] | Some d \<Rightarrow> lookup_str d) (\<lambda>text.
       Inr (reply [Put request status, Put request CRLF, Put request text, Put request CRLF] g))))"

definition answer_request :: "nat \<Rightarrow> mobj \<Rightarrow> gateway \<Rightarrow> gateway res" where
  "answer_request request ob g =
     rbind (m_lookup ob ''command'') (\<lambda>c.
       case c of
         None \<Rightarrow> rbind (status_line 500 ''Internal server error'') (\<lambda>status.
           Inr (reply [Put request status, Put request CRLF, Put request CRLF] g))
       | Some d \<Rightarrow> rbind (lookup_str d) (\<lambda>command.
           rbind (if command = ''result'' then answer_result request ob g else Inr g) (\<lambda>g1.
             if command = ''exception'' then answer_exception request ob g1 else Inr g1)))"

definition zmq_event :: "(string \<Rightarrow> mobj option) \<Rightarrow> string list \<Rightarrow> gateway \<Rightarrow> gateway res" where
  "zmq_event unpack msg g =
     (case msg of
        [] \<Rightarrow> Inl Assert_Fail
      | payload # _ \<Rightarrow>
          (case unpack payload of
             None \<Rightarrow> Inr g
           | Some ob \<Rightarrow>
               rbind (m_lookup ob ''actionid'') (\<lambda>a.
                 case a of
                   None \<Rightarrow> Inr g
                 | Some d \<Rightarrow> rbind (lookup_str d) (\<lambda>actionid.
                     case zh_lookup actionid (rq_list g) of
                       None \<Rightarrow> Inr g
                     | Some request \<Rightarrow>
                         rbind (answer_request request ob g) (\<lambda>g1.
                           Inr ((reply [Finish request] g1)\<lparr>rq_list := zh_delete actionid (rq_list g1)\<rparr>))))))"

section \<open>The reactor\<close>

datatype gw_event = Upstream_In string upstream | Zmq_In "string list"

definition gw_handle :: "(string \<Rightarrow> mobj option) \<Rightarrow> gw_event \<Rightarrow> gateway \<Rightarrow> gateway res" where
  "gw_handle unpack ev g =
     (case ev of Upstream_In actionid u \<Rightarrow> upstream_event actionid u g | Zmq_In msg \<Rightarrow> zmq_event unpack msg g)"

definition fcgi_init :: "int \<Rightarrow> int" where
  "fcgi_init socketId = (if socketId < 0 then -1 else 0)"

text \<open>The program, with its arguments without the name, the socket that \<open>FCGX_OpenSocket\<close> returns, and the events
  until its reactor ends. \<open>-1\<close> are the returns before the reactor.\<close>

definition gw_main :: "string list \<Rightarrow> bool \<Rightarrow> int \<Rightarrow> (string \<Rightarrow> mobj option) \<Rightarrow> u64 \<Rightarrow> string option \<Rightarrow> string list option \<Rightarrow>
    gw_event list \<Rightarrow> (int \<times> gateway) res" where
  "gw_main argv connected socketId unpack pid actionid resp events =
     (if length argv \<noteq> 2 then Inr (-1, gateway_new)
      else if \<not> connected then Inr (-1, gateway_new)
      else if fcgi_init socketId = -1 then Inr (-1, gateway_new)
      else rbind (introduce unpack pid actionid resp gateway_new) (\<lambda>(rc, g).
        if rc \<noteq> 0 then Inr (-1, g)
        else rbind (rfold (gw_handle unpack) events g) (\<lambda>g'. Inr (0, g'))))"

text \<open>The table of requests is made after the introduction.\<close>

inductive gw_reach :: "(string \<Rightarrow> mobj option) \<Rightarrow> gateway \<Rightarrow> bool" for unpack where
  start: "introduce unpack pid actionid resp gateway_new = Inr (0, g) \<Longrightarrow> gw_reach unpack g"
| event: "gw_reach unpack g \<Longrightarrow> gw_handle unpack ev g = Inr g' \<Longrightarrow> gw_reach unpack g'"
| rehash: "gw_reach unpack g \<Longrightarrow> zh_same (rq_list g) rqs \<Longrightarrow> gw_reach unpack (g\<lparr>rq_list := rqs\<rparr>)"

end
