(* ===== verification/FastCGI_Facts.thy ===== *)
theory FastCGI_Facts
  imports FastCGI Message_Facts
begin

text \<open>
  The FastCGI module: which parameters it can pack, what the broker reads out of its messages,
  what it writes for an answer, and that every request is finished at most once.
\<close>

section \<open>Parameters\<close>

definition param_fits :: "string \<Rightarrow> bool" where
  "param_fits p \<longleftrightarrow> CHR ''='' \<in> set p \<and>
     (let n = takeWhile (\<lambda>c. c \<noteq> CHR ''='') p in n \<noteq> [] \<longrightarrow> length n < 256 \<and> length p - length n < 8192)"

definition param_pair :: "string \<Rightarrow> mobj \<times> mobj" where
  "param_pair p =
     (let n = takeWhile (\<lambda>c. c \<noteq> CHR ''='') p in
      if n = [] then (MRaw [], MRaw []) else (MRaw n, MRaw (tl (dropWhile (\<lambda>c. c \<noteq> CHR ''='') p))))"

lemma pack_param_eq: "pack_param p = (if param_fits p then Inr (param_pair p) else Inl Buffer_Overflow)"
proof -
  let ?n = "takeWhile (\<lambda>c. c \<noteq> CHR ''='') p"
  have "take (length ?n) p = ?n" by (simp add: takeWhile_eq_take [symmetric])
  moreover have "drop (length ?n + 1) p = tl (dropWhile (\<lambda>c. c \<noteq> CHR ''='') p)"
    by (simp add: dropWhile_eq_drop drop_Suc tl_drop)
  ultimately show ?thesis
    by (simp add: pack_param_def param_fits_def param_pair_def Let_def)
qed

lemma pack_params_eq:
  "pack_params envp = (if \<forall>p \<in> set envp. param_fits p then Inr (map param_pair envp) else Inl Buffer_Overflow)"
proof -
  have "rfold (\<lambda>p kvs. rbind (pack_param p) (\<lambda>kv. Inr (kvs @ [kv]))) envp kvs =
      (if \<forall>p \<in> set envp. param_fits p then Inr (kvs @ map param_pair envp) else Inl Buffer_Overflow)" for kvs
    by (induction envp arbitrary: kvs) (simp_all add: pack_param_eq)
  then show ?thesis by (simp add: pack_params_def)
qed

section \<open>The broker's reading of a call\<close>

definition good_param :: "string \<times> string \<Rightarrow> bool" where
  "good_param nv \<longleftrightarrow> fst nv \<noteq> [] \<and> CHR ''='' \<notin> set (fst nv) \<and> is_cstr (fst nv) \<and> length (fst nv) < 256 \<and>
     length (snd nv) < 8191"

definition param_line :: "string \<times> string \<Rightarrow> string" where
  "param_line nv = fst nv @ CHR ''='' # snd nv"

lemma good_param_line:
  assumes "good_param nv"
  shows "param_fits (param_line nv)" "param_pair (param_line nv) = (MRaw (fst nv), MRaw (snd nv))"
proof -
  have eq: "\<forall>x \<in> set (fst nv). x \<noteq> CHR ''=''" using assms by (auto simp: good_param_def)
  have "takeWhile (\<lambda>c. c \<noteq> CHR ''='') (param_line nv) = fst nv"
    unfolding param_line_def by (rule takeWhile_stop [OF eq]) simp
  moreover have "dropWhile (\<lambda>c. c \<noteq> CHR ''='') (param_line nv) = CHR ''='' # snd nv"
    unfolding param_line_def by (rule dropWhile_stop [OF eq]) simp
  ultimately show "param_fits (param_line nv)" "param_pair (param_line nv) = (MRaw (fst nv), MRaw (snd nv))"
    using assms by (simp_all add: param_fits_def param_pair_def good_param_def Let_def) (simp add: param_line_def)
qed

lemma pack_params_good:
  "\<forall>nv \<in> set env. good_param nv \<Longrightarrow>
   pack_params (map param_line env) = Inr (map (\<lambda>nv. (MRaw (fst nv), MRaw (snd nv))) env)"
  by (simp add: pack_params_eq good_param_line comp_def cong: map_cong)

lemma raw_keys_params: "\<forall>nv \<in> set env. is_cstr (fst nv) \<Longrightarrow> raw_keys_kvs (map (\<lambda>nv. (MRaw (fst nv), MRaw (snd nv))) env)"
  by (induction env) auto

lemma flat_strs_params: "flat_strs_kvs (map (\<lambda>nv. (MRaw (fst nv), MRaw (snd nv))) env) = env"
  by (induction env) (auto simp: key_name_def)

definition request_of :: "string \<Rightarrow> string \<Rightarrow> string \<Rightarrow> int \<Rightarrow> (string \<times> string) list \<Rightarrow> string \<Rightarrow> mobj" where
  "request_of command md func ver env aid =
     call_request command md func ver (map (\<lambda>nv. (MRaw (fst nv), MRaw (snd nv))) env) aid"

lemma request_keys:
  assumes "\<forall>nv \<in> set env. is_cstr (fst nv)"
  shows "raw_keys (request_of command md func ver env aid)"
    "flat_strs (request_of command md func ver env aid) =
       [(''command'', command), (''module'', md), (''function'', func)] @ env @ [(''actionid'', aid)]"
  using raw_keys_params [OF assms] flat_strs_params [of env]
  by (simp_all add: request_of_def call_request_def key_name_def is_cstr_def)

lemma request_strings:
  assumes "\<forall>nv \<in> set env. is_cstr (fst nv)"
  shows "m_get_string (Some (request_of command md func ver env aid)) key =
    Inr (map_option cstr (map_of ([(''command'', command), (''module'', md), (''function'', func)] @ env @ [(''actionid'', aid)]) key))"
proof -
  obtain kvs where kvs: "request_of command md func ver env aid = MMap kvs"
    by (simp add: request_of_def call_request_def)
  show ?thesis
    using m_get_str_flat(1) [of kvs key] request_keys [OF assms, of command md func ver aid]
    unfolding kvs by (simp add: m_get_string_def)
qed

lemma request_body:
  "message_body (request_of command md func ver env aid) = Inr (Some (MMap
     [(MRaw ''module'', MRaw md), (MRaw ''function'', MRaw func), (MRaw ''version'', MPos (u64_of_int ver)),
      (MRaw ''parameters'', MMap (map (\<lambda>nv. (MRaw (fst nv), MRaw (snd nv))) env)), (MRaw ''seqno'', MPos 0)]))"
  by (simp add: request_of_def call_request_def message_body_def m_find_map_def key_prefix_def memcmp_key_def)

lemma request_accepted:
  assumes "\<forall>nv \<in> set env. is_cstr (fst nv)" and "''actionid'' \<notin> fst ` set env" and "command \<in> set commands"
    and "is_cstr aid" and "5 \<le> length aid" and "is_cstr md" and "is_cstr func"
    and "unpack frame = Some (request_of command md func ver env aid)" and "frame \<noteq> []"
  shows "\<exists>m. message_fromzmq strhex unpack now [ident, frame] True = Inr (Some m) \<and>
    msg_identity m = strhex ident \<and> msg_command m = Some command \<and> msg_actionid m = aid \<and>
    message_getModule m = Inr (Some md) \<and> message_getFunc m = Inr (Some func) \<and>
    message_getIfVersion m = Inr (u64_of_int ver)"
proof -
  let ?ob = "request_of command md func ver env aid"
  have "is_cstr command" using assms(3) by (auto simp: commands_def is_cstr_def)
  then have c: "message_check_command ?ob = Inr (Some command)"
    using assms(3) by (simp add: message_check_command_def request_strings [OF assms(1)])
  have "map_of env ''actionid'' = None" using assms(2) by (simp add: map_of_eq_None_iff)
  then have a: "message_check_actionid ?ob = Inr (Some aid)"
    using assms(4,5) by (simp add: message_check_actionid_def request_strings [OF assms(1)] map_add_def)
  let ?m = "accepted strhex now True ident ?ob command aid"
  have "is_map ?ob" by (simp add: request_of_def call_request_def is_map_def)
  from message_fromzmq_two [of unpack frame, OF assms(8) this assms(9)] c a
  have "message_fromzmq strhex unpack now [ident, frame] True = Inr (Some ?m)" by simp
  moreover have "message_getModule ?m = Inr (Some md)" "message_getFunc ?m = Inr (Some func)"
    "message_getIfVersion ?m = Inr (u64_of_int ver)"
    using assms(6,7)
    by (simp_all add: message_getModule_def message_getFunc_def message_getIfVersion_def body_string_def body_int_def
        request_body m_get_string_def m_get_int_def key_equal_def)
  ultimately show ?thesis by auto
qed

section \<open>A request\<close>

definition well_formed :: "upstream \<Rightarrow> string \<Rightarrow> string \<Rightarrow> string \<Rightarrow> int \<Rightarrow> bool" where
  "well_formed u command md func ver \<longleftrightarrow> up_init u \<and> up_accept u \<and>
     (\<exists>c path version more. up_uri u = Some (c # path) \<and>
        strtok_all (CHR ''/'') path = command # md # func # version # more \<and> atoi version = Inr ver)"

lemma upstream_request:
  assumes "well_formed u command md func ver" and "up_sent u"
  shows "upstream_event aid u g =
    (if \<forall>p \<in> set (up_envp u). param_fits p
     then Inr (g\<lparr>gw_next := Suc (gw_next g),
       gw_out := gw_out g @ [Call_Out (call_request command md func ver (map param_pair (up_envp u)) aid)],
       rq_list := zh_insert aid (gw_next g) (rq_list g)\<rparr>)
     else Inl Buffer_Overflow)"
  using assms by (auto simp: well_formed_def upstream_event_def Let_def pack_params_eq reply_def)

section \<open>An answer\<close>

lemma reply_fields [simp]: "rq_list (reply es g) = rq_list g" "gw_next (reply es g) = gw_next g"
    "gw_out (reply es g) = gw_out g @ es"
  by (simp_all add: reply_def)

lemma reply_reply [simp]: "reply es' (reply es g) = reply (es @ es') g"
  by (simp add: reply_def)

lemma reply_Nil [simp]: "reply [] g = g"
  by (simp add: reply_def)

text \<open>What is written to a request.\<close>

fun written :: "nat \<Rightarrow> gw_effect list \<Rightarrow> string" where
  "written r [] = []"
| "written r (Put r' s # es) = (if r' = r then s else []) @ written r es"
| "written r (e # es) = written r es"

lemma written_append [simp]: "written r (es @ es') = written r es @ written r es'"
  by (induction r es rule: written.induct) auto

text \<open>An answer only writes to its request.\<close>

definition puts :: "nat \<Rightarrow> gateway \<Rightarrow> gateway \<Rightarrow> bool" where
  "puts r g g' \<longleftrightarrow> (\<exists>es. g' = reply es g \<and> (\<forall>e \<in> set es. \<exists>s. e = Put r s))"

lemma puts_refl [simp]: "puts r g g"
  unfolding puts_def by (intro exI [of _ "[]"]) simp

lemma puts_reply [simp]: "\<forall>e \<in> set es. \<exists>s. e = Put r s \<Longrightarrow> puts r g (reply es g)"
  unfolding puts_def by blast

lemma puts_trans: "puts r g g1 \<Longrightarrow> puts r g1 g2 \<Longrightarrow> puts r g g2"
  unfolding puts_def by (metis Un_iff reply_reply set_append)

lemma puts_more: "puts r (reply es g) g2 \<Longrightarrow> \<forall>e \<in> set es. \<exists>s. e = Put r s \<Longrightarrow> puts r g g2"
  using puts_trans puts_reply by blast

lemma put_raw_Inr [res_simps]: "put_raw r x g = Inr g' \<longleftrightarrow> (\<exists>bs. x = MRaw bs \<and> g' = reply [Put r bs] g)"
  by (auto simp: put_raw_def split: mobj.splits)

lemma put_status_puts: "put_status r p g = Inr g' \<Longrightarrow> puts r g g'"
  by (auto simp: put_status_def Let_def res_simps split: mobj.splits)

lemma put_headers_puts: "put_headers r hs g = Inr g' \<Longrightarrow> puts r g g'"
proof (induction r hs g rule: put_headers.induct)
  case (3 r x y xs g)
  then obtain bx b2 where "x = MRaw bx" "y = MRaw b2"
    and rest: "put_headers r xs (reply [Put r bx, Put r '':'', Put r b2, Put r CRLF] g) = Inr g'"
    by (auto simp: res_simps)
  have "puts r (reply [Put r CRLF] (reply [Put r '':'', Put r b2] (reply [Put r bx] g))) g'"
    by (rule 3(1) [of "reply [Put r bx] g"]) (simp_all add: put_raw_def rest \<open>x = MRaw bx\<close> \<open>y = MRaw b2\<close>)
  then show ?case unfolding reply_reply by (rule puts_more) simp
qed (auto simp: res_simps)

lemma put_items: "rfold (put_raw r) xs g = Inr g' \<Longrightarrow> puts r g g'"
proof (induction xs arbitrary: g)
  case (Cons x xs)
  then obtain bs where "rfold (put_raw r) xs (reply [Put r bs] g) = Inr g'" by (auto simp: res_simps)
  from puts_more [OF Cons.IH [OF this]] show ?case by simp
qed simp

lemma put_response_puts: "put_response r p0 p1 p2 g = Inr g' \<Longrightarrow> puts r g g'"
proof -
  assume "put_response r p0 p1 p2 g = Inr g'"
  then obtain g1 g2 g3 where
    "put_status r p0 g = Inr g1" "put_headers r (array_items p1) g1 = Inr g2"
    "rfold (put_raw r) (array_items p2) (reply [Put r CRLF] g2) = Inr g3" "g' = reply [Put r CRLF] g3"
    by (auto simp: put_response_def res_simps)
  then have "puts r g g1" "puts r g1 g2" "puts r g2 g3" "puts r g3 g'"
    using put_status_puts put_headers_puts puts_more [OF put_items] by simp_all
  then show ?thesis using puts_trans by blast
qed

lemma answer_result_puts:
  assumes "answer_result r ob g = Inr g'"
  shows "puts r g g'"
proof -
  obtain v where "m_lookup ob ''result'' = Inr v" using assms by (auto simp only: answer_result_def rbind_Inr_iff)
  with assms put_response_puts show ?thesis
    by (auto simp: answer_result_def simp del: m_lookup.simps
        split: option.splits lookup_val.splits mobj.splits list.splits)
qed

lemma answer_request_puts:
  assumes "answer_request r ob g = Inr g'"
  shows "puts r g g'"
proof -
  have e: "puts r g1 g2" if "answer_exception r ob g1 = Inr g2" for g1 g2
    using that by (auto simp: answer_exception_def res_simps simp del: m_lookup.simps)
  obtain v where v: "m_lookup ob ''command'' = Inr v" using assms by (auto simp only: answer_request_def rbind_Inr_iff)
  show ?thesis
  proof (cases v)
    case None
    with assms v show ?thesis by (auto simp: answer_request_def res_simps simp del: m_lookup.simps)
  next
    case (Some d)
    then obtain c g1 where "(if c = ''result'' then answer_result r ob g else Inr g) = Inr g1"
      "(if c = ''exception'' then answer_exception r ob g1 else Inr g1) = Inr g'"
      using assms v by (auto simp: answer_request_def rbind_Inr_iff simp del: m_lookup.simps)
    then have "puts r g g1" "puts r g1 g'" using answer_result_puts e by (auto split: if_splits)
    then show ?thesis by (rule puts_trans)
  qed
qed

section \<open>The text of a response\<close>

lemma show_nat_length: "n < 10 ^ k \<Longrightarrow> 0 < k \<Longrightarrow> length (show_nat n) \<le> k"
proof (induction n arbitrary: k rule: show_nat.induct)
  case (1 n)
  show ?case
  proof (cases "n < 10")
    case True
    with 1(3) show ?thesis by (simp add: show_nat.simps [of n])
  next
    case False
    then obtain j where k: "k = Suc j" "0 < j" using 1(2,3) by (cases k; cases "k = 1") auto
    then have "n div 10 < 10 ^ j" using 1(2) by (simp add: div_less_iff_less_mult mult.commute)
    with 1(1) False k show ?thesis by (simp add: show_nat.simps [of n])
  qed
qed

lemma status_line_returns:
  "int_range code \<Longrightarrow> length text \<le> 21 \<Longrightarrow> status_line code text = Inr (''Status: '' @ show_int code @ '' '' @ text @ CRLF)"
proof -
  assume "int_range code" and t: "length text \<le> 21"
  then have "nat (abs code) < 10 ^ 10" by (auto simp: int_range_def nat_less_iff abs_if)
  from show_nat_length [OF this] have "length (show_nat (nat (abs code))) \<le> 10" by simp
  then have "length (show_int code) \<le> 11" by (cases "code < 0") (auto simp: show_int_def)
  with t show ?thesis by (simp add: status_line_def sprintf_buf_def CRLF_def)
qed

lemma int_of_u64_range: "int_range (int_of_u64 u)"
  using sint_range_size [of "ucast u :: i32"] by (simp add: int_of_u64_def int_range_def word_size)

lemma put_headers_pairs:
  "put_headers r (concat (map (\<lambda>(n, v). [MRaw n, MRaw v]) hs)) g =
   Inr (reply (concat (map (\<lambda>(n, v). [Put r n, Put r '':'', Put r v, Put r CRLF]) hs)) g)"
  by (induction hs arbitrary: g) (auto simp: put_raw_def)

lemma put_items_raw: "rfold (put_raw r) (map MRaw xs) g = Inr (reply (map (Put r) xs) g)"
  by (induction xs arbitrary: g) (auto simp: put_raw_def)

lemma written_headers:
  "written r (concat (map (\<lambda>(n, v). [Put r n, Put r '':'', Put r v, Put r CRLF]) hs)) =
   concat (map (\<lambda>(n, v). n @ '':'' @ v @ CRLF) hs)"
  by (induction hs) auto

lemma written_items: "written r (map (Put r) xs) = concat xs"
  by (induction xs) auto

lemma status_string_length: "length (status_string code) \<le> 21"
  by (simp add: status_string_def)

lemma put_response_text:
  "\<exists>es. put_response r (MPos u) (MArr (concat (map (\<lambda>(n, v). [MRaw n, MRaw v]) hs))) (MArr (map MRaw items)) g = Inr (reply es g) \<and>
     written r es = ''Status: '' @ show_int (int_of_u64 u) @ '' '' @ status_string (int_of_u64 u) @ CRLF @
       concat (map (\<lambda>(n, v). n @ '':'' @ v @ CRLF) hs) @ CRLF @ concat items @ CRLF"
  by (rule exI [of _ "[Put r (''Status: '' @ show_int (int_of_u64 u) @ '' '' @ status_string (int_of_u64 u) @ CRLF)] @
      concat (map (\<lambda>(n, v). [Put r n, Put r '':'', Put r v, Put r CRLF]) hs) @ [Put r CRLF] @ map (Put r) items @ [Put r CRLF]"])
    (simp add: put_response_def put_status_def Let_def status_line_returns int_of_u64_range status_string_length
      array_items_def put_headers_pairs put_items_raw written_headers written_items)

section \<open>Exceptions of the broker\<close>

text \<open>A result with a code, headers and a payload, from the unpacked message to the finished request.\<close>

lemma result_response:
  assumes "unpack payload = Some ob" and "m_lookup ob ''actionid'' = Inr (Some (LStr aid))"
    and "m_lookup ob ''command'' = Inr (Some (LStr ''result''))"
    and "m_lookup ob ''result'' = Inr (Some (LObj (MArr [MPos u, MArr (concat (map (\<lambda>(n, v). [MRaw n, MRaw v]) hs)), MArr (map MRaw items)])))"
    and "zh_lookup aid (rq_list g) = Some r"
  shows "\<exists>es. zmq_event unpack (payload # rest) g = Inr (g\<lparr>gw_out := gw_out g @ es @ [Finish r], rq_list := zh_delete aid (rq_list g)\<rparr>) \<and>
    written r es = ''Status: '' @ show_int (int_of_u64 u) @ '' '' @ status_string (int_of_u64 u) @ CRLF @
      concat (map (\<lambda>(n, v). n @ '':'' @ v @ CRLF) hs) @ CRLF @ concat items @ CRLF"
proof -
  obtain es where es: "put_response r (MPos u) (MArr (concat (map (\<lambda>(n, v). [MRaw n, MRaw v]) hs))) (MArr (map MRaw items)) g = Inr (reply es g)"
    and w: "written r es = ''Status: '' @ show_int (int_of_u64 u) @ '' '' @ status_string (int_of_u64 u) @ CRLF @
      concat (map (\<lambda>(n, v). n @ '':'' @ v @ CRLF) hs) @ CRLF @ concat items @ CRLF"
    using put_response_text by blast
  have "answer_request r ob g = Inr (reply es g)"
    using assms(3,4) es by (simp add: answer_request_def answer_result_def lookup_str_def del: m_lookup.simps)
  then have "zmq_event unpack (payload # rest) g =
      Inr (g\<lparr>gw_out := gw_out g @ es @ [Finish r], rq_list := zh_delete aid (rq_list g)\<rparr>)"
    using assms(1,2,5) by (simp add: zmq_event_def lookup_str_def reply_def del: m_lookup.simps)
  with w show ?thesis by blast
qed

lemma exception_lookups:
  assumes "message_exception (Some aid) txt code = Some ob" and "is_cstr aid" and "is_cstr txt"
  shows "m_lookup ob ''actionid'' = Inr (Some (LStr aid))" "m_lookup ob ''command'' = Inr (Some (LStr ''exception''))"
    "m_lookup ob ''string'' = Inr (Some (LStr txt))"
proof -
  have ob: "ob = MMap [(MRaw ''command'', MRaw ''exception''),
      (MRaw ''body'', MMap [(MRaw ''string'', MRaw txt), (MRaw ''exception'', mint code)]),
      (MRaw ''actionid'', MRaw aid)]"
    using assms(1) by (simp add: message_exception_def)
  show "m_lookup ob ''actionid'' = Inr (Some (LStr aid))" "m_lookup ob ''command'' = Inr (Some (LStr ''exception''))"
    "m_lookup ob ''string'' = Inr (Some (LStr txt))"
    using assms(2,3) by (simp_all add: ob key_prefix_def memcmp_key_def mint_def)
qed

section \<open>Every request is finished at most once\<close>

fun target :: "gw_effect \<Rightarrow> nat option" where
  "target (Put r s) = Some r"
| "target (Finish r) = Some r"
| "target (Call_Out ob) = None"

text \<open>Nothing is done to a request after it was finished.\<close>

definition orderly :: "gw_effect list \<Rightarrow> bool" where
  "orderly es \<longleftrightarrow> (\<forall>pre r post. es = pre @ Finish r # post \<longrightarrow> (\<forall>e \<in> set post. target e \<noteq> Some r))"

lemma orderly_append:
  assumes "orderly es" and "\<forall>e \<in> set es'. \<forall>r. target e = Some r \<longrightarrow> Finish r \<notin> set es" and "orderly es'"
  shows "orderly (es @ es')"
  unfolding orderly_def
proof (intro allI impI)
  fix pre r post
  assume eq: "es @ es' = pre @ Finish r # post"
  then consider us where "es = pre @ us" "us @ es' = Finish r # post" | us where "es @ us = pre" "es' = us @ Finish r # post"
    by (auto simp: append_eq_append_conv2)
  then show "\<forall>e \<in> set post. target e \<noteq> Some r"
  proof cases
    case 1
    show ?thesis
    proof (cases us)
      case Nil
      with 1 have "es' = [] @ Finish r # post" by simp
      with assms(3) show ?thesis unfolding orderly_def by blast
    next
      case (Cons u us')
      with 1 have "es = pre @ Finish r # us'" "post = us' @ es'" by simp_all
      with assms(1,2) show ?thesis unfolding orderly_def by (metis Un_iff in_set_conv_decomp set_append)
    qed
  next
    case 2
    with assms(3) show ?thesis unfolding orderly_def by blast
  qed
qed

lemma orderly_puts: "\<forall>e \<in> set es. \<exists>s. e = Put r s \<Longrightarrow> orderly (es @ [Finish r])"
  unfolding orderly_def by (auto simp: append_eq_append_conv2 append_eq_Cons_conv Cons_eq_append_conv) 

definition gw_ok :: "gateway \<Rightarrow> bool" where
  "gw_ok g \<longleftrightarrow> zh_wf (rq_list g) \<and> orderly (gw_out g) \<and> (\<forall>e \<in> set (gw_out g). \<forall>r. target e = Some r \<longrightarrow> r < gw_next g) \<and>
     (\<forall>k r. zh_lookup k (rq_list g) = Some r \<longrightarrow> r < gw_next g \<and> Finish r \<notin> set (gw_out g)) \<and>
     (\<forall>k k' r. zh_lookup k (rq_list g) = Some r \<longrightarrow> zh_lookup k' (rq_list g) = Some r \<longrightarrow> k = k')"

text \<open>What an event of the reactor does.\<close>

lemma upstream_event_cases:
  assumes "upstream_event aid u g = Inr g'"
  obtains es rqs where "g' = g\<lparr>gw_next := Suc (gw_next g), gw_out := gw_out g @ es, rq_list := rqs\<rparr>"
    and "orderly es" and "\<forall>e \<in> set es. \<forall>r. target e = Some r \<longrightarrow> r = gw_next g"
    and "rqs = rq_list g \<or> rqs = zh_insert aid (gw_next g) (rq_list g) \<and> (\<forall>e \<in> set es. target e = None)"
proof -
  note main = that
  have stay: thesis if "g' = g\<lparr>gw_next := Suc (gw_next g), gw_out := gw_out g @ es\<rparr>"
      "orderly es" "\<forall>e \<in> set es. \<forall>r. target e = Some r \<longrightarrow> r = gw_next g" for es
    using main [of "rq_list g" es] that by simp
  have ord: "orderly [Finish r]" "orderly []" "orderly [Put r s, Finish r]" "orderly [Call_Out ob]" for r s ob
    using orderly_puts [of "[]" r] orderly_puts [of "[Put r s]" r]
    by (auto simp: orderly_def append_eq_Cons_conv Cons_eq_append_conv)
  note d = stay [of "[]"] stay [of "[Finish (gw_next g)]"] stay [of "[Put (gw_next g) http_400, Finish (gw_next g)]"]
  show thesis
  proof (cases "up_init u \<and> up_accept u \<and> up_uri u \<noteq> None")
    case False
    with assms d ord show ?thesis
      by (auto simp: upstream_event_def Let_def reply_def split: if_splits option.splits)
  next
    case True
    then obtain c path where uri: "up_uri u = Some (c # path)"
      using assms by (auto simp: upstream_event_def Let_def split: list.splits)
    show ?thesis
    proof (cases "\<exists>command md func version more. strtok_all (CHR ''/'') path = command # md # func # version # more")
      case False
      then have "upstream_event aid u g = Inr (reply [Put (gw_next g) http_400, Finish (gw_next g)] (g\<lparr>gw_next := Suc (gw_next g)\<rparr>))"
        using True uri by (auto simp: upstream_event_def Let_def split: list.split)
      with assms d(3) ord show ?thesis by (simp add: reply_def)
    next
      case t: True
      then obtain command md func version more where
        tok: "strtok_all (CHR ''/'') path = command # md # func # version # more" by blast
      let ?g = "g\<lparr>gw_next := Suc (gw_next g)\<rparr>"
      have "rbind (atoi version) (\<lambda>ver. rbind (pack_params (up_envp u)) (\<lambda>params.
          if up_sent u then Inr ((reply [Call_Out (call_request command md func ver params aid)] ?g)
            \<lparr>rq_list := zh_insert aid (gw_next g) (rq_list ?g)\<rparr>) else Inr ?g)) = Inr g'"
        using assms True uri tok by (simp add: upstream_event_def Let_def)
      then obtain ver params where
        g': "(if up_sent u then Inr ((reply [Call_Out (call_request command md func ver params aid)] ?g)
            \<lparr>rq_list := zh_insert aid (gw_next g) (rq_list ?g)\<rparr>) else Inr ?g) = (Inr g' :: gateway res)"
        unfolding rbind_Inr_iff by blast
      show ?thesis
      proof (cases "up_sent u")
        case True
        with g' ord show ?thesis
          by (intro main [of "zh_insert aid (gw_next g) (rq_list g)" "[Call_Out (call_request command md func ver params aid)]"])
            (simp_all add: reply_def)
      next
        case False
        with g' have "g' = g\<lparr>gw_next := Suc (gw_next g), gw_out := gw_out g @ []\<rparr>" by auto
        then show ?thesis by (rule d(1)) (use ord in simp_all)
      qed
    qed
  qed
qed

lemma zmq_event_cases:
  assumes "zmq_event unpack msg g = Inr g'"
  obtains "g' = g" | aid r es where "zh_lookup aid (rq_list g) = Some r" "\<forall>e \<in> set es. \<exists>s. e = Put r s"
    "g' = g\<lparr>gw_out := gw_out g @ es @ [Finish r], rq_list := zh_delete aid (rq_list g)\<rparr>"
proof -
  obtain payload rest where msg: "msg = payload # rest"
    using assms by (cases msg) (auto simp: zmq_event_def)
  show thesis
  proof (cases "unpack payload")
    case None
    with assms msg that(1) show ?thesis by (simp add: zmq_event_def)
  next
    case (Some ob)
    then obtain v where v: "m_lookup ob ''actionid'' = Inr v"
      using assms msg by (auto simp: zmq_event_def rbind_Inr_iff simp del: m_lookup.simps)
    show ?thesis
    proof (cases v)
      case None
      with assms msg Some v that(1) show ?thesis by (simp add: zmq_event_def del: m_lookup.simps)
    next
      case d: (Some d)
      then obtain aid where aid: "lookup_str d = Inr aid"
        using assms msg Some v by (auto simp: zmq_event_def rbind_Inr_iff simp del: m_lookup.simps)
      show ?thesis
      proof (cases "zh_lookup aid (rq_list g)")
        case None
        with assms msg Some v d aid that(1) show ?thesis by (simp add: zmq_event_def del: m_lookup.simps)
      next
        case r: (Some r)
        then obtain g1 where g1: "answer_request r ob g = Inr g1"
          and g': "g' = (reply [Finish r] g1)\<lparr>rq_list := zh_delete aid (rq_list g1)\<rparr>"
          using assms msg Some v d aid by (auto simp: zmq_event_def rbind_Inr_iff simp del: m_lookup.simps)
        obtain es where "g1 = reply es g" "\<forall>e \<in> set es. \<exists>s. e = Put r s"
          using answer_request_puts [OF g1] unfolding puts_def by blast
        with g' r that(2) show ?thesis by (simp add: reply_def)
      qed
    qed
  qed
qed

lemma upstream_event_ok: "gw_ok g \<Longrightarrow> upstream_event aid u g = Inr g' \<Longrightarrow> gw_ok g'"
proof (erule upstream_event_cases)
  fix es rqs
  assume ok: "gw_ok g" and g': "g' = g\<lparr>gw_next := Suc (gw_next g), gw_out := gw_out g @ es, rq_list := rqs\<rparr>"
    and es: "orderly es" "\<forall>e \<in> set es. \<forall>r. target e = Some r \<longrightarrow> r = gw_next g"
    and rqs: "rqs = rq_list g \<or> rqs = zh_insert aid (gw_next g) (rq_list g) \<and> (\<forall>e \<in> set es. target e = None)"
  have "Finish r \<in> set (gw_out g) \<Longrightarrow> r < gw_next g" for r using ok unfolding gw_ok_def by force
  then have "orderly (gw_out g @ es)"
    using orderly_append [OF _ _ es(1)] ok es(2) unfolding gw_ok_def by fastforce
  moreover have "Finish r \<in> set es \<Longrightarrow> r = gw_next g \<and> rqs = rq_list g" for r
    using es(2) rqs by force
  moreover have "zh_lookup k (rq_list g) \<noteq> Some (gw_next g)" for k using ok unfolding gw_ok_def by force
  ultimately show "gw_ok g'"
    using ok es(2) rqs \<open>\<And>r. Finish r \<in> set (gw_out g) \<Longrightarrow> r < gw_next g\<close> unfolding gw_ok_def g'
    by (auto simp: zh_wf_insert zh_lookup_insert less_Suc_eq split: if_splits)
qed

lemma zmq_event_ok: "gw_ok g \<Longrightarrow> zmq_event unpack msg g = Inr g' \<Longrightarrow> gw_ok g'"
proof (erule zmq_event_cases)
  fix aid r es
  assume ok: "gw_ok g" and r: "zh_lookup aid (rq_list g) = Some r" and es: "\<forall>e \<in> set es. \<exists>s. e = Put r s"
    and g': "g' = g\<lparr>gw_out := gw_out g @ es @ [Finish r], rq_list := zh_delete aid (rq_list g)\<rparr>"
  have "Finish r \<notin> set (gw_out g)" "r < gw_next g" using ok r unfolding gw_ok_def by blast+
  moreover have t: "target e = Some r' \<Longrightarrow> e \<in> set (es @ [Finish r]) \<Longrightarrow> r' = r" for e r' using es by auto
  ultimately have "orderly (gw_out g @ es @ [Finish r])"
    using orderly_append [OF _ _ orderly_puts [OF es]] ok unfolding gw_ok_def by blast
  moreover have "Finish r' \<in> set es \<Longrightarrow> False" for r' using es by auto
  ultimately show "gw_ok g'"
    using ok r t \<open>r < gw_next g\<close> es unfolding gw_ok_def g'
    by (auto simp: zh_wf_delete zh_lookup_delete split: if_splits)
qed simp

lemma introduce_ok: "introduce unpack pid aid resp gateway_new = Inr (0, g) \<Longrightarrow> gw_ok g"
proof -
  assume "introduce unpack pid aid resp gateway_new = Inr (0, g)"
  then obtain ob where "g = reply [Call_Out ob] gateway_new"
    by (auto simp: introduce_def Let_def res_simps split: option.splits list.splits)
  then show ?thesis by (simp add: gw_ok_def gateway_new_def reply_def orderly_def Cons_eq_append_conv zh_wf_def zh_keys_def)
qed

lemma gw_reach_ok: "gw_reach unpack g \<Longrightarrow> gw_ok g"
proof (induction rule: gw_reach.induct)
  case (start pid aid resp g)
  then show ?case by (rule introduce_ok)
next
  case (event g ev g')
  show ?case
  proof (cases ev)
    case (Upstream_In aid u)
    with event show ?thesis using upstream_event_ok [of g aid u g'] by (simp add: gw_handle_def)
  next
    case (Zmq_In msg)
    with event show ?thesis using zmq_event_ok [of g unpack msg g'] by (simp add: gw_handle_def)
  qed
next
  case (rehash g rqs)
  then have eq: "zh_lookup k rqs = zh_lookup k (rq_list g)" for k
    using zh_same_lookup unfolding gw_ok_def by blast
  have f: "rq_list (g\<lparr>rq_list := rqs\<rparr>) = rqs" "gw_out (g\<lparr>rq_list := rqs\<rparr>) = gw_out g"
    "gw_next (g\<lparr>rq_list := rqs\<rparr>) = gw_next g" by simp_all
  have "zh_wf rqs" using rehash.hyps(2) by (simp add: zh_same_def)
  with rehash.IH show ?case unfolding gw_ok_def f eq by blast
qed

section \<open>The program\<close>

lemma gw_reach_events: "gw_reach unpack g \<Longrightarrow> rfold (gw_handle unpack) events g = Inr g' \<Longrightarrow> gw_reach unpack g'"
  by (induction events arbitrary: g) (auto simp: res_simps intro: gw_reach.event)

lemma gw_main_reach:
  assumes "gw_main argv connected socketId unpack pid actionid resp events = Inr (0, g)"
  shows "gw_reach unpack g" "length argv = 2" "0 \<le> socketId"
proof -
  obtain g0 where g0: "introduce unpack pid actionid resp gateway_new = Inr (0, g0)" "rfold (gw_handle unpack) events g0 = Inr g"
    using assms by (auto simp: gw_main_def res_simps split: if_splits)
  from gw_reach_events [OF gw_reach.start [OF g0(1)] g0(2)] show "gw_reach unpack g" .
  show "length argv = 2" "0 \<le> socketId"
    using assms by (auto simp: gw_main_def fcgi_init_def split: if_splits)
qed

end
