(* ===== verification/Relay.thy ===== *)
theory Relay
  imports FastCGI_Facts Replies
begin

text \<open>
  The FastCGI module and the broker together: two event systems that share the messages on the
  socket between them, which are kept in order in one buffer per direction. The module is known to
  the broker by the frame \<open>fr\<close> that the router socket puts before its messages. A frame that
  arrives unpacks to the object that was packed. The last lemmas say that no HTTP request for
  which a call was sent is lost between the two.
\<close>

section \<open>State\<close>

record relay =
  ry_gate :: gateway
  ry_broker :: proxy
  ry_up :: "mobj list"
  ry_down :: "mobj list"

fun calls_out :: "gw_effect list \<Rightarrow> mobj list" where
  "calls_out [] = []"
| "calls_out (Call_Out ob # es) = ob # calls_out es"
| "calls_out (e # es) = calls_out es"

fun sent_to :: "string \<Rightarrow> effect list \<Rightarrow> mobj list" where
  "sent_to fr [] = []"
| "sent_to fr (To_Local f ob # es) = (if f = fr then [ob] else []) @ sent_to fr es"
| "sent_to fr (e # es) = sent_to fr es"

text \<open>What is new in a list that has grown.\<close>

definition fresh_part :: "'a list \<Rightarrow> 'a list \<Rightarrow> 'a list" where
  "fresh_part xs ys = drop (length xs) ys"

definition gate_step :: "gateway \<Rightarrow> relay \<Rightarrow> relay" where
  "gate_step g s = s\<lparr>ry_gate := g, ry_up := ry_up s @ calls_out (fresh_part (gw_out (ry_gate s)) (gw_out g))\<rparr>"

definition broker_step :: "string \<Rightarrow> proxy \<Rightarrow> relay \<Rightarrow> relay" where
  "broker_step fr p s =
     s\<lparr>ry_broker := p, ry_down := ry_down s @ sent_to fr (fresh_part (px_out (ry_broker s)) (px_out p))\<rparr>"

section \<open>What the two rely on\<close>

text \<open>The action id of an object that the broker reads as a call.\<close>

definition call_id :: "mobj \<Rightarrow> string option" where
  "call_id ob =
     (if message_check_command ob = Inr (Some ''call'')
      then (case message_check_actionid ob of Inr a \<Rightarrow> a | Inl e \<Rightarrow> None) else None)"

definition call_ids :: "mobj list \<Rightarrow> string list" where
  "call_ids obs = List.map_filter call_id obs"

text \<open>The id is new, and no parameter of the request takes its place in the message.\<close>

definition fresh_request :: "string \<Rightarrow> gateway \<Rightarrow> relay \<Rightarrow> bool" where
  "fresh_request aid g s \<longleftrightarrow> aid \<notin> set (call_ids (calls_out (gw_out (ry_gate s)))) \<and>
     zh_lookup aid (px_queue (ry_broker s)) = None \<and>
     set (call_ids (calls_out (fresh_part (gw_out (ry_gate s)) (gw_out g)))) \<subseteq> {aid}"

text \<open>The module finds the action id of an answer where the broker found it.\<close>

definition plain :: "string \<Rightarrow> mobj \<Rightarrow> bool" where
  "plain aid ob \<longleftrightarrow> (is_cstr aid \<longrightarrow> m_lookup ob ''actionid'' = Inr (Some (LStr aid)))"

definition plain_answer :: "message \<Rightarrow> bool" where
  "plain_answer m \<longleftrightarrow>
     (msg_command m \<in> {Some ''result'', Some ''exception''} \<longrightarrow> plain (msg_actionid m) (msg_object m))"

definition no_clash :: "string set \<Rightarrow> message \<Rightarrow> bool" where
  "no_clash K m \<longleftrightarrow> (msg_command m = Some ''call'' \<longrightarrow> msg_actionid m \<notin> K)"

section \<open>Steps\<close>

inductive relay_reach :: "world \<Rightarrow> string \<Rightarrow> relay \<Rightarrow> bool" for W fr where
  start: "reach W p \<Longrightarrow> introduce (wo_unpack W) pid aid resp gateway_new = Inr (0, g) \<Longrightarrow>
    relay_reach W fr \<lparr>ry_gate = g, ry_broker = p, ry_up = [], ry_down = []\<rparr>"
| request: "relay_reach W fr s \<Longrightarrow> upstream_event aid u (ry_gate s) = Inr g \<Longrightarrow> fresh_request aid g s \<Longrightarrow>
    relay_reach W fr (gate_step g s)"
| deliver: "relay_reach W fr s \<Longrightarrow> ry_up s = ob # rest \<Longrightarrow> wo_unpack W payload = Some ob \<Longrightarrow> payload \<noteq> [] \<Longrightarrow>
    admissible W E (Local_In [fr, payload] answer) (ry_broker s) \<Longrightarrow>
    (\<And>m. received W E (Local_In [fr, payload] answer) = Some m \<Longrightarrow> plain_answer m) \<Longrightarrow>
    handle W E (Local_In [fr, payload] answer) (ry_broker s) = Inr p \<Longrightarrow>
    relay_reach W fr (broker_step fr p (s\<lparr>ry_up := rest\<rparr>))"
| elsewhere: "relay_reach W fr s \<Longrightarrow> admissible W E ev (ry_broker s) \<Longrightarrow>
    (\<And>m. received W E ev = Some m \<Longrightarrow> plain_answer m \<and> no_clash (set (call_ids (ry_up s))) m) \<Longrightarrow>
    handle W E ev (ry_broker s) = Inr p \<Longrightarrow> relay_reach W fr (broker_step fr p s)"
| response: "relay_reach W fr s \<Longrightarrow> ry_down s = ob # rest \<Longrightarrow> wo_unpack W payload = Some ob \<Longrightarrow>
    zmq_event (wo_unpack W) [payload] (ry_gate s) = Inr g \<Longrightarrow>
    relay_reach W fr (gate_step g (s\<lparr>ry_down := rest\<rparr>))"
| rehash: "relay_reach W fr s \<Longrightarrow> zh_same (px_fabs (ry_broker s)) fabs \<Longrightarrow>
    zh_same (px_modules (ry_broker s)) mods \<Longrightarrow> zh_same (px_queue (ry_broker s)) queue \<Longrightarrow>
    zh_same (rq_list (ry_gate s)) rqs \<Longrightarrow>
    relay_reach W fr (s\<lparr>ry_gate := (ry_gate s)\<lparr>rq_list := rqs\<rparr>,
      ry_broker := (ry_broker s)\<lparr>px_fabs := fabs, px_modules := mods, px_queue := queue\<rparr>\<rparr>)"

section \<open>Lists of messages\<close>

lemma calls_out_append [simp]: "calls_out (xs @ ys) = calls_out xs @ calls_out ys"
  by (induction xs rule: calls_out.induct) auto

lemma sent_to_append [simp]: "sent_to fr (xs @ ys) = sent_to fr xs @ sent_to fr ys"
  by (induction fr xs rule: sent_to.induct) auto

lemma call_ids_simps [simp]:
  "call_ids [] = []" "call_ids (xs @ ys) = call_ids xs @ call_ids ys"
  "call_ids (ob # obs) = (case call_id ob of None \<Rightarrow> call_ids obs | Some a \<Rightarrow> a # call_ids obs)"
  by (simp_all add: call_ids_def List.map_filter_def split: option.splits)

lemma fresh_part_append [simp]: "fresh_part xs (xs @ ys) = ys"
  by (simp add: fresh_part_def)

lemma puts_no_calls: "\<forall>e \<in> set es. \<exists>s. e = Put r s \<Longrightarrow> calls_out es = []"
  by (induction es rule: calls_out.induct) auto

text \<open>An action id is a string without NUL.\<close>

lemma m_get_str_cstr:
  "m_get_str ob key = Inr (Some s) \<Longrightarrow> is_cstr s"
  "m_get_str_kvs kvs key = Inr (Some s) \<Longrightarrow> is_cstr s"
proof (induction ob key and kvs key rule: m_get_str_m_get_str_kvs.induct)
  case (3 k v kvs key)
  then show ?case
    by (cases v; cases "m_get_str v key") (auto simp: res_simps simp del: m_get_str.simps split: option.splits if_splits)
qed (auto split: mobj.splits)

lemma call_id_Some:
  assumes "call_id ob = Some aid"
  shows "message_check_command ob = Inr (Some ''call'')" "message_check_actionid ob = Inr (Some aid)"
    "is_map ob" "is_cstr aid"
proof -
  show c: "message_check_command ob = Inr (Some ''call'')" and a: "message_check_actionid ob = Inr (Some aid)"
    using assms by (auto simp: call_id_def split: if_splits sum.splits)
  show "is_map ob"
    using c by (cases ob) (auto simp: message_check_command_def m_get_string_def is_map_def)
  show "is_cstr aid"
    using a m_get_str_cstr(1) [of ob] by (auto simp: message_check_actionid_def m_get_string_def res_simps split: option.splits if_splits)
qed

section \<open>The invariant\<close>

definition gateway_frame :: "world \<Rightarrow> string \<Rightarrow> bool" where
  "gateway_frame W fr \<longleftrightarrow> length fr = 5 \<and> wo_strhex W fr = concat (map show_hex_byte fr)"

text \<open>Where the call \<open>aid\<close> is: on its way to the broker, in its queue, or its answer is on the way back.\<close>

definition queued_for :: "world \<Rightarrow> string \<Rightarrow> string \<Rightarrow> proxy \<Rightarrow> bool" where
  "queued_for W fr aid p \<longleftrightarrow>
     (\<exists>m. zh_lookup aid (px_queue p) = Some m \<and> msg_local m \<and> msg_identity m = wo_strhex W fr \<and> msg_actionid m = aid)"

definition located :: "world \<Rightarrow> string \<Rightarrow> string \<Rightarrow> relay \<Rightarrow> bool" where
  "located W fr aid s \<longleftrightarrow> aid \<in> set (call_ids (ry_up s)) \<or> queued_for W fr aid (ry_broker s) \<or>
     (\<exists>ob \<in> set (ry_down s). plain aid ob)"

definition relay_ok :: "world \<Rightarrow> string \<Rightarrow> relay \<Rightarrow> bool" where
  "relay_ok W fr s \<longleftrightarrow> reach W (ry_broker s) \<and> distinct (call_ids (ry_up s)) \<and>
     (\<forall>aid \<in> set (call_ids (ry_up s)). zh_lookup aid (px_queue (ry_broker s)) = None) \<and>
     set (call_ids (ry_up s)) \<subseteq> set (call_ids (calls_out (gw_out (ry_gate s)))) \<and>
     (\<forall>aid \<in> set (call_ids (calls_out (gw_out (ry_gate s)))).
        zh_lookup aid (rq_list (ry_gate s)) = None \<or> located W fr aid s)"

lemma plain_admits: "admits_exceptions plain"
  unfolding admits_exceptions_def plain_def exception_for_def using exception_lookups(1) by blast

text \<open>What a step of the broker does to the calls of the gateway.\<close>

lemma answered_sent:
  assumes "gateway_frame W fr" and "msg_identity m = wo_strhex W fr" and "answered_with ob m p p'"
  shows "ob \<in> set (sent_to fr (fresh_part (px_out p) (px_out p')))"
proof -
  obtain pre es post where out: "px_out p' = px_out p @ pre @ es @ post" and es: "sends ob (msg_identity m) es"
    using assms(3) by (auto simp: sent_between_def)
  have "es = [To_Local fr ob]"
    using es assms(1,2) hex_bytes_show [of fr] by (auto simp: gateway_frame_def sends_def show_hex_length)
  then show ?thesis by (simp add: out)
qed

lemma broker_step_located:
  assumes fr: "gateway_frame W fr" and prog: "progress plain K (ry_broker s) p"
    and loc: "located W fr aid s"
  shows "located W fr aid (broker_step fr p s)"
proof -
  consider "aid \<in> set (call_ids (ry_up s))" | "\<exists>ob \<in> set (ry_down s). plain aid ob"
    | m where "zh_lookup aid (px_queue (ry_broker s)) = Some m" "msg_local m" "msg_identity m = wo_strhex W fr"
        "msg_actionid m = aid"
    using loc by (auto simp: located_def queued_for_def)
  then show ?thesis
  proof cases
    case 3
    then have "kept_or_answered plain (ry_broker s) p aid m"
      using prog by (auto simp: progress_def)
    then show ?thesis
      unfolding kept_or_answered_def
    proof
      assume "\<exists>m'. zh_lookup aid (px_queue p) = Some m' \<and> same_caller m m'"
      with 3 show ?thesis by (auto simp: located_def queued_for_def broker_step_def same_caller_def)
    next
      assume "\<exists>ob. plain (msg_actionid m) ob \<and> answered_with ob m (ry_broker s) p"
      with 3 answered_sent [OF fr 3(3)] show ?thesis
        by (auto simp: located_def broker_step_def)
    qed
  qed (auto simp: located_def broker_step_def)
qed

text \<open>A call that arrives is queued or answered.\<close>

lemma delivered_call:
  assumes fr: "gateway_frame W fr" and id: "call_id ob = Some aid" and payload: "wo_unpack W payload = Some ob" "payload \<noteq> []"
    and new: "zh_lookup aid (px_queue p) = None" and run: "handle W E (Local_In [fr, payload] answer) p = Inr p'"
  shows "queued_for W fr aid p' \<or> (\<exists>ob \<in> set (sent_to fr (fresh_part (px_out p) (px_out p'))). plain aid ob)"
proof -
  note c = call_id_Some [OF id]
  let ?m = "accepted (wo_strhex W) (ev_now E) True fr ob ''call'' aid"
  have "message_fromzmq (wo_strhex W) (wo_unpack W) (ev_now E) [fr, payload] True = Inr (Some ?m)"
    using message_fromzmq_two [where unpack = "wo_unpack W", OF payload(1) c(3) payload(2)] c(1,2) by simp
  then have "process_call E ?m p = Inr p'"
    using run by (simp add: handle_def s_local_event_def process_command_def accepted_def)
  moreover have m: "msg_actionid ?m = aid" "msg_local ?m" "msg_identity ?m = wo_strhex W fr"
    by (simp_all add: accepted_def message_new_def)
  ultimately have "kept_or_answered plain p p' aid ?m"
    using process_call_handles [of E ?m p p' plain] new plain_admits by simp
  then show ?thesis
    unfolding kept_or_answered_def queued_for_def
    using answered_sent [OF fr m(3)] m by (auto simp: same_caller_def)
qed

section \<open>Every step keeps the invariant\<close>

lemma upstream_event_out:
  assumes "upstream_event aid u g = Inr g'"
  shows "\<exists>es. gw_out g' = gw_out g @ es \<and> length (calls_out es) \<le> 1"
    "\<And>k. k \<noteq> aid \<Longrightarrow> zh_lookup k (rq_list g') = zh_lookup k (rq_list g)"
  using assms
  by (auto simp: upstream_event_def Let_def res_simps zh_lookup_insert reply_def split: if_splits option.splits list.splits)

lemma request_ok:
  assumes ok: "relay_ok W fr s" and run: "upstream_event aid u (ry_gate s) = Inr g" and fresh: "fresh_request aid g s"
  shows "relay_ok W fr (gate_step g s)"
proof -
  obtain es where es: "gw_out g = gw_out (ry_gate s) @ es" "length (calls_out es) \<le> 1"
    using upstream_event_out(1) [OF run] by blast
  have sub: "set (call_ids (calls_out es)) \<subseteq> {aid}" and new: "aid \<notin> set (call_ids (calls_out (gw_out (ry_gate s))))"
    and free: "zh_lookup aid (px_queue (ry_broker s)) = None"
    using fresh by (simp_all add: fresh_request_def es)
  have "distinct (call_ids (calls_out es))"
    using es(2) by (cases "calls_out es") (auto split: option.splits)
  moreover have "\<forall>k \<in> set (call_ids (calls_out (gw_out (ry_gate s)))).
      zh_lookup k (rq_list g) = zh_lookup k (rq_list (ry_gate s))"
    using upstream_event_out(2) [OF run] new by metis
  ultimately show ?thesis
    using ok es sub new free unfolding relay_ok_def located_def gate_step_def by (auto 0 3)
qed

lemma broker_step_ok:
  assumes fr: "gateway_frame W fr" and ok: "relay_ok W fr s" and adm: "admissible W E ev (ry_broker s)"
    and run: "handle W E ev (ry_broker s) = Inr p" and s': "s' = s\<lparr>ry_up := ups\<rparr>"
    and exp: "\<And>m. received W E ev = Some m \<Longrightarrow> expected plain (set (call_ids ups)) m"
    and ups: "distinct (call_ids ups)" "set (call_ids ups) \<subseteq> set (call_ids (ry_up s))"
    and gone: "\<And>aid. aid \<in> set (call_ids (ry_up s)) \<Longrightarrow> aid \<notin> set (call_ids ups) \<Longrightarrow>
      located W fr aid (broker_step fr p s')"
  shows "relay_ok W fr (broker_step fr p s')"
proof -
  have r: "reach W (ry_broker s)" using ok by (simp add: relay_ok_def)
  then have "router_inv (ry_broker s)" using reach_ok by blast
  from handle_progress [OF this run plain_admits exp]
  have prog: "progress plain (set (call_ids ups)) (ry_broker s) p" .
  have "located W fr aid (broker_step fr p s')" if "located W fr aid s" for aid
  proof (cases "aid \<in> set (call_ids (ry_up s))")
    case True
    then show ?thesis using gone [of aid] by (cases "aid \<in> set (call_ids ups)") (auto simp: s' located_def broker_step_def)
  next
    case False
    let ?s = "s\<lparr>ry_up := []\<rparr>"
    have "located W fr aid ?s" using that False by (simp add: located_def)
    then have "located W fr aid (broker_step fr p ?s)"
      using broker_step_located [OF fr, of "set (call_ids ups)" ?s p] prog by simp
    then show ?thesis by (auto simp: s' located_def broker_step_def)
  qed
  moreover have "reach W p" using reach.event [OF r adm run] .
  moreover have "zh_lookup aid (px_queue p) = None" if "aid \<in> set (call_ids ups)" for aid
    using progress_no_new [OF prog that] ok ups(2) that by (auto simp: relay_ok_def)
  ultimately show ?thesis
    using ok ups unfolding relay_ok_def by (auto simp: s' broker_step_def)
qed

lemma zmq_event_out:
  assumes "zmq_event unpack msg g = Inr g'"
  shows "\<exists>es. gw_out g' = gw_out g @ es \<and> calls_out es = []"
    "zh_lookup k (rq_list g) = None \<Longrightarrow> zh_lookup k (rq_list g') = None"
  using assms
proof (atomize(full), cases rule: zmq_event_cases)
  case 1
  then show "(\<exists>es. gw_out g' = gw_out g @ es \<and> calls_out es = []) \<and>
    (zh_lookup k (rq_list g) = None \<longrightarrow> zh_lookup k (rq_list g') = None)" by simp
next
  case (2 aid r es)
  then show "(\<exists>es. gw_out g' = gw_out g @ es \<and> calls_out es = []) \<and>
    (zh_lookup k (rq_list g) = None \<longrightarrow> zh_lookup k (rq_list g') = None)"
    using puts_no_calls [of es r] by (auto simp: zh_lookup_delete)
qed

lemma zmq_event_settles:
  assumes run: "zmq_event unpack [payload] g = Inr g'" and ob: "unpack payload = Some ob"
    and aid: "plain aid ob" "is_cstr aid"
  shows "zh_lookup aid (rq_list g') = None"
proof (cases "zh_lookup aid (rq_list g)")
  case None
  with zmq_event_out(2) [OF run] show ?thesis by blast
next
  case (Some r)
  have "m_lookup ob ''actionid'' = Inr (Some (LStr aid))" using aid by (simp add: plain_def)
  with run ob Some show ?thesis
    by (auto simp: zmq_event_def lookup_str_def res_simps zh_lookup_delete simp del: m_lookup.simps)
qed

lemma response_ok:
  assumes ok: "relay_ok W fr s" and down: "ry_down s = ob # rest" and ob: "wo_unpack W payload = Some ob"
    and run: "zmq_event (wo_unpack W) [payload] (ry_gate s) = Inr g"
  shows "relay_ok W fr (gate_step g (s\<lparr>ry_down := rest\<rparr>))"
proof -
  obtain es where es: "gw_out g = gw_out (ry_gate s) @ es" "calls_out es = []"
    using zmq_event_out(1) [OF run] by blast
  have settled: "zh_lookup aid (rq_list g) = None"
    if "aid \<in> set (call_ids (calls_out (gw_out (ry_gate s))))" "plain aid ob" for aid
  proof -
    have "is_cstr aid" using that(1) call_id_Some(4)
      by (auto simp: call_ids_def List.map_filter_def)
    with zmq_event_settles [OF run ob that(2)] show ?thesis .
  qed
  show ?thesis
    using ok es settled zmq_event_out(2) [OF run] down
    unfolding relay_ok_def located_def gate_step_def by (auto 0 4)
qed

lemma deliver_ok:
  assumes fr: "gateway_frame W fr" and ok: "relay_ok W fr s" and up: "ry_up s = ob # rest"
    and payload: "wo_unpack W payload = Some ob" "payload \<noteq> []"
    and adm: "admissible W E (Local_In [fr, payload] answer) (ry_broker s)"
    and ans: "\<And>m. received W E (Local_In [fr, payload] answer) = Some m \<Longrightarrow> plain_answer m"
    and run: "handle W E (Local_In [fr, payload] answer) (ry_broker s) = Inr p"
  shows "relay_ok W fr (broker_step fr p (s\<lparr>ry_up := rest\<rparr>))"
proof (rule broker_step_ok [OF fr ok adm run refl])
  have d: "distinct (call_ids (ry_up s))" using ok by (simp add: relay_ok_def)
  then show "distinct (call_ids rest)" "set (call_ids rest) \<subseteq> set (call_ids (ry_up s))"
    by (auto simp: up split: option.splits)
  fix m assume m: "received W E (Local_In [fr, payload] answer) = Some m"
  then have "msg_object m = ob"
    using payload by (auto simp: received_def accepted_def split: sum.splits elim!: message_fromzmq_Some)
  moreover have "call_id (msg_object m) = Some (msg_actionid m)" if "msg_command m = Some ''call''"
    using received_fields [OF m] that by (simp add: call_id_def)
  ultimately show "expected plain (set (call_ids rest)) m"
    using ans [OF m] d by (auto simp: expected_def plain_answer_def up split: option.splits)
next
  fix aid assume aid: "aid \<in> set (call_ids (ry_up s))" "aid \<notin> set (call_ids rest)"
  then have "call_id ob = Some aid" by (auto simp: up split: option.splits)
  moreover have "zh_lookup aid (px_queue (ry_broker s)) = None" using ok aid(1) by (simp add: relay_ok_def)
  ultimately have "queued_for W fr aid p \<or>
      (\<exists>ob \<in> set (sent_to fr (fresh_part (px_out (ry_broker s)) (px_out p))). plain aid ob)"
    using delivered_call [OF fr _ payload _ run] by blast
  then show "located W fr aid (broker_step fr p (s\<lparr>ry_up := rest\<rparr>))"
    by (auto simp: located_def broker_step_def)
qed

lemma relay_gate_wf: "relay_reach W fr s \<Longrightarrow> zh_wf (rq_list (ry_gate s))"
proof (induction rule: relay_reach.induct)
  case (start p pid aid resp g)
  then show ?case using introduce_ok by (auto simp: gw_ok_def)
next
  case (request s aid u g)
  then show ?case
    by (auto elim!: upstream_event_cases simp: gate_step_def zh_wf_insert)
next
  case (response s ob rest payload g)
  then show ?case
    by (auto elim!: zmq_event_cases simp: gate_step_def zh_wf_delete)
qed (simp_all add: broker_step_def zh_same_def)

lemma relay_reach_ok: "relay_reach W fr s \<Longrightarrow> gateway_frame W fr \<Longrightarrow> relay_ok W fr s"
proof (induction rule: relay_reach.induct)
  case (start p pid aid resp g)
  then obtain aid' where "gw_out g = [Call_Out (introduction pid aid')]"
    by (auto simp: introduce_def gateway_new_def Let_def res_simps split: option.splits list.splits)
  moreover have "call_id (introduction pid aid') = None"
    by (simp add: call_id_def introduction_def message_check_command_def m_get_string_def key_equal_def
        commands_def cstr_def)
  ultimately show ?case using start by (simp add: relay_ok_def)
next
  case (request s aid u g)
  then show ?case using request_ok by blast
next
  case (deliver s ob rest payload E answer p)
  show ?case by (rule deliver_ok [OF deliver.prems deliver.IH [OF deliver.prems] deliver.hyps(2-7)])
next
  case (elsewhere s E ev p)
  have "relay_ok W fr (broker_step fr p (s\<lparr>ry_up := ry_up s\<rparr>))"
  proof (rule broker_step_ok [OF elsewhere.prems elsewhere.IH [OF elsewhere.prems] elsewhere.hyps(2,4) refl])
    show "expected plain (set (call_ids (ry_up s))) m" if "received W E ev = Some m" for m
      using elsewhere.hyps(3) [OF that] by (simp add: expected_def plain_answer_def no_clash_def)
    show "distinct (call_ids (ry_up s))"
      using elsewhere.IH [OF elsewhere.prems] by (simp add: relay_ok_def)
  qed auto
  then show ?case by simp
next
  case (response s ob rest payload g)
  then show ?case using response_ok by blast
next
  case (rehash s fabs mods queue rqs)
  have ok: "relay_ok W fr s" using rehash by blast
  then have r: "reach W (ry_broker s)" by (simp add: relay_ok_def)
  have "zh_lookup k queue = zh_lookup k (px_queue (ry_broker s))" for k
    using reach_ok [OF r] rehash.hyps(4) zh_same_lookup by (auto simp: router_inv_def wf_queue_def)
  moreover have "zh_lookup k rqs = zh_lookup k (rq_list (ry_gate s))" for k
    using relay_gate_wf [OF rehash.hyps(1)] rehash.hyps(5) zh_same_lookup by blast
  ultimately show ?case
    using ok reach.rehash [OF r rehash.hyps(2-4)]
    unfolding relay_ok_def located_def queued_for_def by simp
qed

lemma calls_out_set: "Call_Out ob \<in> set es \<Longrightarrow> ob \<in> set (calls_out es)"
  by (induction es rule: calls_out.induct) auto

lemma call_ids_set: "ob \<in> set obs \<Longrightarrow> call_id ob = Some aid \<Longrightarrow> aid \<in> set (call_ids obs)"
  by (induction obs) (auto split: option.splits)

end
