(* ===== verification/Whole_Call.thy ===== *)
theory Whole_Call
  imports Relay Placing
begin

text \<open>
  One call on its whole way: from the HTTP request through the module and the broker to the worker,
  and back from the result of the worker to the HTTP response. Here are the two events of the
  broker; those of the module are in \<^verbatim>\<open>FastCGI_Facts\<close>.
\<close>

text \<open>The worker that takes the call is idle, and the first provider of the interface.\<close>

definition ready :: "proxy \<Rightarrow> string \<Rightarrow> string \<Rightarrow> u64 \<Rightarrow> string \<Rightarrow> module \<Rightarrow> bool" where
  "ready p md func ver bs mo \<longleftrightarrow> length bs = 5 \<and> snd (mo_identity mo) = concat (map show_hex_byte bs) \<and>
     mo_state mo = IDLE \<and> \<not> mo_need_restart mo \<and> zh_lookup (snd (mo_identity mo)) (px_modules p) = Some mo \<and>
     (case find (\<lambda>a. iface_serves md func ver (px_heap p a)) (zl_items (px_ifaces p)) of
        None \<Rightarrow> False
      | Some a \<Rightarrow> if_globals (px_heap p a) = [] \<and>
          (case zl_items (if_local (px_heap p a)) of [] \<Rightarrow> False | q # qs \<Rightarrow> q = mo_identity mo))"

text \<open>The call is entered, and sent to the worker; it does not matter where it comes from.\<close>

lemma call_placed:
  assumes rd: "ready p md func ver bs mo" and new: "unplaced m"
    and m: "message_getModule m = Inr (Some md)" "message_getFunc m = Inr (Some func)"
      "message_getIfVersion m = Inr ver" "ver \<noteq> 0"
  shows "\<exists>m' p1. process_call E m p = Inr (p1\<lparr>px_queue := zh_insert (msg_actionid m) m' (px_queue p)\<rparr>) \<and>
    px_out p1 = px_out p @ [To_Local bs (msg_object m)] \<and> msg_local m' = msg_local m \<and>
    msg_identity m' = msg_identity m \<and> msg_actionid m' = msg_actionid m \<and>
    zh_lookup (snd (mo_identity mo)) (px_modules p1) = Some (mo\<lparr>mo_state := BUSY\<rparr>) \<and>
    msg_routed m' = Some (snd (mo_identity mo)) \<and> msg_proc_ts m' = ev_now E \<and> msg_out_ts m' = 0 \<and> same_frame p p1"
proof -
  have acc: "msg_routed m = None" "msg_iface m = None" "msg_out_ts m = 0"
    using new by (simp_all add: unplaced_def)
  let ?m = "call_of m ver (Some md) (Some func)"
  obtain a q qs where a: "find (\<lambda>a. iface_serves md func ver (px_heap p a)) (zl_items (px_ifaces p)) = Some a"
    "if_globals (px_heap p a) = []" "zl_items (if_local (px_heap p a)) = q # qs" "q = mo_identity mo"
    using rd by (auto simp: ready_def split: option.splits list.splits)
  have ready_worker: "zh_lookup (snd q) (px_modules p) = Some mo" "mo_identity mo = q" "mo_state mo = IDLE"
      "snd q = concat (map show_hex_byte bs)" "length bs = 5"
    using rd unfolding ready_def a(4) by blast+
  have "finds ?m p a" using a(1) acc by (simp add: finds_def call_of_def)
  from place_call_idle [OF this a(3,2) ready_worker, of E] obtain m' p1 where
    pc: "place_call E ?m p = Inr (0, m', p1)" and m': "msg_routed m' = Some (snd q)" "msg_proc_ts m' = ev_now E"
      "msg_out_ts m' = msg_out_ts ?m"
    and mod: "zh_lookup (snd q) (px_modules p1) = Some (mo\<lparr>mo_state := BUSY\<rparr>)"
    and out: "px_out p1 = px_out p @ [To_Local bs (msg_object m)]"
    using ready_worker by (auto simp: call_of_def)
  have "same_frame p p1" "msg_out_ts m' = 0"
    using place_call_effect(2) [OF pc] m'(3) acc(3) by (simp_all add: call_of_def)
  note F = place_call_frame [OF pc]
  have same: "msg_local m' = msg_local m" "msg_identity m' = msg_identity m" "msg_actionid m' = msg_actionid m"
    using F(3) by (simp_all add: same_caller_def call_of_def)
  have "process_call E m p = Inr (p1\<lparr>px_queue := zh_insert (msg_actionid m) m' (px_queue p)\<rparr>)"
    using m pc m'(1) same F(1) by (simp add: process_call_def call_of_def)
  with out same mod a(4) m'(1,2) \<open>same_frame p p1\<close> \<open>msg_out_ts m' = 0\<close> show ?thesis by auto
qed

lemma call_arrives:
  assumes rd: "ready p md func ver bs mo" and fr: "gateway_frame W fr"
    and m: "message_fromzmq (wo_strhex W) (wo_unpack W) (ev_now E) [fr, f] True = Inr (Some m)"
      "msg_command m = Some ''call''" "msg_actionid m = aid" "message_getModule m = Inr (Some md)"
      "message_getFunc m = Inr (Some func)" "message_getIfVersion m = Inr ver" "ver \<noteq> 0"
    and ob: "wo_unpack W f = Some ob"
  shows "\<exists>m' p1. handle W E (Local_In [fr, f] answer) p = Inr (p1\<lparr>px_queue := zh_insert aid m' (px_queue p)\<rparr>) \<and>
    px_out p1 = px_out p @ [To_Local bs ob] \<and> msg_local m' \<and> msg_identity m' = concat (map show_hex_byte fr) \<and>
    msg_actionid m' = aid \<and>
    zh_lookup (snd (mo_identity mo)) (px_modules p1) = Some (mo\<lparr>mo_state := BUSY\<rparr>) \<and>
    msg_routed m' = Some (snd (mo_identity mo)) \<and> msg_proc_ts m' = ev_now E \<and> msg_out_ts m' = 0 \<and> same_frame p p1"
proof -
  have acc: "msg_local m" "msg_identity m = concat (map show_hex_byte fr)" "msg_object m = ob"
    using m(1) fr ob by (auto elim!: message_fromzmq_Some simp: accepted_def gateway_frame_def)
  have "handle W E (Local_In [fr, f] answer) p = process_call E m p"
    using m(1,2) by (simp add: handle_def s_local_event_def process_command_def)
  with call_placed [OF rd fromzmq_unplaced [OF m(1)] m(4-7), of E] acc m(3) show ?thesis by auto
qed

text \<open>The result of the worker that has the only call of the queue: it is sent to the caller, which
  is \<open>sent\<close>; the worker is idle again.\<close>

lemma answer_placed:
  assumes stored: "px_queue p = [(aid, m')]" "msg_actionid m' = aid"
    and m: "msg_local m" "msg_actionid m = aid"
    and mo: "zh_lookup (msg_identity m) (px_modules p) = Some (mo\<lparr>mo_state := BUSY\<rparr>)" "mo_state mo = IDLE"
      "\<not> mo_need_restart mo"
    and sent: "(if msg_local m' then send_message (Some (msg_object m)) (msg_identity m') p else answer_fabric m m' p)
      = Inr (emit e p)"
  shows "\<exists>p2. process_result E m p = Inr p2 \<and> px_out p2 = px_out p @ [e] \<and> px_queue p2 = [] \<and>
    zh_lookup (msg_identity m) (px_modules p2) = Some mo"
proof -
  let ?p1 = "(emit e p)\<lparr>px_queue := []\<rparr>"
  let ?p2 = "?p1\<lparr>px_modules := zh_modify (msg_identity m) mo (px_modules p)\<rparr>"
  have idle: "mo\<lparr>mo_state := IDLE\<rparr> = mo" using mo(2) by (cases mo) simp
  have "drop_call aid (emit e p) = ?p1"
    using stored(1) by (simp add: drop_call_def zh_delete_def)
  moreover have "release_module E (msg_identity m) ?p1 = Inr ?p2"
    using mo by (simp add: release_module_def place_all_def zh_foreach_def zh_keys_def idle)
  ultimately have "process_result E m p = Inr ?p2"
    using stored m sent by (simp add: process_result_def zh_lookup_def message_tomsg_def split: if_splits)
  moreover have "zh_lookup (msg_identity m) (px_modules ?p2) = Some mo"
    using mo(1) by (simp add: zh_lookup_modify)
  ultimately show ?thesis by (intro exI [of _ ?p2]) simp
qed

lemma result_arrives:
  assumes fr: "length fr = 5"
    and stored: "px_queue p = [(aid, m')]" "msg_local m'" "msg_identity m' = concat (map show_hex_byte fr)"
      "msg_actionid m' = aid"
    and mo: "zh_lookup (wo_strhex W bs) (px_modules p) = Some (mo\<lparr>mo_state := BUSY\<rparr>)" "mo_state mo = IDLE"
      "\<not> mo_need_restart mo"
    and res: "wo_unpack W f = Some ob" "f \<noteq> []" "is_map ob" "message_check_command ob = Inr (Some ''result'')"
      "message_check_actionid ob = Inr (Some aid)"
  shows "\<exists>p2. handle W E (Local_In [bs, f] answer) p = Inr p2 \<and> px_out p2 = px_out p @ [To_Local fr ob] \<and>
    px_queue p2 = [] \<and> zh_lookup (wo_strhex W bs) (px_modules p2) = Some mo"
proof -
  let ?m = "accepted (wo_strhex W) (ev_now E) True bs ob ''result'' aid"
  let ?k = "wo_strhex W bs"
  have m: "message_fromzmq (wo_strhex W) (wo_unpack W) (ev_now E) [bs, f] True = Inr (Some ?m)"
    using message_fromzmq_two [where unpack = "wo_unpack W", OF res(1,3,2)] res(4,5) by simp
  have acc: "msg_local ?m" "msg_identity ?m = ?k" "msg_actionid ?m = aid" "msg_object ?m = ob"
    "msg_command ?m = Some ''result''"
    by (simp_all add: accepted_def message_new_def)
  have "send_message (Some ob) (msg_identity m') p = Inr (emit (To_Local fr ob) p)"
    using send_message_local [OF fr] stored(3) by simp
  moreover have "handle W E (Local_In [bs, f] answer) p = process_result E ?m p"
    using m acc(5) by (simp add: handle_def s_local_event_def process_command_def)
  ultimately show ?thesis
    using answer_placed [OF stored(1,4) acc(1,3), of mo "To_Local fr ob" E] mo acc stored(2) by simp
qed

text \<open>A call that no interface serves is refused.\<close>

lemma call_refused:
  assumes fr: "gateway_frame W fr"
    and m: "message_fromzmq (wo_strhex W) (wo_unpack W) (ev_now E) [fr, f] True = Inr (Some m)"
      "msg_command m = Some ''call''" "msg_actionid m = aid" "message_getModule m = Inr (Some md)"
      "message_getFunc m = Inr (Some func)" "message_getIfVersion m = Inr ver" "ver \<noteq> 0"
    and none: "find (\<lambda>a. iface_serves md func ver (px_heap p a)) (zl_items (px_ifaces p)) = None"
    and exc: "message_exception (Some aid) ''No modules found'' MODULES_BUSY = Some exc"
  shows "\<exists>p1. handle W E (Local_In [fr, f] answer) p = Inr p1 \<and> px_out p1 = px_out p @ [To_Local fr exc] \<and>
    px_queue p1 = px_queue p"
proof -
  have acc: "msg_identity m = concat (map show_hex_byte fr)" "msg_routed m = None" "msg_iface m = None"
    using m(1) fr by (auto elim!: message_fromzmq_Some simp: accepted_def gateway_frame_def message_new_def)
  let ?m = "m\<lparr>msg_ver := ver, msg_mod := Some md, msg_func := Some func\<rparr>"
  obtain l where "check_interface (Some md) (Some func) ver p = Inr (None, p\<lparr>px_ifaces := l\<rparr>)"
    using check_interface_eq [of p md func ver] none by auto
  then have pc: "place_call E ?m p = Inr (-1, ?m, p\<lparr>px_ifaces := l\<rparr>)"
    using acc by (simp add: place_call_def assign_iface_def)
  have "length fr = 5" using fr by (simp add: gateway_frame_def)
  from send_message_local [OF this]
  have "refuse_call ?m ''No modules found'' MODULES_BUSY (p\<lparr>px_ifaces := l\<rparr>) = Inr (emit (To_Local fr exc) (p\<lparr>px_ifaces := l\<rparr>))"
    using exc acc(1) m(3) by (simp add: refuse_call_def)
  with pc have "process_call E m p = Inr (emit (To_Local fr exc) (p\<lparr>px_ifaces := l\<rparr>))"
    using m by (simp add: process_call_def)
  then have "handle W E (Local_In [fr, f] answer) p = Inr (emit (To_Local fr exc) (p\<lparr>px_ifaces := l\<rparr>))"
    using m(1,2) by (simp add: handle_def s_local_event_def process_command_def)
  then show ?thesis by simp
qed

end
