(* ===== verification/Two_Brokers.thy ===== *)
theory Two_Brokers
  imports Whole_Call
begin

text \<open>
  A call between two brokers: a client calls a function that only another broker offers; its broker
  passes the call on, the other one hands it to a worker of its own, and the result goes the same
  way back. The frames with the identities of brokers are the endpoints they announce.
\<close>

section \<open>Frames\<close>

text \<open>What a frame holds for the broker that receives it.\<close>

definition reads_call :: "world \<Rightarrow> string \<Rightarrow> mobj \<Rightarrow> string \<Rightarrow> string \<Rightarrow> string \<Rightarrow> u64 \<Rightarrow> bool" where
  "reads_call W f ob aid md func ver \<longleftrightarrow> wo_unpack W f = Some ob \<and> f \<noteq> [] \<and> is_map ob \<and>
     message_check_command ob = Inr (Some ''call'') \<and> message_check_actionid ob = Inr (Some aid) \<and>
     body_string ''module'' ob = Inr (Some md) \<and> body_string ''function'' ob = Inr (Some func) \<and>
     body_int ''version'' ob = Inr ver \<and> ver \<noteq> 0"

definition reads_result :: "world \<Rightarrow> string \<Rightarrow> mobj \<Rightarrow> string \<Rightarrow> bool" where
  "reads_result W f ob aid \<longleftrightarrow> wo_unpack W f = Some ob \<and> f \<noteq> [] \<and> is_map ob \<and>
     message_check_command ob = Inr (Some ''result'') \<and> message_check_actionid ob = Inr (Some aid)"

abbreviation from_peer :: "world \<Rightarrow> env \<Rightarrow> bool \<Rightarrow> string \<Rightarrow> mobj \<Rightarrow> string \<Rightarrow> string \<Rightarrow> message" where
  "from_peer W E local fr ob c aid \<equiv> accepted (wo_strhex W) (ev_now E) local fr ob c aid"

lemma frame_received:
  assumes "wo_unpack W f = Some ob" and "f \<noteq> []" and "is_map ob"
    and "message_check_command ob = Inr (Some c)" and "message_check_actionid ob = Inr (Some aid)"
  shows "message_fromzmq (wo_strhex W) (wo_unpack W) (ev_now E) [fr, f] local = Inr (Some (from_peer W E local fr ob c aid))"
  using message_fromzmq_two [where unpack = "wo_unpack W", OF assms(1,3,2)] assms(4,5) by simp

lemma accepted_fields:
  "msg_local (accepted sh t l fr ob c a) = l" "msg_object (accepted sh t l fr ob c a) = ob"
  "msg_command (accepted sh t l fr ob c a) = Some c" "msg_actionid (accepted sh t l fr ob c a) = a"
  "msg_identity (accepted sh t l fr ob c a) = (if l then sh fr else cstr fr)" "unplaced (accepted sh t l fr ob c a)"
  by (simp_all add: accepted_def message_new_def unplaced_def)

lemma reads_call_fields:
  assumes "reads_call W f ob aid md func ver"
  shows "message_getModule (accepted sh t l fr ob c a) = Inr (Some md)"
    "message_getFunc (accepted sh t l fr ob c a) = Inr (Some func)"
    "message_getIfVersion (accepted sh t l fr ob c a) = Inr ver" "ver \<noteq> 0"
  using assms
  by (simp_all add: reads_call_def message_getModule_def message_getFunc_def message_getIfVersion_def accepted_fields)

text \<open>The mark that a message of the fabric came, which every message sets first.\<close>

definition heard :: "string \<Rightarrow> proxy \<Rightarrow> proxy" where
  "heard g p = (case zh_lookup g (px_fabs p) of
      Some fab \<Rightarrow> p\<lparr>px_fabs := zh_modify g (fab\<lparr>fb_alive := True\<rparr>) (px_fabs p)\<rparr>
    | None \<Rightarrow> p)"

lemma heard_simps [simp]:
  "px_modules (heard g p) = px_modules p" "px_ifaces (heard g p) = px_ifaces p" "px_heap (heard g p) = px_heap p"
  "px_queue (heard g p) = px_queue p" "px_out (heard g p) = px_out p"
  "ready (heard g p) md func ver bs mo = ready p md func ver bs mo"
  by (simp_all add: heard_def ready_def split: option.splits)

lemma heard_lookup: "zh_lookup g (px_fabs p) = Some fab \<Longrightarrow>
   zh_lookup g (px_fabs (heard g p)) = Some (fab\<lparr>fb_alive := True\<rparr>)"
  by (simp add: heard_def zh_lookup_modify)

lemma handle_local_command:
  "message_fromzmq (wo_strhex W) (wo_unpack W) (ev_now E) [fr, f] True = Inr (Some m) \<Longrightarrow>
   handle W E (Local_In [fr, f] answer) p = process_command E answer m p"
  by (simp add: handle_def s_local_event_def)

lemma handle_global_command:
  "message_fromzmq (wo_strhex W) (wo_unpack W) (ev_now E) [fr, f] False = Inr (Some m) \<Longrightarrow>
   handle W E (Global_In [fr, f] answer) p = process_command E answer m (heard (msg_identity m) p)"
  by (simp add: handle_def s_global_event_def heard_def)

section \<open>The four events\<close>

text \<open>The only provider of the interface is the fabric \<open>g\<close>, which is connected.\<close>

definition offered_by :: "string \<Rightarrow> proxy \<Rightarrow> string \<Rightarrow> string \<Rightarrow> u64 \<Rightarrow> bool" where
  "offered_by g p md func ver \<longleftrightarrow> length g > 10 \<and> zh_lookup g (px_modules p) = None \<and>
     (case zh_lookup g (px_fabs p) of None \<Rightarrow> False | Some fab \<Rightarrow> fb_peer fab) \<and>
     (case find (\<lambda>a. iface_serves md func ver (px_heap p a)) (zl_items (px_ifaces p)) of
        None \<Rightarrow> False
      | Some a \<Rightarrow> zl_items (if_local (px_heap p a)) = [] \<and> if_globals (px_heap p a) = [g])"

text \<open>The call of a local client is passed on.\<close>

lemma call_passed_on:
  assumes call: "reads_call W f ob aid md func ver" and off: "offered_by g p md func ver"
    and fr: "wo_strhex W fr = concat (map show_hex_byte fr)"
  shows "\<exists>m' p1. handle W E (Local_In [fr, f] answer) p = Inr (p1\<lparr>px_queue := zh_insert aid m' (px_queue p)\<rparr>) \<and>
    px_out p1 = px_out p @ [To_Fabric g ob] \<and> msg_local m' \<and> msg_identity m' = concat (map show_hex_byte fr) \<and>
    msg_actionid m' = aid \<and> msg_routed m' = Some g \<and> same_frame p p1"
proof -
  let ?m = "from_peer W E True fr ob ''call'' aid" and ?c = "call_of (from_peer W E True fr ob ''call'' aid) ver (Some md) (Some func)"
  note R = reads_call_fields [OF call]
  obtain a fab where a: "find (\<lambda>a. iface_serves md func ver (px_heap p a)) (zl_items (px_ifaces p)) = Some a"
      "zl_items (if_local (px_heap p a)) = []" "if_globals (px_heap p a) = g # []"
    and fab: "zh_lookup g (px_fabs p) = Some fab" "fb_peer fab" "length g > 10" "zh_lookup g (px_modules p) = None"
    using off by (auto simp: offered_by_def split: option.splits)
  have "finds ?c p a" "msg_local ?c" using a(1) by (simp_all add: finds_def call_of_def accepted_def message_new_def)
  from place_call_remote [OF this a(2,3) _ fab, of E]
  obtain m' p1 where pc: "place_call E ?c p = Inr (0, m', p1)" and m': "msg_routed m' = Some g"
    and out: "px_out p1 = px_out p @ [To_Fabric g ob]"
    by (auto simp: call_of_def accepted_fields)
  note F = place_call_frame [OF pc]
  have same: "msg_local m'" "msg_identity m' = concat (map show_hex_byte fr)" "msg_actionid m' = aid"
    using F(3) fr by (simp_all add: same_caller_def call_of_def accepted_fields)
  have "process_call E ?m p = Inr (p1\<lparr>px_queue := zh_insert aid m' (px_queue p)\<rparr>)"
    using R pc same F(1) by (simp add: process_call_def call_of_def)
  moreover have "handle W E (Local_In [fr, f] answer) p = process_call E ?m p"
    using handle_local_command [OF frame_received] call
    by (simp add: reads_call_def process_command_def accepted_fields)
  ultimately show ?thesis using out m' same place_call_effect(2) [OF pc] by auto
qed

text \<open>It arrives at the broker with the worker.\<close>

lemma passed_call_arrives:
  assumes call: "reads_call W f ob aid md func ver" and rd: "ready p md func ver bs mo" and g: "is_cstr g"
  shows "\<exists>m' p1. handle W E (Global_In [g, f] answer) p = Inr (p1\<lparr>px_queue := zh_insert aid m' (px_queue p)\<rparr>) \<and>
    px_out p1 = px_out p @ [To_Local bs ob] \<and> \<not> msg_local m' \<and> msg_identity m' = g \<and> msg_actionid m' = aid \<and>
    zh_lookup (snd (mo_identity mo)) (px_modules p1) = Some (mo\<lparr>mo_state := BUSY\<rparr>) \<and> same_frame (heard g p) p1"
proof -
  let ?m = "from_peer W E False g ob ''call'' aid"
  have new: "unplaced ?m" by (rule accepted_fields(6))
  have "ready (heard g p) md func ver bs mo" using rd by simp
  note placed = call_placed [OF this new reads_call_fields [OF call], of E]
  have "handle W E (Global_In [g, f] answer) p = process_call E ?m (heard g p)"
    using handle_global_command [OF frame_received] call g
    by (simp add: reads_call_def process_command_def accepted_fields)
  with placed g show ?thesis by (auto simp: accepted_fields)
qed

text \<open>The result of the worker goes to the first broker.\<close>

lemma result_passed_back:
  assumes res: "reads_result W f ob aid" and stored: "px_queue p = [(aid, m')]" "\<not> msg_local m'"
      "msg_identity m' = g" "msg_actionid m' = aid"
    and fab: "zh_lookup g (px_fabs p) = Some fab" "snd (fb_identity fab) = g" "fb_peer fab" "length g > 10"
    and mo: "zh_lookup (wo_strhex W bs) (px_modules p) = Some (mo\<lparr>mo_state := BUSY\<rparr>)" "mo_state mo = IDLE"
      "\<not> mo_need_restart mo"
  shows "\<exists>p2. handle W E (Local_In [bs, f] answer) p = Inr p2 \<and> px_out p2 = px_out p @ [To_Fabric g ob] \<and>
    px_queue p2 = [] \<and> zh_lookup (wo_strhex W bs) (px_modules p2) = Some mo"
proof -
  let ?m = "from_peer W E True bs ob ''result'' aid"
  have "handle W E (Local_In [bs, f] answer) p = process_result E ?m p"
    using handle_local_command [OF frame_received] res
    by (simp add: reads_result_def process_command_def accepted_fields)
  moreover have "answer_fabric ?m m' p = Inr (emit (To_Fabric g ob) p)"
    using stored fab by (simp add: answer_fabric_def message_tomsg_def send_message_def accepted_fields)
  ultimately show ?thesis
    using answer_placed [OF stored(1,4), of ?m mo "To_Fabric g ob" E] mo stored(2) by (simp add: accepted_fields)
qed

text \<open>The first broker gives it to the client.\<close>

lemma result_comes_home:
  assumes res: "reads_result W f ob aid" and stored: "px_queue p = [(aid, m')]" "msg_local m'"
      "msg_identity m' = concat (map show_hex_byte fr)" "msg_actionid m' = aid" and fr: "length fr = 5"
  shows "\<exists>p2. handle W E (Global_In [g, f] answer) p = Inr p2 \<and> px_out p2 = px_out p @ [To_Local fr ob] \<and> px_queue p2 = []"
proof -
  let ?m = "from_peer W E False g ob ''result'' aid" and ?p = "heard (cstr g) p"
  have "handle W E (Global_In [g, f] answer) p = process_result E ?m ?p"
    using handle_global_command [OF frame_received] res
    by (simp add: reads_result_def process_command_def accepted_fields)
  moreover have "send_message (Some ob) (msg_identity m') ?p = Inr (emit (To_Local fr ob) ?p)"
    using send_message_local [OF fr] stored(3) by simp
  ultimately have "handle W E (Global_In [g, f] answer) p = Inr (drop_call aid (emit (To_Local fr ob) ?p))"
    using stored by (simp add: process_result_def zh_lookup_def message_tomsg_def accepted_fields)
  then show ?thesis using stored(1) by (simp add: drop_call_def zh_delete_def)
qed

section \<open>The whole way\<close>

text \<open>Broker \<open>a\<close> has the client and is known to \<open>b\<close> as \<open>ga\<close>; \<open>b\<close> has the worker and is known to \<open>a\<close> as \<open>gb\<close>.\<close>

definition linked :: "string \<Rightarrow> proxy \<Rightarrow> string \<Rightarrow> proxy \<Rightarrow> string \<Rightarrow> string \<Rightarrow> u64 \<Rightarrow> string \<Rightarrow> module \<Rightarrow> bool" where
  "linked ga a gb b md func ver bs mo \<longleftrightarrow> offered_by gb a md func ver \<and> ready b md func ver bs mo \<and>
     is_cstr ga \<and> length ga > 10 \<and>
     (case zh_lookup ga (px_fabs b) of None \<Rightarrow> False | Some fab \<Rightarrow> fb_peer fab \<and> snd (fb_identity fab) = ga) \<and>
     px_queue a = [] \<and> px_queue b = []"

lemma remote_call_steps:
  assumes link: "linked ga a gb b md func ver bs mo"
    and call: "reads_call W f call aid md func ver" and res: "reads_result W f' res aid"
    and fr: "gateway_frame W fr" "gateway_frame W bs"
  shows "\<exists>a1 b1 b2 a2.
    handle W E1 (Local_In [fr, f] ans) a = Inr a1 \<and> px_out a1 = px_out a @ [To_Fabric gb call] \<and>
    handle W E2 (Global_In [ga, f] ans) b = Inr b1 \<and> px_out b1 = px_out b @ [To_Local bs call] \<and>
    handle W E3 (Local_In [bs, f'] ans) b1 = Inr b2 \<and> px_out b2 = px_out b1 @ [To_Fabric ga res] \<and>
    handle W E4 (Global_In [gb, f'] ans) a1 = Inr a2 \<and> px_out a2 = px_out a1 @ [To_Local fr res] \<and>
    px_queue a2 = [] \<and> px_queue b2 = [] \<and> zh_lookup (snd (mo_identity mo)) (px_modules b2) = Some mo"
proof -
  have off: "offered_by gb a md func ver" and rd: "ready b md func ver bs mo" and ga: "is_cstr ga" "length ga > 10"
    and empty: "px_queue a = []" "px_queue b = []"
    using link by (simp_all add: linked_def)
  obtain fab where fab: "zh_lookup ga (px_fabs b) = Some fab" "fb_peer fab" "snd (fb_identity fab) = ga"
    using link by (auto simp: linked_def split: option.splits)
  have frames: "wo_strhex W fr = concat (map show_hex_byte fr)" "length fr = 5"
      "wo_strhex W bs = concat (map show_hex_byte bs)"
    using fr by (simp_all add: gateway_frame_def)
  have mo: "wo_strhex W bs = snd (mo_identity mo)" "mo_state mo = IDLE" "\<not> mo_need_restart mo"
    using rd frames(3) by (simp_all add: ready_def)
  obtain ma a1 where a1: "handle W E1 (Local_In [fr, f] ans) a = Inr (a1\<lparr>px_queue := zh_insert aid ma (px_queue a)\<rparr>)"
      "px_out a1 = px_out a @ [To_Fabric gb call]" "msg_local ma" "msg_identity ma = concat (map show_hex_byte fr)"
      "msg_actionid ma = aid"
    using call_passed_on [OF call off frames(1), of E1 ans] by blast
  obtain mb b1 where b1: "handle W E2 (Global_In [ga, f] ans) b = Inr (b1\<lparr>px_queue := zh_insert aid mb (px_queue b)\<rparr>)"
      "px_out b1 = px_out b @ [To_Local bs call]" "\<not> msg_local mb" "msg_identity mb = ga" "msg_actionid mb = aid"
      "zh_lookup (snd (mo_identity mo)) (px_modules b1) = Some (mo\<lparr>mo_state := BUSY\<rparr>)" "same_frame (heard ga b) b1"
    using passed_call_arrives [OF call rd ga(1), of E2 ans] by blast
  let ?a1 = "a1\<lparr>px_queue := zh_insert aid ma (px_queue a)\<rparr>" and ?b1 = "b1\<lparr>px_queue := zh_insert aid mb (px_queue b)\<rparr>"
  have queues: "px_queue ?a1 = [(aid, ma)]" "px_queue ?b1 = [(aid, mb)]" using empty by (simp_all add: zh_insert_def)
  have fab1: "zh_lookup ga (px_fabs ?b1) = Some (fab\<lparr>fb_alive := True\<rparr>)"
    using heard_lookup [OF fab(1)] b1(7) by (simp add: same_frame_def)
  obtain b2 where b2: "handle W E3 (Local_In [bs, f'] ans) ?b1 = Inr b2" "px_out b2 = px_out ?b1 @ [To_Fabric ga res]"
      "px_queue b2 = []" "zh_lookup (wo_strhex W bs) (px_modules b2) = Some mo"
    using result_passed_back [OF res queues(2) b1(3-5) fab1 _ _ ga(2), of bs mo E3 ans] fab mo b1(6) by auto
  obtain a2 where a2: "handle W E4 (Global_In [gb, f'] ans) ?a1 = Inr a2" "px_out a2 = px_out ?a1 @ [To_Local fr res]"
      "px_queue a2 = []"
    using result_comes_home [OF res queues(1) a1(3-5) frames(2), of E4 gb ans] by blast
  show ?thesis
    using a1(1,2) b1(1,2) b2 a2 mo(1) by (intro exI [of _ ?a1] exI [of _ ?b1] exI [of _ b2] exI [of _ a2]) simp
qed

end
