(* ===== verification/Config_Facts.thy ===== *)
theory Config_Facts
  imports Config
begin

text \<open>
  What a configuration that was read is known to satisfy: every string fits into its array,
  and the timeouts are those of the section of the broker.
\<close>

section \<open>Sizes\<close>

lemma enquote_length: "length (enquote room s) \<le> room"
proof (induction room s rule: enquote.induct)
  case (3 room c s)
  then show ?case by (cases room) auto
qed simp_all

lemma save_strncpy_length: "save_strncpy s n q = Inr b \<Longrightarrow> length b < n"
  using enquote_length [of "n - 3" s] dequote_length [of "n - 1" s]
  by (auto simp: save_strncpy_def split: if_splits quote_option.splits)

lemma getkeystring_length: "getkeystring fp sec key i j n = Inr (Some b) \<Longrightarrow> length b < n"
  by (auto simp: getkeystring_def Let_def res_simps dest: save_strncpy_length
      split: option.splits prod.splits if_splits)

lemma setting_length: "setting file sec key def n = Inr v \<Longrightarrow> 0 < n \<Longrightarrow> length v < n"
  by (auto simp: setting_def ini_gets_def res_simps dest: getkeystring_length save_strncpy_length
      split: option.splits if_splits)

lemma string_setting_length:
  "string_setting file sec key def n old = Inr v \<Longrightarrow> 0 < n \<Longrightarrow> length old < n \<Longrightarrow> length v < n"
  by (auto simp: string_setting_def res_simps snprintf_str_length)

lemma owner_tokens_length:
  assumes "owner_tokens s = Inr (s', u, g)"
  shows "length u < 8" "length g < 8" "length s' \<le> length s"
proof -
  obtain a b r where t: "strtok_all (CHR '':'') s = a # b # r"
    using assms by (auto simp: owner_tokens_def split: list.splits)
  obtain c cs where d: "dropWhile (\<lambda>c. c = CHR '':'') s = c # cs"
    using t by (auto simp: strtok_all.simps [of _ s] split: list.splits)
  have a: "a = c # takeWhile (\<lambda>x. x \<noteq> CHR '':'') cs"
    using t by (simp add: strtok_all.simps [of _ s] d)
  have "length (takeWhile (\<lambda>x. x \<noteq> CHR '':'') cs) \<le> length cs" by (rule length_takeWhile_le)
  moreover have "length s = length (takeWhile (\<lambda>c. c = CHR '':'') s) + length (c # cs)"
    by (metis d length_append takeWhile_dropWhile_id)
  ultimately show "length s' \<le> length s"
    using assms t a by (auto simp: owner_tokens_def)
  show "length u < 8" "length g < 8"
    using assms t by (auto simp: owner_tokens_def snprintf_str_def)
qed

definition module_fits :: "config_module \<Rightarrow> bool" where
  "module_fits m \<longleftrightarrow> length (cm_exec m) < 256 \<and> length (cm_modworkpath m) < 256 \<and> length (cm_modinstances m) < 2 \<and>
     length (cm_owner m) < 256 \<and> length (cm_modargs m) < 256 \<and> length (cm_name m) < 32 \<and>
     length (cm_path m) < 256 \<and> length (cm_workpath m) < 256 \<and> length (cm_user m) < 8 \<and>
     length (cm_group m) < 8 \<and> length (cm_args m) < 512 \<and> 0 \<le> cm_instances m \<and> cm_instances m \<le> 9"

definition strings_fit :: "server_config \<Rightarrow> bool" where
  "strings_fit c \<longleftrightarrow> length (sc_name c) < 256 \<and> length (sc_path c) < 256 \<and> length (sc_owner c) < 256 \<and>
     length (sc_mode c) < 256 \<and> length (sc_pid_path c) < 256 \<and> length (sc_log_path c) < 256 \<and>
     length (sc_mod_path c) < 256 \<and> length (sc_mod_work_path c) < 256 \<and> length (sc_socket c) < 256 \<and>
     length (sc_socket_file c) < 256 \<and> length (sc_pid_file c) < 256 \<and> length (sc_log_file c) < 256 \<and>
     length (sc_modules_path c) < 256 \<and> length (sc_modules_workpath c) < 256 \<and>
     length (sc_modules_log_err c) < 256 \<and> length (sc_modules_log_out c) < 256 \<and>
     length (sc_socket_user c) < 8 \<and> length (sc_socket_group c) < 8 \<and> length (sc_runas c) < 16 \<and>
     length (sc_iface c) < 16 \<and> length (sc_log_method c) < 16"

definition modules_fit :: "server_config \<Rightarrow> bool" where
  "modules_fit c \<longleftrightarrow> (\<forall>ms k m. sc_modules c = Some ms \<longrightarrow> zh_lookup k ms = Some m \<longrightarrow> module_fits m)"

definition config_fits :: "server_config \<Rightarrow> bool" where
  "config_fits c \<longleftrightarrow> strings_fit c \<and> modules_fit c"

lemma snprintf_length [simp]: "0 < n \<Longrightarrow> length (snprintf_str n s) < n"
  by (rule snprintf_str_length)

lemma read_socket_fits:
  assumes "read_socket file sec c = Inr c'" and "config_fits c"
  shows "config_fits c'"
proof -
  obtain name path owner t mode where
    s: "setting file sec ''name'' [] 256 = Inr name" "setting file sec ''s_path'' ''./'' 256 = Inr path"
      "setting file sec ''s_owner'' [] 256 = Inr owner" "setting file sec ''s_mode'' ''0666'' 256 = Inr mode"
      "(if owner \<noteq> [] then owner_tokens owner else Inr (owner, sc_socket_user c, sc_socket_group c)) = Inr t"
    and c': "Inr (c\<lparr>sc_name := name, sc_path := path,
      sc_socket := snprintf_str 256 (''ipc://'' @ path @ name @ ''.socket''),
      sc_socket_file := snprintf_str 256 (path @ name @ ''.socket''),
      sc_owner := fst t, sc_socket_user := fst (snd t), sc_socket_group := snd (snd t),
      sc_mode := mode, sc_socket_mode := word_of_int (strtol 8 mode)\<rparr>) = (Inr c' :: server_config res)"
    using assms(1) unfolding read_socket_def rbind_Inr_iff case_prod_beta by blast
  have len: "length name < 256" "length path < 256" "length owner < 256" "length mode < 256"
    using s(1-4) [THEN setting_length] by simp_all
  obtain owner' user group where t: "t = (owner', user, group)" by (cases t)
  have "length owner' < 256 \<and> length user < 8 \<and> length group < 8"
    using s(5) owner_tokens_length [of owner owner' user group] len(3) assms(2) t
    by (auto simp: config_fits_def strings_fit_def split: if_splits)
  with len assms(2) c' t show ?thesis
    by (auto simp: config_fits_def strings_fit_def modules_fit_def)
qed

lemma read_paths_fits: "read_paths file sec c = Inr c' \<Longrightarrow> config_fits c \<Longrightarrow> config_fits c'"
  by (auto simp: read_paths_def res_simps config_fits_def strings_fit_def modules_fit_def dest: setting_length)

lemma read_modes_fits: "read_modes file sec c = Inr c' \<Longrightarrow> config_fits c \<Longrightarrow> config_fits c'"
  by (auto simp: read_modes_def res_simps config_fits_def strings_fit_def modules_fit_def)

lemma read_timeouts_fits: "read_timeouts file sec c = Inr c' \<Longrightarrow> config_fits c \<Longrightarrow> config_fits c'"
  by (auto simp: read_timeouts_def res_simps config_fits_def strings_fit_def modules_fit_def)

lemma read_logging_fits:
  assumes "read_logging file sec c = Inr c'" and "config_fits c"
  shows "config_fits c'"
proof -
  obtain ra ifc v1 sz v2 me v3 er ou where
    s: "string_setting file sec ''runas'' [] 16 (sc_runas c) = Inr ra"
      "string_setting file sec ''iface'' [] 16 (sc_iface c) = Inr ifc"
      "log_method_setting v2 (sc_log_method c) = Inr me"
      "string_setting file sec ''mod_log_err'' ''./'' 256 (sc_modules_log_err c) = Inr er"
      "string_setting file sec ''mod_log_out'' ''./'' 256 (sc_modules_log_out c) = Inr ou"
    and c': "c' = c\<lparr>sc_runas := ra, sc_iface := ifc, sc_log_max_size := sz, sc_log_method := me,
      sc_log_mode := (if v3 = [] then sc_log_mode c else word_of_int (strtol 8 v3)),
      sc_modules_log_err := er, sc_modules_log_out := ou\<rparr>"
    using assms(1) unfolding read_logging_def rbind_Inr_iff by blast
  have "length ra < 16" "length ifc < 16" "length er < 256" "length ou < 256"
    using s(1,2,4,5) [THEN string_setting_length] assms(2) by (simp_all add: config_fits_def strings_fit_def)
  moreover have "length me < 16"
    using s(3) assms(2) by (auto simp: log_method_setting_def config_fits_def strings_fit_def split: if_splits)
  ultimately show ?thesis
    using assms(2) by (simp add: c' config_fits_def strings_fit_def modules_fit_def)
qed

lemma read_server_fits:
  assumes "read_server file sec c = Inr c'" and "config_fits c"
  shows "config_fits c'"
proof -
  obtain c1 c2 c3 c4 where "read_socket file sec c = Inr c1" "read_paths file sec c1 = Inr c2"
    "read_modes file sec c2 = Inr c3" "read_timeouts file sec c3 = Inr c4" "read_logging file sec c4 = Inr c'"
    using assms(1) by (auto simp: read_server_def res_simps)
  with assms(2) show ?thesis
    using read_socket_fits read_paths_fits read_modes_fits read_timeouts_fits read_logging_fits by blast
qed

text \<open>The number of instances is read from a single character.\<close>

lemma atoi_single:
  assumes "length s < 2" and "atoi s = Inr i"
  shows "0 \<le> i \<and> i \<le> 9"
proof (cases s)
  case Nil
  with assms show ?thesis by (simp add: atoi_def)
next
  case (Cons c cs)
  with assms(1) have s: "s = [c]" by simp
  have "digit_val c \<le> 9" if "is_digit c" using that by (auto simp: is_digit_def digit_val_def)
  with assms(2) show ?thesis
    by (auto simp: s atoi_def int_res_def split: if_splits)
qed

lemma module_paths_fits:
  assumes "module_paths file sec c m = Inr m'" and "config_fits c" and "module_fits m"
  shows "module_fits m'"
  using assms
  by (auto simp: module_paths_def res_simps module_fits_def snprintf_str_def dest: setting_length)

lemma module_limits_fits:
  assumes "module_limits file sec m = Inr m'" and "module_fits m"
  shows "module_fits m'"
proof -
  obtain inst n owner o' u g t1 t2 b1 b2 where
    s: "setting file sec ''instances'' ''1'' 2 = Inr inst" "setting file sec ''owner'' [] 256 = Inr owner"
      "(if inst = [] then Inr (cm_instances m) else atoi inst) = Inr n"
      "(if owner \<noteq> [] then owner_tokens owner else Inr (owner, cm_user m, cm_group m)) = Inr (o', u, g)"
    and m': "m' = m\<lparr>cm_modinstances := inst, cm_instances := n, cm_start_timeout := t1,
      cm_maxmem := t2, cm_owner := o', cm_user := u, cm_group := g, cm_log_err := b1, cm_log_out := b2\<rparr>"
    using assms(1) by (auto simp: module_limits_def res_simps)
  have "length inst < 2" "length owner < 256" using setting_length s(1,2) by force+
  moreover have "0 \<le> n \<and> n \<le> 9"
    using s(3) atoi_single [OF \<open>length inst < 2\<close>] assms(2) by (auto simp: module_fits_def split: if_splits)
  moreover have "length o' < 256 \<and> length u < 8 \<and> length g < 8"
    using s(4) owner_tokens_length [of owner o' u g] \<open>length owner < 256\<close> assms(2)
    by (auto simp: module_fits_def split: if_splits)
  ultimately show ?thesis using assms(2) by (simp add: m' module_fits_def)
qed

lemma read_module_fits:
  assumes "read_module file sec c = Inr c'" and "config_fits c"
  shows "config_fits c'"
proof -
  obtain exec where exec: "setting file sec ''exec'' [] 256 = Inr exec"
    using assms(1) by (auto simp: read_module_def res_simps)
  show ?thesis
  proof (cases "exec = []")
    case True
    with assms exec show ?thesis by (simp add: read_module_def)
  next
    case False
    let ?m = "module_zero\<lparr>cm_name := snprintf_str 32 sec, cm_exec := exec\<rparr>"
    obtain m1 m2 where m: "module_paths file sec c ?m = Inr m1" "module_limits file sec m1 = Inr m2"
      and c': "c' = c\<lparr>sc_modules := map_option (zh_insert sec m2) (sc_modules c)\<rparr>"
      using assms(1) exec False by (auto simp: read_module_def res_simps)
    have "module_fits ?m"
      using setting_length [OF exec] by (simp add: module_fits_def module_zero_def)
    then have "module_fits m2"
      using module_paths_fits [OF m(1) assms(2)] module_limits_fits [OF m(2)] by blast
    then show ?thesis
      using assms(2) unfolding c' config_fits_def modules_fit_def strings_fit_def
      by (auto simp: zh_lookup_insert split: if_splits)
  qed
qed

lemma read_modules_fits: "read_modules file k c = Inr c' \<Longrightarrow> config_fits c \<Longrightarrow> config_fits c'"
proof (induction "file" k c rule: read_modules.induct)
  case (1 fl k c)
  then show ?case
    by (auto simp: read_modules.simps [of _ k c] res_simps split: if_splits intro: read_module_fits)
qed

lemma read_section_fits: "read_section file s sec c = Inr c' \<Longrightarrow> config_fits c \<Longrightarrow> config_fits c'"
proof -
  assume run: "read_section file s sec c = Inr c'" and c: "config_fits c"
  then obtain c1 where c1: "(if sec = ''server'' then read_server file sec c else Inr c) = Inr c1"
    and c': "(if sec = ''modules'' then read_modules file (Suc s) (c1\<lparr>sc_modules := Some []\<rparr>) else Inr c1) = Inr c'"
    by (auto simp only: read_section_def rbind_Inr_iff)
  have "config_fits c1" using c1 c read_server_fits by (auto split: if_splits)
  moreover from this have "config_fits (c1\<lparr>sc_modules := Some []\<rparr>)"
    by (simp add: config_fits_def strings_fit_def modules_fit_def)
  ultimately show ?thesis using c' read_modules_fits by (auto split: if_splits)
qed

text \<open>An invariant of reading one section is an invariant of reading the file.\<close>

lemma read_sections_invariant:
  assumes step: "\<forall>fl s sec c c'. read_section fl s sec c = Inr c' \<longrightarrow> I fl c \<longrightarrow> I fl c'"
  shows "read_sections fl s c = Inr c' \<Longrightarrow> I fl c \<Longrightarrow> I fl c'"
proof (induction fl s c rule: read_sections.induct)
  case (1 fl s c)
  obtain sec where sec: "section_at fl s = Inr sec" by (auto simp: section_at_eq)
  show ?case
  proof (cases "sec = []")
    case True
    with 1(2,3) sec show ?thesis by (simp add: read_sections.simps [of _ s c])
  next
    case False
    then obtain c1 where c1: "read_section fl s sec c = Inr c1" "read_sections fl (Suc s) c1 = Inr c'"
      using 1(2) sec by (auto simp: read_sections.simps [of _ s c] res_simps)
    have "I fl c1" using step c1(1) 1(3) by blast
    from 1(1) [OF sec False c1 this] show ?thesis .
  qed
qed

section \<open>Timeouts\<close>

definition server_int :: "string \<Rightarrow> string \<Rightarrow> string \<Rightarrow> int res" where
  "server_int fp key def =
     (let v = ini_string ''server'' key def 256 (Some fp) in if v = [] then Inr 0 else atoi v)"

definition timeouts_read :: "string \<Rightarrow> server_config \<Rightarrow> bool" where
  "timeouts_read fp c \<longleftrightarrow> server_int fp ''in_timeout'' ''1000'' = Inr (sc_in_timeout c) \<and>
     server_int fp ''out_timeout'' ''1000'' = Inr (sc_out_timeout c) \<and>
     server_int fp ''process_timeout'' ''10000'' = Inr (sc_process_timeout c)"

definition timeouts_of :: "server_config \<Rightarrow> int \<times> int \<times> int" where
  "timeouts_of c = (sc_in_timeout c, sc_out_timeout c, sc_process_timeout c)"

lemma setting_eq:
  "0 < n \<Longrightarrow> is_cstr sec \<Longrightarrow> is_cstr key \<Longrightarrow> setting file sec key def n = Inr (ini_string sec key def n file)"
  using ini_gets_eq [of n sec key def "file"] by (simp add: setting_def)

lemma int_setting_server:
  assumes "is_cstr key" and "int_setting (Some fp) ''server'' key def old = Inr i"
    and "old = 0 \<or> server_int fp key def = Inr old"
  shows "server_int fp key def = Inr i"
  using assms setting_eq [of 256 "''server''" key "Some fp" def]
  by (auto simp: int_setting_def server_int_def Let_def split: if_splits)

text \<open>Only the reading of the timeouts changes them.\<close>

lemma read_timeouts_of:
  "read_socket file sec c = Inr c' \<Longrightarrow> timeouts_of c' = timeouts_of c"
  "read_paths file sec c = Inr c' \<Longrightarrow> timeouts_of c' = timeouts_of c"
  "read_modes file sec c = Inr c' \<Longrightarrow> timeouts_of c' = timeouts_of c"
  "read_logging file sec c = Inr c' \<Longrightarrow> timeouts_of c' = timeouts_of c"
  "read_module file sec c = Inr c' \<Longrightarrow> timeouts_of c' = timeouts_of c"
proof -
  show "read_socket file sec c = Inr c' \<Longrightarrow> timeouts_of c' = timeouts_of c"
    unfolding read_socket_def rbind_Inr_iff case_prod_beta by (clarsimp simp: timeouts_of_def)
  show "read_paths file sec c = Inr c' \<Longrightarrow> timeouts_of c' = timeouts_of c"
    unfolding read_paths_def rbind_Inr_iff by (clarsimp simp: timeouts_of_def)
  show "read_modes file sec c = Inr c' \<Longrightarrow> timeouts_of c' = timeouts_of c"
    unfolding read_modes_def rbind_Inr_iff by (clarsimp simp: timeouts_of_def)
  show "read_logging file sec c = Inr c' \<Longrightarrow> timeouts_of c' = timeouts_of c"
    unfolding read_logging_def rbind_Inr_iff by (clarsimp simp: timeouts_of_def)
  show "read_module file sec c = Inr c' \<Longrightarrow> timeouts_of c' = timeouts_of c"
    by (auto simp: read_module_def res_simps timeouts_of_def split: if_splits)
qed

lemma read_modules_timeouts: "read_modules fl k c = Inr c' \<Longrightarrow> timeouts_of c' = timeouts_of c"
proof (induction fl k c rule: read_modules.induct)
  case (1 fl k c)
  then show ?case
    by (auto simp: read_modules.simps [of _ k c] res_simps split: if_splits) (metis read_timeouts_of(5))
qed

definition fresh_or_read :: "string \<Rightarrow> server_config \<Rightarrow> bool" where
  "fresh_or_read fp c \<longleftrightarrow> timeouts_of c = (0, 0, 0) \<or> timeouts_read fp c"

lemma timeouts_read_of: "timeouts_of c' = timeouts_of c \<Longrightarrow> timeouts_read fp c' = timeouts_read fp c"
  by (simp add: timeouts_of_def timeouts_read_def)

lemma read_server_timeouts:
  assumes "read_server (Some fp) ''server'' c = Inr c'" and "fresh_or_read fp c"
  shows "timeouts_read fp c'"
proof -
  obtain c1 c2 c3 c4 where c: "read_socket (Some fp) ''server'' c = Inr c1" "read_paths (Some fp) ''server'' c1 = Inr c2"
    "read_modes (Some fp) ''server'' c2 = Inr c3" "read_timeouts (Some fp) ''server'' c3 = Inr c4"
    "read_logging (Some fp) ''server'' c4 = Inr c'"
    using assms(1) by (auto simp: read_server_def res_simps)
  have "timeouts_of c3 = timeouts_of c"
    using read_timeouts_of(1) [OF c(1)] read_timeouts_of(2) [OF c(2)] read_timeouts_of(3) [OF c(3)] by simp
  with assms(2) have old: "sc_in_timeout c3 = 0 \<or> server_int fp ''in_timeout'' ''1000'' = Inr (sc_in_timeout c3)"
    "sc_out_timeout c3 = 0 \<or> server_int fp ''out_timeout'' ''1000'' = Inr (sc_out_timeout c3)"
    "sc_process_timeout c3 = 0 \<or> server_int fp ''process_timeout'' ''10000'' = Inr (sc_process_timeout c3)"
    by (auto simp: fresh_or_read_def timeouts_of_def timeouts_read_def)
  obtain q l i o' r where
    s: "int_setting (Some fp) ''server'' ''in_timeout'' ''1000'' (sc_in_timeout c3) = Inr i"
      "int_setting (Some fp) ''server'' ''out_timeout'' ''1000'' (sc_out_timeout c3) = Inr o'"
      "int_setting (Some fp) ''server'' ''process_timeout'' ''10000'' (sc_process_timeout c3) = Inr r"
    and c4: "c4 = c3\<lparr>sc_queue_poll := q, sc_modlist_poll := l, sc_in_timeout := i, sc_out_timeout := o',
      sc_process_timeout := r\<rparr>"
    using c(4) unfolding read_timeouts_def rbind_Inr_iff by blast
  have "timeouts_read fp c4"
    using int_setting_server [OF _ s(1) old(1)] int_setting_server [OF _ s(2) old(2)]
      int_setting_server [OF _ s(3) old(3)] by (simp add: c4 timeouts_read_def)
  then show ?thesis using timeouts_read_of [OF read_timeouts_of(4) [OF c(5)]] by simp
qed

lemma read_section_timeouts:
  assumes "read_section (Some fp) s sec c = Inr c'" and "fresh_or_read fp c"
  shows "fresh_or_read fp c'" "timeouts_read fp c \<or> sec = ''server'' \<Longrightarrow> timeouts_read fp c'"
proof -
  have "fresh_or_read fp c' \<and> (timeouts_read fp c \<or> sec = ''server'' \<longrightarrow> timeouts_read fp c')"
  proof (cases "sec = ''server''")
    case True
    with assms(1) have "read_server (Some fp) ''server'' c = Inr c'" by (simp add: read_section_def res_simps)
    from read_server_timeouts [OF this assms(2)] show ?thesis by (simp add: fresh_or_read_def)
  next
    case False
    with assms(1) have "timeouts_of c' = timeouts_of c"
      using read_modules_timeouts [of "Some fp" "Suc s" "c\<lparr>sc_modules := Some []\<rparr>" c']
      by (auto simp: read_section_def timeouts_of_def split: if_splits)
    with assms(2) False timeouts_read_of [OF this] show ?thesis by (simp add: fresh_or_read_def)
  qed
  then show "fresh_or_read fp c'" "timeouts_read fp c \<or> sec = ''server'' \<Longrightarrow> timeouts_read fp c'" by blast+
qed

section \<open>Every section is read\<close>

lemma section_at_nonempty: "k < section_count file \<Longrightarrow> section_at file k = Inr sec \<Longrightarrow> sec \<noteq> []"
  using set_takeWhileD [of _ "\<lambda>n. n \<noteq> []"] nth_mem
  by (fastforce simp: section_at_eq section_count_def section_names_def Let_def split: option.splits)

lemma read_sections_each:
  assumes step: "\<forall>fl s sec c c'. read_section fl s sec c = Inr c' \<longrightarrow> I fl c \<longrightarrow> I fl c'"
  shows "read_sections fl s c = Inr c' \<Longrightarrow> I fl c \<Longrightarrow> s \<le> k \<Longrightarrow> k < section_count fl \<Longrightarrow> section_at fl k = Inr sec \<Longrightarrow>
    \<exists>c1 c2. read_section fl k sec c1 = Inr c2 \<and> I fl c1 \<and> read_sections fl (Suc k) c2 = Inr c'"
proof (induction fl s c rule: read_sections.induct)
  case (1 fl s c)
  obtain sec' where sec': "section_at fl s = Inr sec'" by (auto simp: section_at_eq)
  have "sec' \<noteq> []" using section_at_nonempty [OF _ sec'] 1(4,5) by simp
  with 1(2) sec' obtain c1 where c1: "read_section fl s sec' c = Inr c1" "read_sections fl (Suc s) c1 = Inr c'"
    by (auto simp: read_sections.simps [of _ s c] res_simps)
  show ?case
  proof (cases "k = s")
    case True
    with c1 1(3,6) sec' show ?thesis by auto
  next
    case False
    then have "Suc s \<le> k" using 1(4) by simp
    moreover have "I fl c1" using step c1(1) 1(3) by blast
    ultimately show ?thesis using 1(1) [OF sec' \<open>sec' \<noteq> []\<close> c1 _ _ 1(5,6)] by simp
  qed
qed

text \<open>Once the section of the broker has been read, the timeouts stay.\<close>

lemma read_section_of_timeouts:
  "\<forall>fl s sec c c'. read_section fl s sec c = Inr c' \<longrightarrow>
     (\<forall>fp. fl = Some fp \<longrightarrow> fresh_or_read fp c) \<longrightarrow> (\<forall>fp. fl = Some fp \<longrightarrow> fresh_or_read fp c')"
  "\<forall>fl s sec c c'. read_section fl s sec c = Inr c' \<longrightarrow>
     (\<forall>fp. fl = Some fp \<longrightarrow> fresh_or_read fp c \<and> timeouts_read fp c) \<longrightarrow>
     (\<forall>fp. fl = Some fp \<longrightarrow> fresh_or_read fp c' \<and> timeouts_read fp c')"
  by (auto intro: read_section_timeouts)

lemma config_new_timeouts:
  assumes "config_new (Some fp) = Inr c" and "k < section_count (Some fp)" and "section_at (Some fp) k = Inr ''server''"
  shows "timeouts_read fp c"
proof -
  have start: "\<forall>fp'. Some fp = Some fp' \<longrightarrow> fresh_or_read fp' config_zero"
    by (simp add: fresh_or_read_def timeouts_of_def config_zero_def)
  obtain c1 c2 where c: "read_section (Some fp) k ''server'' c1 = Inr c2" "fresh_or_read fp c1"
    "read_sections (Some fp) (Suc k) c2 = Inr c"
    using read_sections_each [OF read_section_of_timeouts(1) assms(1) [unfolded config_new_def] start _ assms(2,3)]
    by auto
  have "\<forall>fp'. Some fp = Some fp' \<longrightarrow> fresh_or_read fp' c2 \<and> timeouts_read fp' c2"
    using read_section_timeouts [OF c(1,2)] by simp
  from read_sections_invariant [OF read_section_of_timeouts(2) c(3) this] show ?thesis by simp
qed

end
