(* ===== verification/Procman.thy ===== *)
theory Procman
  imports Config
begin

text \<open>
  The process manager, \<^verbatim>\<open>src/procman.c\<close> and \<^verbatim>\<open>src/process.c\<close>: a thread that starts the modules of the
  configuration, watches their processes and restarts them when the broker asks for it. Its
  state is the table of processes, by the decimal form of their pid; what it does to the outside
  is appended to \<open>pm_out\<close>. The operating system is a parameter: the clock, the results of
  \<open>fork\<close>, the files that exist and the memory a process uses.
\<close>

section \<open>State\<close>

record process =
  pr_name :: string
  pr_pid :: u64
  pr_mod :: "config_module option"
  pr_instance :: int
  pr_start :: int
  pr_started :: bool
  pr_on_restart :: bool

datatype pm_effect =
    Kill int int
  | To_Broker "string list"

text \<open>An entry of the table is a pointer to a process, or to memory that was freed (\<open>None\<close>).\<close>

record procman =
  pm_conf :: server_config
  pm_procs :: "process option zhash"
  pm_stop_all :: bool
  pm_forks :: nat
  pm_out :: "pm_effect list"

record system =
  os_now :: int
  os_fork :: "nat \<Rightarrow> u64"
  os_access :: "string \<Rightarrow> bool"
  os_chdir :: "string \<Rightarrow> bool"
  os_statm :: "string \<Rightarrow> (int \<times> int) option"
  os_pagesize :: u64

definition act :: "pm_effect \<Rightarrow> procman \<Rightarrow> procman" where
  "act e s = s\<lparr>pm_out := pm_out s @ [e]\<rparr>"

definition process_new :: "string \<Rightarrow> process" where
  "process_new name = \<lparr>pr_name = name, pr_pid = 0, pr_mod = None, pr_instance = 0, pr_start = 0,
     pr_started = False, pr_on_restart = False\<rparr>"

text \<open>\<open>(pid_t)strtol(s, 0, 10)\<close>, and the process of an entry.\<close>

definition pid_of :: "string \<Rightarrow> int" where
  "pid_of s = sint (word_of_int (strtol 10 s) :: i32)"

definition deref :: "process option \<Rightarrow> process res" where
  "deref item = (case item of Some proc \<Rightarrow> Inr proc | None \<Rightarrow> Inl Use_After_Free)"

section \<open>Starting a process\<close>

text \<open>The child process never comes back: it ends, or becomes the program of the module. The names of
  its log files go into 256 bytes, its arguments into an array of 16 pointers, the last of them
  \<open>NULL\<close>.\<close>

definition child :: "system \<Rightarrow> server_config \<Rightarrow> config_module option \<Rightarrow> 'r res" where
  "child S conf m =
     (case m of
        None \<Rightarrow> Inl Null_Deref
      | Some mo \<Rightarrow>
          if \<not> os_chdir S (cm_workpath mo) then Inl Exits
          else
            rbind (sprintf_buf 256 (sc_modules_log_out conf @ cm_name mo @ ''-out.log'')) (\<lambda>out_file.
            rbind (sprintf_buf 256 (sc_modules_log_err conf @ cm_name mo @ ''-err.log'')) (\<lambda>err_file.
              let args = cm_path mo # strtok_all (CHR '' '') (cm_args mo)
              in if length args + 1 \<le> 16 then Inl (Execs args) else Inl Buffer_Overflow)))"

definition strpid :: "u64 \<Rightarrow> string" where
  "strpid pid = show_int (sint pid)"

text \<open>The result of \<open>fork\<close> is kept as an unsigned number: the failure \<open>-1\<close> is greater than 0 and is
  entered into the table, before the process is freed. An entry that is there already stays.\<close>

definition start_proc :: "system \<Rightarrow> process \<Rightarrow> procman \<Rightarrow> procman res" where
  "start_proc S proc s =
     (let proc1 = proc\<lparr>pr_start := os_now S\<rparr>;
          fork_rv = os_fork S (pm_forks s);
          s1 = s\<lparr>pm_forks := Suc (pm_forks s)\<rparr>
      in rbind (if fork_rv = 0 then child S (pm_conf s1) (pr_mod proc1) else Inr ()) (\<lambda>_.
           let s2 = (if fork_rv > 0
                     then s1\<lparr>pm_procs := zh_insert (strpid fork_rv) (Some (proc1\<lparr>pr_pid := fork_rv\<rparr>)) (pm_procs s1)\<rparr>
                     else s1)
           in Inr (if fork_rv = -1 \<and> zh_lookup (strpid fork_rv) (pm_procs s1) = None
                   then s2\<lparr>pm_procs := zh_modify (strpid fork_rv) None (pm_procs s2)\<rparr> else s2)))"

fun start_instances :: "system \<Rightarrow> string \<Rightarrow> config_module \<Rightarrow> int list \<Rightarrow> procman \<Rightarrow> procman res" where
  "start_instances S key m [] s = Inr s"
| "start_instances S key m (count # counts) s =
     rbind (start_proc S ((process_new key)\<lparr>pr_mod := Some m, pr_instance := count\<rparr>) s) (\<lambda>s'.
       start_instances S key m counts s')"

definition startall_item :: "system \<Rightarrow> string \<Rightarrow> config_module \<Rightarrow> procman \<Rightarrow> procman res" where
  "startall_item S key m s =
     (if \<not> os_access S (cm_path m) then Inr s else start_instances S key m [1..cm_instances m] s)"

section \<open>Watching the processes\<close>

definition memory_mb :: "system \<Rightarrow> int \<Rightarrow> u64" where
  "memory_mb S rss = (word_of_int rss * os_pagesize S) div (1024 * 1024)"

definition check_memory :: "system \<Rightarrow> string \<Rightarrow> process \<Rightarrow> procman \<Rightarrow> procman res" where
  "check_memory S key proc s =
     (case pr_mod proc of
        None \<Rightarrow> Inl Null_Deref
      | Some m \<Rightarrow>
          if cm_maxmem m \<noteq> 0 then
            (case os_statm S (''/proc/'' @ key @ ''/statm'') of
               None \<Rightarrow> Inr s
             | Some (i, rss) \<Rightarrow>
                 if i \<noteq> 0 \<and> memory_mb S (if i = 1 then rss else 0) > u64_of_int (cm_maxmem m)
                 then Inr (act (To_Broker [''restart'', key]) s) else Inr s)
          else Inr s)"

definition start_late :: "system \<Rightarrow> process \<Rightarrow> bool res" where
  "start_late S proc =
     (case pr_mod proc of
        None \<Rightarrow> Inr False
      | Some m \<Rightarrow>
          if \<not> pr_started proc \<and> pr_start proc \<noteq> 0
          then rbind (int_res (cm_start_timeout m * 1000)) (\<lambda>t. Inr (os_now S - pr_start proc > t))
          else Inr False)"

definition checkpid_item :: "system \<Rightarrow> string \<Rightarrow> process option \<Rightarrow> procman \<Rightarrow> (int \<times> procman) res" where
  "checkpid_item S key item s =
     (if pm_stop_all s then Inr (0, s)
      else rbind (deref item) (\<lambda>proc.
        if pr_on_restart proc then Inr (0, s)
        else rbind (start_late S proc) (\<lambda>late.
          if late then Inr (0, (act (Kill (pid_of key) 9) s)\<lparr>pm_procs := zh_delete key (pm_procs s)\<rparr>)
          else rbind (sprintf_buf 256 (''/proc/'' @ key @ ''/cmdline'')) (\<lambda>fname.
            if \<not> os_access S fname then
              Inr (0, (act (To_Broker [''restart'', key]) s)
                \<lparr>pm_procs := zh_modify key (Some (proc\<lparr>pr_on_restart := True\<rparr>)) (pm_procs s)\<rparr>)
            else if pr_started proc then rbind (check_memory S key proc s) (\<lambda>s'. Inr (0, s'))
            else Inr (0, s)))))"

definition checkpid_event :: "system \<Rightarrow> procman \<Rightarrow> procman res" where
  "checkpid_event S s =
     (if length (pm_procs s) > 0
      then rbind (zh_foreach pm_procs (checkpid_item S) s) (\<lambda>(rc, s'). Inr s')
      else Inr s)"

section \<open>Commands of the broker\<close>

definition killall_item :: "string \<Rightarrow> process option \<Rightarrow> procman \<Rightarrow> (int \<times> procman) res" where
  "killall_item key item s =
     rbind (deref item) (\<lambda>proc.
       if pr_pid proc = 0 then Inr (0, s)
       else let pid = sint (ucast (pr_pid proc) :: i32) in Inr (0, act (Kill pid 9) (act (Kill pid 3) s)))"

definition check_pid :: "string \<Rightarrow> procman \<Rightarrow> procman res" where
  "check_pid spid s =
     (case zh_lookup spid (pm_procs s) of
        None \<Rightarrow> Inr (act (To_Broker [''check_pid'', ''no'']) s)
      | Some item \<Rightarrow> rbind (deref item) (\<lambda>proc.
          Inr (act (To_Broker [''check_pid'', ''yes''])
            (s\<lparr>pm_procs := zh_modify spid (Some (proc\<lparr>pr_started := True\<rparr>)) (pm_procs s)\<rparr>))))"

definition register_process :: "string \<Rightarrow> string \<Rightarrow> procman \<Rightarrow> procman" where
  "register_process spid name s =
     (if zh_lookup spid (pm_procs s) = None
      then s\<lparr>pm_procs := zh_insert spid (Some (process_new name)) (pm_procs s)\<rparr> else s)"

definition kill_process :: "string \<Rightarrow> procman \<Rightarrow> procman res" where
  "kill_process spid s =
     (case zh_lookup spid (pm_procs s) of
        None \<Rightarrow> Inr s
      | Some item \<Rightarrow> rbind (deref item) (\<lambda>proc.
          Inr ((act (Kill (pid_of spid) 3) (act (Kill (pid_of spid) 3) s))\<lparr>pm_procs := zh_delete spid (pm_procs s)\<rparr>)))"

definition restart_process :: "system \<Rightarrow> string \<Rightarrow> procman \<Rightarrow> procman res" where
  "restart_process S spid s =
     (case zh_lookup spid (pm_procs s) of
        None \<Rightarrow> Inr s
      | Some item \<Rightarrow> rbind (deref item) (\<lambda>proc.
          let s1 = act (To_Broker [''remove'', spid]) (act (Kill (pid_of spid) 9) (act (Kill (pid_of spid) 3) s));
              new_proc = (process_new (pr_name proc))\<lparr>pr_mod := pr_mod proc\<rparr>
          in start_proc S new_proc (s1\<lparr>pm_procs := zh_delete spid (pm_procs s1)\<rparr>)))"

text \<open>The strings of one command, as the broker sends them; a receive that finds none waits.\<close>

definition s_main_event :: "system \<Rightarrow> string list \<Rightarrow> procman \<Rightarrow> procman res" where
  "s_main_event S msg s =
     (case msg of
        [] \<Rightarrow> Inl Blocked
      | command # args \<Rightarrow>
          if command = ''check_pid'' then (case args of spid # _ \<Rightarrow> check_pid spid s | _ \<Rightarrow> Inl Blocked)
          else if command = ''register'' then
            (case args of spid # name # _ \<Rightarrow> Inr (register_process spid name s) | _ \<Rightarrow> Inl Blocked)
          else if command = ''kill'' then (case args of spid # _ \<Rightarrow> kill_process spid s | _ \<Rightarrow> Inl Blocked)
          else if command = ''restart'' then (case args of spid # _ \<Rightarrow> restart_process S spid s | _ \<Rightarrow> Inl Blocked)
          else if command = ''killall'' then
            (if length (pm_procs s) > 0
             then rbind (zh_foreach pm_procs killall_item s) (\<lambda>(rc, s'). Inr s') else Inr s)
          else if command = ''stop_all'' then Inr (s\<lparr>pm_stop_all := True\<rparr>)
          else Inr s)"

section \<open>The thread\<close>

definition procman_new :: "server_config \<Rightarrow> procman" where
  "procman_new conf = \<lparr>pm_conf = conf, pm_procs = [], pm_stop_all = False, pm_forks = 0, pm_out = []\<rparr>"

text \<open>After the first string of the broker, the modules of the configuration are started.\<close>

definition procman_start :: "system \<Rightarrow> server_config \<Rightarrow> procman res" where
  "procman_start S conf =
     (case sc_modules conf of
        None \<Rightarrow> Inl Assert_Fail
      | Some ms \<Rightarrow> rfold (\<lambda>(key, m). startall_item S key m) ms (procman_new conf))"

datatype pm_event = Pid_Timer | Broker_In "string list"

definition pm_handle :: "system \<Rightarrow> pm_event \<Rightarrow> procman \<Rightarrow> procman res" where
  "pm_handle S ev s = (case ev of Pid_Timer \<Rightarrow> checkpid_event S s | Broker_In msg \<Rightarrow> s_main_event S msg s)"

text \<open>The states of the thread; the operating system is different at every event, and its hash table
  may be reorganised in between.\<close>

inductive pm_reach :: "server_config \<Rightarrow> procman \<Rightarrow> bool" for conf where
  start: "procman_start S conf = Inr s \<Longrightarrow> pm_reach conf s"
| event: "pm_reach conf s \<Longrightarrow> pm_handle S ev s = Inr s' \<Longrightarrow> pm_reach conf s'"
| rehash: "pm_reach conf s \<Longrightarrow> zh_same (pm_procs s) procs \<Longrightarrow> pm_reach conf (s\<lparr>pm_procs := procs\<rparr>)"

end
