(* ===== verification/Procman_Facts.thy ===== *)
theory Procman_Facts
  imports Procman Peers
begin

text \<open>
  The table of the process manager: what every operation keeps, what a restart does here and in
  the broker, and what a failing \<open>fork\<close> leaves behind.
\<close>

section \<open>The table\<close>

text \<open>A process that has a module of the configuration is entered under its pid, and only a failed
  \<open>fork\<close> leaves freed memory.\<close>

definition wf_entry :: "server_config \<Rightarrow> string \<Rightarrow> process option \<Rightarrow> bool" where
  "wf_entry conf k item \<longleftrightarrow>
     (case item of
        None \<Rightarrow> k = ''-1''
      | Some proc \<Rightarrow> \<forall>m. pr_mod proc = Some m \<longrightarrow> k = strpid (pr_pid proc) \<and> pr_pid proc \<noteq> 0 \<and>
          (\<exists>ms name. sc_modules conf = Some ms \<and> (name, m) \<in> set ms))"

definition pm_ok :: "server_config \<Rightarrow> procman \<Rightarrow> bool" where
  "pm_ok conf s \<longleftrightarrow> zh_wf (pm_procs s) \<and> (\<forall>k item. zh_lookup k (pm_procs s) = Some item \<longrightarrow> wf_entry conf k item)"

lemma pm_ok_act [simp]: "pm_ok conf (act e s) = pm_ok conf s"
  by (simp add: pm_ok_def act_def)

lemma pm_procs_act [simp]: "pm_procs (act e s) = pm_procs s"
  by (simp add: act_def)

lemma act_fields [simp]:
  "pm_stop_all (act e s) = pm_stop_all s" "pm_forks (act e s) = pm_forks s" "pm_out (act e s) = pm_out s @ [e]"
  by (simp_all add: act_def)

lemma strpid_fail: "strpid (-1) = ''-1''"
  by (simp add: strpid_def show_int_def show_nat.simps digit_chars)

lemma pm_ok_insert: "pm_ok conf s \<Longrightarrow> wf_entry conf k item \<Longrightarrow> pm_ok conf (s\<lparr>pm_procs := zh_insert k item (pm_procs s)\<rparr>)"
  by (auto simp: pm_ok_def zh_wf_insert zh_lookup_insert split: if_splits)

lemma pm_ok_modify: "pm_ok conf s \<Longrightarrow> wf_entry conf k item \<Longrightarrow> pm_ok conf (s\<lparr>pm_procs := zh_modify k item (pm_procs s)\<rparr>)"
  by (auto simp: pm_ok_def zh_wf_modify zh_lookup_modify split: if_splits)

lemma pm_ok_delete: "pm_ok conf s \<Longrightarrow> pm_ok conf (s\<lparr>pm_procs := zh_delete k (pm_procs s)\<rparr>)"
  by (auto simp: pm_ok_def zh_wf_delete zh_lookup_delete split: if_splits)

lemma pm_ok_update [simp]:
  "pm_ok conf (s\<lparr>pm_forks := n\<rparr>) = pm_ok conf s" "pm_ok conf (s\<lparr>pm_stop_all := b\<rparr>) = pm_ok conf s"
  "pm_ok conf (s\<lparr>pm_out := es\<rparr>) = pm_ok conf s"
  by (simp_all add: pm_ok_def)

lemma child_never: "\<not> returns (child S conf m)"
  by (auto simp: child_def Let_def returns_iff res_simps split: option.splits if_splits)

lemma start_proc_ok:
  assumes ok: "pm_ok conf s" and run: "start_proc S proc s = Inr s'"
    and m: "\<And>m. pr_mod proc = Some m \<Longrightarrow> \<exists>ms name. sc_modules conf = Some ms \<and> (name, m) \<in> set ms"
  shows "pm_ok conf s'"
proof -
  let ?rv = "os_fork S (pm_forks s)" and ?s1 = "s\<lparr>pm_forks := Suc (pm_forks s)\<rparr>"
  let ?new = "Some (proc\<lparr>pr_start := os_now S, pr_pid := ?rv\<rparr>)"
  let ?s2 = "if ?rv > 0 then ?s1\<lparr>pm_procs := zh_insert (strpid ?rv) ?new (pm_procs ?s1)\<rparr> else ?s1"
  have "?rv \<noteq> 0 \<or> \<not> returns (child S (pm_conf s) (pr_mod proc))" using child_never by auto
  then have s': "s' = (if ?rv = -1 \<and> zh_lookup (strpid ?rv) (pm_procs s) = None
      then ?s2\<lparr>pm_procs := zh_modify (strpid ?rv) None (pm_procs ?s2)\<rparr> else ?s2)"
    using run by (auto simp: start_proc_def Let_def res_simps returns_iff split: if_splits)
  have entry: "wf_entry conf (strpid ?rv) ?new" if "?rv > 0"
    using that m by (auto simp: wf_entry_def)
  have free: "wf_entry conf (strpid ?rv) None" if "?rv = -1"
    using that by (simp add: wf_entry_def strpid_fail)
  have s2: "pm_ok conf ?s2" using ok entry pm_ok_insert [of conf ?s1] by simp
  show ?thesis using s2 pm_ok_modify [OF s2 free] by (simp add: s')
qed

lemma start_instances_ok:
  assumes "\<exists>ms name. sc_modules conf = Some ms \<and> (name, m) \<in> set ms"
  shows "start_instances S key m ns s = Inr s' \<Longrightarrow> pm_ok conf s \<Longrightarrow> pm_ok conf s'"
proof (induction ns arbitrary: s)
  case (Cons n ns)
  from Cons.prems(1) obtain s1 where
    s1: "start_proc S ((process_new key)\<lparr>pr_mod := Some m, pr_instance := n\<rparr>) s = Inr s1" "start_instances S key m ns s1 = Inr s'"
    by (auto simp: res_simps)
  have "pm_ok conf s1"
    by (rule start_proc_ok [OF Cons.prems(2) s1(1)]) (use assms in simp)
  with Cons.IH s1(2) show ?case by blast
qed simp

lemma startall_item_ok:
  assumes "sc_modules conf = Some ms" and "(name, m) \<in> set ms"
  shows "startall_item S key m s = Inr s' \<Longrightarrow> pm_ok conf s \<Longrightarrow> pm_ok conf s'"
  using assms start_instances_ok [of conf m S key "[1..cm_instances m]" s s']
  by (auto simp: startall_item_def split: if_splits)

lemma procman_start_ok: "procman_start S conf = Inr s \<Longrightarrow> pm_ok conf s"
proof -
  assume run: "procman_start S conf = Inr s"
  then obtain ms where ms: "sc_modules conf = Some ms"
    and fold: "rfold (\<lambda>(key, m). startall_item S key m) ms (procman_new conf) = Inr s"
    by (auto simp: procman_start_def split: option.splits)
  have "\<And>x s s'. x \<in> set ms \<Longrightarrow> pm_ok conf s \<Longrightarrow> (\<lambda>(key, m). startall_item S key m) x s = Inr s' \<Longrightarrow> pm_ok conf s'"
    using startall_item_ok [OF ms] by auto
  moreover have "pm_ok conf (procman_new conf)" by (simp add: pm_ok_def procman_new_def)
  ultimately show ?thesis using rfold_invariant [of ms "pm_ok conf", OF _ _ fold] by blast
qed

section \<open>The events\<close>

lemma deref_Inr_iff [res_simps]: "deref item = Inr proc \<longleftrightarrow> item = Some proc"
  by (cases item) (auto simp: deref_def)

lemma wf_entry_update:
  "wf_entry conf k (Some proc) \<Longrightarrow> pr_mod proc' = pr_mod proc \<Longrightarrow> pr_pid proc' = pr_pid proc \<Longrightarrow> wf_entry conf k (Some proc')"
  by (simp add: wf_entry_def)

lemma check_memory_procs: "check_memory S key proc s = Inr s' \<Longrightarrow> \<exists>es. s' = s\<lparr>pm_out := es\<rparr>"
proof -
  have "\<exists>es. s = s\<lparr>pm_out := es\<rparr>" by (rule exI [of _ "pm_out s"]) simp
  moreover have "\<exists>es. act e s = s\<lparr>pm_out := es\<rparr>" for e by (auto simp: act_def)
  ultimately show "check_memory S key proc s = Inr s' \<Longrightarrow> ?thesis"
    by (auto simp: check_memory_def split: option.splits if_splits prod.splits)
qed

text \<open>What one look at a process does to the table.\<close>

lemma checkpid_item_cases:
  assumes "checkpid_item S k item s = Inr (rc, s')"
  obtains (same) es where "rc = 0" "s' = s\<lparr>pm_out := es\<rparr>"
  | (killed) e where "rc = 0" "s' = (act e s)\<lparr>pm_procs := zh_delete k (pm_procs s)\<rparr>"
  | (gone) e proc where "rc = 0" "item = Some proc"
      "s' = (act e s)\<lparr>pm_procs := zh_modify k (Some (proc\<lparr>pr_on_restart := True\<rparr>)) (pm_procs s)\<rparr>"
proof -
  note id = same [of "pm_out s"]
  show ?thesis
  proof (cases "pm_stop_all s")
    case True
    with assms id show ?thesis by (auto simp: checkpid_item_def)
  next
    case False
    then obtain proc where proc: "item = Some proc" using assms by (auto simp: checkpid_item_def res_simps)
    show ?thesis
    proof (cases "pr_on_restart proc")
      case True
      with assms id False proc show ?thesis by (auto simp: checkpid_item_def deref_def)
    next
      case ready: False
      obtain late where late: "start_late S proc = Inr late"
        using assms False proc ready by (auto simp: checkpid_item_def deref_def res_simps)
      show ?thesis
      proof (cases late)
        case True
        with assms False proc ready late killed show ?thesis by (auto simp: checkpid_item_def deref_def)
      next
        case ok: False
        obtain fname where fname: "sprintf_buf 256 (''/proc/'' @ k @ ''/cmdline'') = Inr fname"
          using assms False proc ready late ok by (auto simp: checkpid_item_def deref_def res_simps)
        note run = assms False proc ready late ok fname
        consider "\<not> os_access S fname" | "os_access S fname" "\<not> pr_started proc"
          | s1 where "os_access S fname" "pr_started proc" "check_memory S k proc s = Inr s1"
          using run by (auto simp: checkpid_item_def deref_def res_simps split: if_splits)
        then show ?thesis
        proof cases
          case 1
          with run gone show ?thesis by (auto simp: checkpid_item_def deref_def)
        next
          case 2
          with run id show ?thesis by (auto simp: checkpid_item_def deref_def)
        next
          case 3
          with run check_memory_procs [OF 3(3)] same show ?thesis by (auto simp: checkpid_item_def deref_def)
        qed
      qed
    qed
  qed
qed

lemma checkpid_item_ok:
  assumes "pm_ok conf s" and "zh_lookup k (pm_procs s) = Some item" and "checkpid_item S k item s = Inr (rc, s')"
  shows "pm_ok conf s'"
  using assms(3)
proof (cases rule: checkpid_item_cases)
  case (same es)
  with assms(1) show ?thesis by simp
next
  case (killed e)
  with pm_ok_delete [of conf "act e s" k] assms(1) show ?thesis by simp
next
  case (gone e proc)
  have "wf_entry conf k (Some (proc\<lparr>pr_on_restart := True\<rparr>))"
    by (rule wf_entry_update [of _ _ proc]) (use assms(1,2) gone(2) in \<open>auto simp: pm_ok_def\<close>)
  with pm_ok_modify [of conf "act e s" k] assms(1) gone(3) show ?thesis by simp
qed

interpretation watching: iteration pm_procs "checkpid_item S" "pm_ok conf" for S conf
  by unfold_locales (rule checkpid_item_ok)

interpretation killing: iteration pm_procs killall_item "pm_ok conf" for conf
  by unfold_locales (auto simp: killall_item_def res_simps Let_def split: if_splits)

lemma restart_process_ok:
  assumes "pm_ok conf s" and "restart_process S spid s = Inr s'"
  shows "pm_ok conf s'"
proof (cases "zh_lookup spid (pm_procs s)")
  case None
  with assms show ?thesis by (simp add: restart_process_def)
next
  case (Some item)
  then obtain proc where proc: "item = Some proc"
    using assms(2) by (auto simp: restart_process_def res_simps)
  have "\<exists>ms name. sc_modules conf = Some ms \<and> (name, m) \<in> set ms" if "pr_mod proc = Some m" for m
    using assms(1) Some proc that by (auto simp: pm_ok_def wf_entry_def split: option.splits)
  note m = this
  let ?s = "act (To_Broker [''remove'', spid]) (act (Kill (pid_of spid) 9) (act (Kill (pid_of spid) 3) s))"
  have "start_proc S ((process_new (pr_name proc))\<lparr>pr_mod := pr_mod proc\<rparr>)
      (?s\<lparr>pm_procs := zh_delete spid (pm_procs ?s)\<rparr>) = Inr s'"
    using assms(2) Some proc by (simp add: restart_process_def deref_def Let_def)
  from start_proc_ok [OF _ this] m assms(1) pm_ok_delete [of conf ?s spid] show ?thesis by simp
qed

lemma s_main_event_ok:
  assumes "pm_ok conf s" and "s_main_event S msg s = Inr s'"
  shows "pm_ok conf s'"
proof -
  have reg: "pm_ok conf (register_process spid name s)" for spid name
    using assms(1) by (auto simp: register_process_def process_new_def wf_entry_def intro!: pm_ok_insert)
  have chk: "pm_ok conf s'" if run: "check_pid spid s = Inr s'" for spid s'
  proof (cases "zh_lookup spid (pm_procs s)")
    case None
    with run assms(1) show ?thesis by (auto simp: check_pid_def)
  next
    case (Some item)
    then obtain proc where proc: "item = Some proc" using run by (auto simp: check_pid_def res_simps)
    have "wf_entry conf spid (Some proc)" using assms(1) Some proc unfolding pm_ok_def by blast
    then have "wf_entry conf spid (Some (proc\<lparr>pr_started := True\<rparr>))" by (rule wf_entry_update) simp_all
    from pm_ok_modify [OF assms(1) this] run Some proc show ?thesis
      by (auto simp: check_pid_def deref_def)
  qed
  have kil: "pm_ok conf s'" if "kill_process spid s = Inr s'" for spid s'
    using assms(1) that pm_ok_delete [of conf "act (Kill (pid_of spid) 3) (act (Kill (pid_of spid) 3) s)" spid]
    by (auto simp: kill_process_def res_simps split: option.splits)
  obtain command args where msg: "msg = command # args"
    using assms(2) by (cases msg) (auto simp: s_main_event_def)
  show ?thesis
  proof (cases "command = ''killall''")
    case True
    then consider "s' = s" | rc where "zh_foreach pm_procs killall_item s = Inr (rc, s')"
      using assms(2) by (auto simp: s_main_event_def msg res_simps split: if_splits)
    then show ?thesis using assms(1) killing.foreach_keeps by cases blast+
  next
    case False
    with assms reg chk kil restart_process_ok [OF assms(1)] show ?thesis
      by (auto simp: s_main_event_def msg split: list.splits if_splits)
  qed
qed

lemma checkpid_event_ok:
  assumes "pm_ok conf s" and "checkpid_event S s = Inr s'"
  shows "pm_ok conf s'"
proof (cases "pm_procs s = []")
  case True
  with assms show ?thesis by (simp add: checkpid_event_def)
next
  case False
  then obtain rc where "zh_foreach pm_procs (checkpid_item S) s = Inr (rc, s')"
    using assms(2) by (auto simp: checkpid_event_def res_simps)
  with assms(1) watching.foreach_keeps show ?thesis by blast
qed

lemma pm_reach_ok: "pm_reach conf s \<Longrightarrow> pm_ok conf s"
proof (induction rule: pm_reach.induct)
  case (start S s)
  then show ?case by (rule procman_start_ok)
next
  case (event s S ev s')
  then show ?case
    using s_main_event_ok [of conf s S _ s'] checkpid_event_ok [of conf s S s']
    by (auto simp: pm_handle_def split: pm_event.splits)
next
  case (rehash s procs)
  then show ?case
    using zh_same_lookup [of "pm_procs s" procs] by (auto simp: pm_ok_def zh_same_def)
qed

end
