(* ===== verification/Restart.thy ===== *)
theory Restart
  imports Procman_Facts
begin

text \<open>
  The broker and the process manager together: the restart of a module, the question after a
  pid, a process that ends before it introduces itself, and what goes wrong after a failed
  \<open>fork\<close> or with a process the manager did not start.
\<close>

section \<open>Starting\<close>

text \<open>A successful \<open>fork\<close> with a pid that is not in the table.\<close>

definition forks :: "system \<Rightarrow> procman \<Rightarrow> u64 \<Rightarrow> bool" where
  "forks S s pid \<longleftrightarrow> os_fork S (pm_forks s) = pid \<and> pid \<noteq> 0 \<and> pid \<noteq> -1"

lemma start_proc_forks:
  assumes "forks S s pid" and "zh_lookup (strpid pid) (pm_procs s) = None"
  shows "start_proc S proc s = Inr (s\<lparr>pm_forks := Suc (pm_forks s), pm_procs := zh_insert (strpid pid)
    (Some (proc\<lparr>pr_start := os_now S, pr_pid := pid\<rparr>)) (pm_procs s)\<rparr>)"
proof -
  have "0 < pid" "pid \<noteq> 0" "pid \<noteq> -1" "os_fork S (pm_forks s) = pid"
    using assms(1) word_neq_0_conv [of pid] by (simp_all add: forks_def)
  then show ?thesis by (simp add: start_proc_def Let_def)
qed

lemma start_proc_fails:
  assumes "os_fork S (pm_forks s) = -1" and "zh_lookup ''-1'' (pm_procs s) = None"
  shows "\<exists>s'. start_proc S proc s = Inr s' \<and> zh_lookup ''-1'' (pm_procs s') = Some None \<and>
    pm_stop_all s' = pm_stop_all s"
proof -
  have "0 < (-1 :: u64)" "(-1 :: u64) \<noteq> 0" using word_neq_0_conv [of "-1 :: u64"] by simp_all
  with assms show ?thesis
    by (simp add: start_proc_def Let_def strpid_fail zh_lookup_modify zh_lookup_insert)
qed

section \<open>Freed memory in the table\<close>

definition dangling :: "procman \<Rightarrow> bool" where
  "dangling s \<longleftrightarrow> \<not> pm_stop_all s \<and> zh_lookup ''-1'' (pm_procs s) = Some None"

lemma checkpid_item_zero: "\<forall>k item s rc s'. checkpid_item S k item s = Inr (rc, s') \<longrightarrow> rc = 0"
  by (blast elim: checkpid_item_cases)

lemma checkpid_item_dangling:
  assumes "dangling s" and "zh_lookup k (pm_procs s) = Some item" and "checkpid_item S k item s = Inr (rc, s')"
  shows "dangling s'"
proof -
  have "k \<noteq> ''-1''"
  proof
    assume "k = ''-1''"
    with assms(1,2) have "item = None" by (simp add: dangling_def)
    with assms(1,3) show False by (simp add: dangling_def checkpid_item_def deref_def)
  qed
  note other = this
  show ?thesis
    by (rule checkpid_item_cases [OF assms(3)]) (use assms(1) other in
      \<open>simp_all add: dangling_def zh_lookup_delete zh_lookup_modify\<close>)
qed

interpretation dangling_watch: iteration pm_procs "checkpid_item S" dangling for S
  by unfold_locales (rule checkpid_item_dangling)

lemma dangling_faults: "dangling s \<Longrightarrow> \<not> returns (checkpid_event S s)"
proof
  assume d: "dangling s" and "returns (checkpid_event S s)"
  then obtain rc s' where run: "zh_foreach pm_procs (checkpid_item S) s = Inr (rc, s')"
    by (auto simp: dangling_def checkpid_event_def returns_iff res_simps split: if_splits)
  obtain s1 v r where "dangling s1" "zh_lookup ''-1'' (pm_procs s1) = Some v" "checkpid_item S ''-1'' v s1 = Inr r"
    using dangling_watch.foreach_reaches [OF checkpid_item_zero _ d run, of "''-1''"] by (auto simp: dangling_def)
  then show False by (simp add: dangling_def checkpid_item_def deref_def)
qed

section \<open>A process that was not started here\<close>

text \<open>In debug mode the broker registers a process the manager does not know; when the process
  introduces itself again, it is marked as started, and the next look at its memory limit reads
  the module it does not have.\<close>

definition adopted :: "string \<Rightarrow> procman \<Rightarrow> bool" where
  "adopted k s \<longleftrightarrow> \<not> pm_stop_all s \<and> (\<exists>proc. zh_lookup k (pm_procs s) = Some (Some proc) \<and> pr_mod proc = None \<and>
     pr_started proc \<and> \<not> pr_on_restart proc)"

lemma adopt:
  assumes "zh_lookup k (pm_procs s) = None" and "\<not> pm_stop_all s"
  shows "\<exists>s'. check_pid k (register_process k name s) = Inr s' \<and> adopted k s'"
  using assms by (simp add: register_process_def check_pid_def zh_lookup_insert deref_def adopted_def
      zh_lookup_modify process_new_def)

lemma adopted_item:
  assumes "adopted k s" and "zh_lookup k (pm_procs s) = Some item" and "os_access S (''/proc/'' @ k @ ''/cmdline'')"
  shows "\<not> returns (checkpid_item S k item s)"
  using assms by (cases "length k < 242")
    (auto simp: adopted_def checkpid_item_def deref_def start_late_def sprintf_buf_def check_memory_def)

definition adopted_alive :: "system \<Rightarrow> string \<Rightarrow> procman \<Rightarrow> bool" where
  "adopted_alive S k s \<longleftrightarrow> os_access S (''/proc/'' @ k @ ''/cmdline'') \<and> adopted k s"

lemma checkpid_item_adopted:
  assumes "adopted_alive S k s" and "zh_lookup j (pm_procs s) = Some item" and "checkpid_item S j item s = Inr (rc, s')"
  shows "adopted_alive S k s'"
proof -
  have a: "adopted k s" "os_access S (''/proc/'' @ k @ ''/cmdline'')"
    using assms(1) by (simp_all add: adopted_alive_def)
  have "j \<noteq> k" using adopted_item [OF a(1) _ a(2)] assms(2,3) by auto
  note other = this
  show ?thesis
    by (rule checkpid_item_cases [OF assms(3)]) (use a other in
      \<open>auto simp: adopted_alive_def adopted_def zh_lookup_delete zh_lookup_modify\<close>)
qed

interpretation adopted_watch: iteration pm_procs "checkpid_item S" "adopted_alive S k" for S k
  by unfold_locales (rule checkpid_item_adopted)

lemma adopted_faults:
  assumes "os_access S (''/proc/'' @ k @ ''/cmdline'')" and a: "adopted k s"
  shows "\<not> returns (checkpid_event S s)"
proof
  have al: "adopted_alive S k s" using assms by (simp add: adopted_alive_def)
  have present: "\<forall>s. adopted_alive S k s \<longrightarrow> zh_lookup k (pm_procs s) \<noteq> None"
    by (auto simp: adopted_alive_def adopted_def)
  assume "returns (checkpid_event S s)"
  then obtain rc s' where run: "zh_foreach pm_procs (checkpid_item S) s = Inr (rc, s')"
    using a by (auto simp: adopted_def checkpid_event_def returns_iff res_simps split: if_splits)
  obtain s1 v r where s1: "adopted_alive S k s1" "zh_lookup k (pm_procs s1) = Some v" "checkpid_item S k v s1 = Inr r"
    using adopted_watch.foreach_reaches [OF checkpid_item_zero present al run] by auto
  from adopted_item [of k s1 v S] s1 show False by (simp add: adopted_alive_def)
qed

section \<open>The broker's side\<close>

text \<open>The module is the only one with its pid.\<close>

definition sole_pid :: "string \<Rightarrow> module \<Rightarrow> proxy \<Rightarrow> bool" where
  "sole_pid via mo p \<longleftrightarrow> zh_lookup via (px_modules p) = Some mo \<and> mo_pid mo \<noteq> 0 \<and> int_range (mo_pid mo) \<and>
     mo_spid mo = show_int (mo_pid mo) \<and>
     (\<forall>k mo'. zh_lookup k (px_modules p) = Some mo' \<longrightarrow> mo_pid mo' = mo_pid mo \<longrightarrow> k = via)"

lemma procman_visit:
  assumes "sole_pid via mo p" and "procman_checkpid E c (mo_pid mo) via mo p = Inr (-1, p')"
  shows "via \<in> set ks \<Longrightarrow> zh_visit px_modules (procman_checkpid E c (mo_pid mo)) ks p = Inr (-1, p')"
proof (induction ks)
  case (Cons k ks)
  show ?case
  proof (cases "k = via")
    case True
    with assms show ?thesis by (simp add: sole_pid_def)
  next
    case False
    then have "procman_checkpid E c (mo_pid mo) k mo' p = Inr (0, p)" if "zh_lookup k (px_modules p) = Some mo'" for mo'
      using assms(1) that by (auto simp: sole_pid_def procman_checkpid_def)
    with Cons False show ?thesis by (auto split: option.split)
  qed
qed simp

lemma procman_event_sole:
  assumes "sole_pid via mo p" and "procman_checkpid E c (mo_pid mo) via mo p = Inr (-1, p')"
  shows "s_procman_event E (Some c) (Some (mo_spid mo)) p = Inr p'"
proof -
  have "via \<in> set (zh_keys (px_modules p))" using assms(1) by (simp add: sole_pid_def zh_keys_iff)
  with procman_visit [OF assms this] assms(1) show ?thesis
    by (simp add: s_procman_event_def sole_pid_def atoi_show_int zh_foreach_def)
qed

lemma remove_module_safe:
  assumes inv: "router_inv p" and pr: "printable p" and mo: "zh_lookup via (px_modules p) = Some mo"
  shows "\<exists>p'. procman_checkpid E ''remove'' (mo_pid mo) via mo p = Inr (-1, p') \<and>
    zh_lookup via (px_modules p') = None \<and> (\<forall>a. via \<notin> set (if_locals (px_heap p' a))) \<and> px_out p' = px_out p"
proof -
  have id: "snd (mo_identity mo) = via" using inv mo by (simp add: router_inv_def wf_modules_def)
  obtain p1 where p1: "print_ifaces (forget_identity E (mo_identity mo) p) = Inr p1"
    using print_ifaces_returns [OF printable_forget [OF inv pr, of E "mo_identity mo"]] by (auto simp: returns_iff)
  let ?p = "p1\<lparr>px_modules := zh_delete (snd (mo_identity mo)) (px_modules p1)\<rparr>"
  have "broker_ok (E\<lparr>ev_now := 0\<rparr>) ?p"
    using forget_module_ok [OF _ mo p1, of "E\<lparr>ev_now := 0\<rparr>"] inv by (simp add: broker_ok_def)
  then have "router_inv ?p" by (simp add: broker_ok_def)
  from unregistered_nowhere [OF this, of via] have "\<forall>a. via \<notin> set (if_locals (px_heap ?p a))"
    by (simp add: zh_lookup_delete id)
  moreover have "px_out ?p = px_out p"
    using print_ifaces_frame [OF p1] by (simp add: forget_identity_def split: prod.splits)
  ultimately show ?thesis
    using p1 id by (intro exI [of _ ?p]) (simp add: procman_checkpid_def zh_lookup_delete)
qed

lemma sole_pid_restarting:
  "sole_pid via mo p \<Longrightarrow> sole_pid via (mo\<lparr>mo_state := st\<rparr>) (emit e (p\<lparr>px_modules := zh_modify via (mo\<lparr>mo_state := st\<rparr>) (px_modules p)\<rparr>))"
  by (auto simp: sole_pid_def zh_lookup_modify split: if_splits)

section \<open>The whole cycle\<close>

text \<open>The manager's part: the process is killed, the broker told to forget it, and a new process
  with the same name and the same module is started.\<close>

lemma restart_process_effect:
  assumes "zh_lookup spid (pm_procs s) = Some (Some proc)" and "forks S s pid"
    and "zh_lookup (strpid pid) (pm_procs s) = None"
  shows "\<exists>s'. s_main_event S [''restart'', spid] s = Inr s' \<and>
    pm_out s' = pm_out s @ [Kill (pid_of spid) 3, Kill (pid_of spid) 9, To_Broker [''remove'', spid]] \<and>
    zh_lookup spid (pm_procs s') = None \<and>
    zh_lookup (strpid pid) (pm_procs s') =
      Some (Some ((process_new (pr_name proc))\<lparr>pr_mod := pr_mod proc, pr_start := os_now S, pr_pid := pid\<rparr>))"
proof -
  let ?s = "(act (To_Broker [''remove'', spid]) (act (Kill (pid_of spid) 9) (act (Kill (pid_of spid) 3) s)))
    \<lparr>pm_procs := zh_delete spid (pm_procs s)\<rparr>"
  have "forks S ?s pid" "zh_lookup (strpid pid) (pm_procs ?s) = None"
    using assms(2,3) by (simp_all add: forks_def zh_lookup_delete)
  from start_proc_forks [OF this] assms(1,3) show ?thesis
    by (auto simp: s_main_event_def restart_process_def deref_def Let_def zh_lookup_insert zh_lookup_delete)
qed

text \<open>A process that has gone is noticed: the broker is asked once to restart it.\<close>

lemma gone_noticed:
  assumes "\<not> pm_stop_all s" and "\<not> pr_on_restart proc" and "pr_started proc"
    and "length key < 242" and "\<not> os_access S (''/proc/'' @ key @ ''/cmdline'')"
  shows "checkpid_item S key (Some proc) s = Inr (0, (act (To_Broker [''restart'', key]) s)
    \<lparr>pm_procs := zh_modify key (Some (proc\<lparr>pr_on_restart := True\<rparr>)) (pm_procs s)\<rparr>)"
  using assms by (simp add: checkpid_item_def deref_def start_late_def sprintf_buf_def split: option.split)

lemma crash_cycle:
  assumes inv: "router_inv p" and pr: "printable p" and mo: "sole_pid via mo p" "mo_state mo = IDLE"
    and proc: "zh_lookup (mo_spid mo) (pm_procs s) = Some (Some proc)" "\<not> pm_stop_all s" "\<not> pr_on_restart proc"
      "pr_started proc" "length (mo_spid mo) < 242" "\<not> os_access S (''/proc/'' @ mo_spid mo @ ''/cmdline'')"
    and pid: "os_fork S' (pm_forks s) = pid" "pid \<noteq> 0" "pid \<noteq> -1" "zh_lookup (strpid pid) (pm_procs s) = None"
  shows "\<exists>s1 p1 s2 p2.
    checkpid_item S (mo_spid mo) (Some proc) s = Inr (0, s1) \<and> pm_out s1 = pm_out s @ [To_Broker [''restart'', mo_spid mo]] \<and>
    s_procman_event E (Some ''restart'') (Some (mo_spid mo)) p = Inr p1 \<and>
      px_out p1 = px_out p @ [To_Procman [''restart'', mo_spid mo]] \<and>
    s_main_event S' [''restart'', mo_spid mo] s1 = Inr s2 \<and>
      pm_out s2 = pm_out s1 @ [Kill (pid_of (mo_spid mo)) 3, Kill (pid_of (mo_spid mo)) 9, To_Broker [''remove'', mo_spid mo]] \<and>
    s_procman_event E' (Some ''remove'') (Some (mo_spid mo)) p1 = Inr p2 \<and>
    zh_lookup via (px_modules p2) = None \<and> (\<forall>a. via \<notin> set (if_locals (px_heap p2 a))) \<and>
    zh_lookup (mo_spid mo) (pm_procs s2) = None \<and>
    (\<exists>new. zh_lookup (strpid pid) (pm_procs s2) = Some (Some new) \<and> pr_mod new = pr_mod proc \<and> pr_name new = pr_name proc)"
proof -
  let ?spid = "mo_spid mo" and ?mo = "mo\<lparr>mo_state := RESTARTING\<rparr>"
  let ?s1 = "(act (To_Broker [''restart'', ?spid]) s)
    \<lparr>pm_procs := zh_modify ?spid (Some (proc\<lparr>pr_on_restart := True\<rparr>)) (pm_procs s)\<rparr>"
  let ?p1 = "emit (To_Procman [''restart'', ?spid]) (p\<lparr>px_modules := zh_modify via ?mo (px_modules p)\<rparr>)"
  have 1: "checkpid_item S ?spid (Some proc) s = Inr (0, ?s1)"
    using gone_noticed [OF proc(2-6)] .
  have look: "zh_lookup via (px_modules p) = Some mo" using mo(1) by (simp add: sole_pid_def)
  have 2: "s_procman_event E (Some ''restart'') (Some ?spid) p = Inr ?p1"
    using procman_event_sole [OF mo(1)] mo(2) by (simp add: procman_checkpid_def)
  have "router_inv ?p1"
    using router_inv_modify_module [OF inv look, of ?mo] by simp
  moreover have "printable ?p1" using pr by (simp add: printable_def)
  moreover note sole = sole_pid_restarting [OF mo(1), of RESTARTING "To_Procman [''restart'', ?spid]"]
  then have "zh_lookup via (px_modules ?p1) = Some ?mo" by (simp add: sole_pid_def)
  ultimately obtain p2 where p2: "procman_checkpid E' ''remove'' (mo_pid ?mo) via ?mo ?p1 = Inr (-1, p2)"
      "zh_lookup via (px_modules p2) = None" "\<forall>a. via \<notin> set (if_locals (px_heap p2 a))"
    using remove_module_safe by blast
  have 4: "s_procman_event E' (Some ''remove'') (Some ?spid) ?p1 = Inr p2"
    using procman_event_sole [OF sole p2(1)] by simp
  have "zh_lookup ?spid (pm_procs ?s1) = Some (Some (proc\<lparr>pr_on_restart := True\<rparr>))" "forks S' ?s1 pid"
      "zh_lookup (strpid pid) (pm_procs ?s1) = None"
    using proc(1) pid by (auto simp: zh_lookup_modify forks_def)
  from restart_process_effect [OF this] obtain s2 where s2: "s_main_event S' [''restart'', ?spid] ?s1 = Inr s2"
    "pm_out s2 = pm_out ?s1 @ [Kill (pid_of ?spid) 3, Kill (pid_of ?spid) 9, To_Broker [''remove'', ?spid]]"
    "zh_lookup ?spid (pm_procs s2) = None"
    "\<exists>new. zh_lookup (strpid pid) (pm_procs s2) = Some (Some new) \<and> pr_mod new = pr_mod proc \<and> pr_name new = pr_name proc"
    by (auto simp: process_new_def)
  show ?thesis
    by (intro exI [of _ ?s1] exI [of _ ?p1] exI [of _ s2] exI [of _ p2]) (use 1 2 4 p2 s2 in simp)
qed

section \<open>A process that ends too early\<close>

text \<open>The broker ignores the request for a process that never introduced itself, and the manager
  does not look at that process again.\<close>

lemma unknown_pid_ignored:
  assumes "\<forall>k mo. zh_lookup k (px_modules p) = Some mo \<longrightarrow> mo_pid mo \<noteq> pid" and "int_range pid"
  shows "s_procman_event E (Some c) (Some (show_int pid)) p = Inr p"
proof -
  have "zh_visit px_modules (procman_checkpid E c pid) ks p = Inr (0, p)" for ks
    using assms(1) by (induction ks) (auto simp: procman_checkpid_def split: option.split)
  then show ?thesis
    by (simp add: s_procman_event_def atoi_show_int assms(2) zh_foreach_def)
qed

lemma on_restart_ignored: "pr_on_restart proc \<Longrightarrow> checkpid_item S k (Some proc) s = Inr (0, s)"
  by (simp add: checkpid_item_def deref_def)

section \<open>The question after a pid\<close>

text \<open>
  During an introduction the broker sends \<open>check_pid\<close> and then takes the next two strings of the
  pipe for the answer, whatever they are. \<open>fifo\<close> is what the manager has already sent there.
\<close>

definition sent_strings :: "procman \<Rightarrow> procman \<Rightarrow> string list" where
  "sent_strings s s' = concat (map (\<lambda>e. case e of To_Broker ss \<Rightarrow> ss | _ \<Rightarrow> []) (drop (length (pm_out s)) (pm_out s')))"

definition ask_pid :: "string list \<Rightarrow> string \<Rightarrow> procman \<Rightarrow> (string \<times> string list \<times> procman) res" where
  "ask_pid fifo spid s =
     rbind (check_pid spid s) (\<lambda>s'.
       case fifo @ sent_strings s s' of
         proc_com # proc_answer # rest \<Rightarrow> Inr (proc_answer, rest, s')
       | _ \<Rightarrow> Inl Blocked)"

lemma check_pid_answer:
  assumes "check_pid spid s = Inr s'"
  shows "sent_strings s s' = [''check_pid'', if zh_lookup spid (pm_procs s) = None then ''no'' else ''yes'']"
  using assms by (auto simp: check_pid_def sent_strings_def act_def res_simps split: option.splits)

text \<open>So a command the manager sent before, such as a \<open>restart\<close>, is taken for the answer.\<close>

lemma ask_pid_unknown:
  assumes "zh_lookup spid (pm_procs s) = None"
  shows "ask_pid (c # a # later) spid s =
    Inr (a, later @ [''check_pid'', ''no''], act (To_Broker [''check_pid'', ''no'']) s)"
  using assms by (simp add: ask_pid_def check_pid_def sent_strings_def act_def)

lemma ask_pid_alone:
  assumes "zh_lookup spid (pm_procs s) = None"
  shows "ask_pid [] spid s = Inr (''no'', [], act (To_Broker [''check_pid'', ''no'']) s)"
  using assms by (simp add: ask_pid_def check_pid_def sent_strings_def act_def)

text \<open>The strings left over are later read as a command, which is none the broker knows.\<close>

lemma left_over_ignored:
  "s_procman_event E (Some ''check_pid'') (Some ''no'') p = Inr p"
proof -
  have "atoi ''no'' = Inr 0" by (simp add: atoi_def is_space_def is_digit_def int_res_def int_range_def)
  then show ?thesis by (simp add: s_procman_event_def)
qed

end
