(* ===== verification/Logger.thy ===== *)
theory Logger
  imports Config
begin

text \<open>
  \<^verbatim>\<open>src/logger.c\<close> and \<^verbatim>\<open>src/logger-file.c\<close>: the log functions build a line and send it to a thread,
  which appends it to a file and starts a new file when the old one is large. The text of a
  call is an argument, as \<open>vsprintf\<close> makes it; the time stamp, the size of the file, the results
  of \<open>rename\<close> and \<open>open\<close> are arguments too.
\<close>

section \<open>The line\<close>

definition MSGSZ :: nat where
  "MSGSZ = 1024"

text \<open>The two frames that are sent: \<open>buf\<close> is the time stamp.\<close>

definition log_common :: "string \<Rightarrow> server_config \<Rightarrow> string \<Rightarrow> string \<Rightarrow> string \<Rightarrow> int \<Rightarrow> string \<Rightarrow> string \<Rightarrow> string \<Rightarrow>
    string list" where
  "log_common buf conf actionid identity_from identity_to pid name channel txt =
     [''LOG'', snprintf_str (MSGSZ - 64)
        (buf @ '';'' @ sc_name conf @ '';'' @ actionid @ '';'' @ identity_from @ '';'' @ identity_to @ '';'' @
         show_int pid @ '';'' @ name @ '';'' @ channel @ '';'' @ txt)]"

text \<open>\<open>vsprintf\<close> into a buffer of \<open>MSGSZ-128\<close> bytes, without a check.\<close>

definition formatted :: "string \<Rightarrow> string res" where
  "formatted txt = sprintf_buf (MSGSZ - 128) txt"

definition log_level_text :: "int \<Rightarrow> string \<Rightarrow> string \<Rightarrow> server_config \<Rightarrow> string \<Rightarrow> string \<Rightarrow> string list option res" where
  "log_level_text level channel buf conf name txt =
     (if sc_log_level conf \<ge> level
      then rbind (formatted txt) (\<lambda>message. Inr (Some (log_common buf conf ''-'' ''-'' ''-'' 0 name channel message)))
      else Inr None)"

definition log_info :: "string \<Rightarrow> server_config \<Rightarrow> string \<Rightarrow> string \<Rightarrow> string list option res" where
  "log_info = log_level_text 1 ''INFO''"

definition log_err :: "string \<Rightarrow> server_config \<Rightarrow> string \<Rightarrow> string \<Rightarrow> string list option res" where
  "log_err = log_level_text 0 ''ERR''"

definition log_debug :: "string \<Rightarrow> server_config \<Rightarrow> string \<Rightarrow> string \<Rightarrow> string list option res" where
  "log_debug = log_level_text 9 ''DEBUG''"

definition log_mod :: "string \<Rightarrow> server_config \<Rightarrow> string \<Rightarrow> int \<Rightarrow> string \<Rightarrow> string \<Rightarrow> string list res" where
  "log_mod buf conf name pid identity txt =
     rbind (formatted txt) (\<lambda>message. Inr (log_common buf conf ''-'' identity ''-'' pid name ''MOD'' message))"

definition log_mod_out :: "string \<Rightarrow> server_config \<Rightarrow> string \<Rightarrow> int \<Rightarrow> string \<Rightarrow> string \<Rightarrow> string list" where
  "log_mod_out buf conf name pid identity message = log_common buf conf ''-'' identity ''-'' pid name ''MOD_OUT'' message"

definition log_mod_err :: "string \<Rightarrow> server_config \<Rightarrow> string \<Rightarrow> int \<Rightarrow> string \<Rightarrow> string \<Rightarrow> string list" where
  "log_mod_err buf conf name pid identity message = log_common buf conf ''-'' identity ''-'' pid name ''MOD_ERR'' message"

definition log_msg :: "string \<Rightarrow> server_config \<Rightarrow> string \<Rightarrow> int \<Rightarrow> string \<Rightarrow> string \<Rightarrow> string list" where
  "log_msg buf conf name pid identity message = log_common buf conf ''-'' identity ''-'' pid name ''MSG'' message"

definition log_tnx :: "string \<Rightarrow> server_config \<Rightarrow> string \<Rightarrow> string \<Rightarrow> string \<Rightarrow> string \<Rightarrow> string list res" where
  "log_tnx buf conf actionid identity_from identity_to txt =
     rbind (formatted txt) (\<lambda>message. Inr (log_common buf conf actionid identity_from identity_to 0 ''-'' ''TNX'' message))"

section \<open>The thread\<close>

datatype log_effect =
    Append int string
  | Close int
  | Rename string string
  | Console string

record logger =
  file_count :: int
  f_log :: int
  lg_out :: "log_effect list"

record log_os =
  lo_size :: int
  lo_rename :: "string \<Rightarrow> bool"
  lo_open :: int

definition log_do :: "log_effect list \<Rightarrow> logger \<Rightarrow> logger" where
  "log_do es s = s\<lparr>lg_out := lg_out s @ es\<rparr>"

text \<open>The loop over the numbers of the old files; the result tells whether the file was renamed.\<close>

function roll_file :: "log_os \<Rightarrow> string \<Rightarrow> logger \<Rightarrow> (bool \<times> logger) res" where
  "roll_file L log_file s =
     (if file_count s < 64 then
        rbind (sprintf_buf 256 (log_file @ ''.'' @ show_int (file_count s))) (\<lambda>filename.
          let s1 = s\<lparr>file_count := file_count s + 1\<rparr> in
          if lo_rename L filename then Inr (True, log_do [Rename log_file filename] s1)
          else roll_file L log_file s1)
      else Inr (False, s))"
  by pat_completeness auto
termination
  by (relation "measure (\<lambda>(L, log_file, s). nat (64 - file_count s))") auto

declare roll_file.simps [simp del]

definition size_limit :: "int \<Rightarrow> int res" where
  "size_limit n = (let v = n * 1024 * 1024 in if long_clamp v = v then Inr v else Inl Int_Range)"

definition write_line :: "log_os \<Rightarrow> server_config \<Rightarrow> string \<Rightarrow> logger \<Rightarrow> logger res" where
  "write_line L conf buf s =
     rbind (if sc_log_max_size conf \<noteq> 0
            then rbind (size_limit (sc_log_max_size conf)) (\<lambda>limit. Inr (lo_size L \<ge> limit)) else Inr False) (\<lambda>full.
       if full then
         (if sc_log_method conf = ''roll'' then
            rbind (roll_file L (sc_log_file conf) ((log_do [Close (f_log s)] s)\<lparr>f_log := -1\<rparr>)) (\<lambda>(renamed, s1).
              if renamed then
                let s2 = s1\<lparr>f_log := lo_open L\<rparr> in Inr (if f_log s2 > 0 then log_do [Append (f_log s2) buf] s2 else s2)
              else Inr s1)
          else if sc_log_method conf = ''none'' then Inr (log_do [Append (f_log s) buf] s)
          else Inr s)
       else Inr (log_do [Append (f_log s) buf] s))"

definition logger_thread_event :: "log_os \<Rightarrow> server_config \<Rightarrow> string list option \<Rightarrow> logger \<Rightarrow> logger res" where
  "logger_thread_event L conf msg s =
     (case msg of
        Some (command # txt # _) \<Rightarrow>
          if cstr command = ''LOG'' then
            let buf = snprintf_str (MSGSZ - 2) (cstr txt @ [CHR 0x0D, CHR 0x0A]) in
            rbind (if f_log s > 0 then write_line L conf buf s else Inr s) (\<lambda>s1.
              Inr (if sc_daemon conf = 0 then log_do [Console buf] s1 else s1))
          else Inr s
      | _ \<Rightarrow> Inr s)"

text \<open>The start of the thread: the result of the first \<open>open\<close>.\<close>

definition logger_new :: "int \<Rightarrow> logger" where
  "logger_new fd = \<lparr>file_count = 0, f_log = fd, lg_out = []\<rparr>"

inductive log_reach :: "server_config \<Rightarrow> logger \<Rightarrow> bool" for conf where
  start: "log_reach conf (logger_new fd)"
| event: "log_reach conf s \<Longrightarrow> logger_thread_event L conf msg s = Inr s' \<Longrightarrow> log_reach conf s'"

end
