(* ===== verification/Logger_Facts.thy ===== *)
theory Logger_Facts
  imports Logger
begin

text \<open>
  The log: a line that was sent arrives in the file as a whole, and old files do not overwrite
  each other.
\<close>

section \<open>Lines\<close>

lemma log_common_length: "length (log_common buf conf aid idf idt pid name ch txt ! 1) \<le> 959"
  by (simp add: log_common_def snprintf_str_def MSGSZ_def)

text \<open>What the file must have room for.\<close>

definition below_limit :: "log_os \<Rightarrow> server_config \<Rightarrow> bool" where
  "below_limit L conf \<longleftrightarrow> sc_log_max_size conf = 0 \<or>
     (\<exists>v. size_limit (sc_log_max_size conf) = Inr v \<and> lo_size L < v)"

lemma write_below: "below_limit L conf \<Longrightarrow> write_line L conf buf s = Inr (log_do [Append (f_log s) buf] s)"
  by (auto simp: below_limit_def write_line_def)

lemma line_kept: "length txt \<le> 1019 \<Longrightarrow> snprintf_str (MSGSZ - 2) (txt @ [CHR 0x0D, CHR 0x0A]) = txt @ [CHR 0x0D, CHR 0x0A]"
  by (simp add: snprintf_str_def MSGSZ_def)

section \<open>Old files\<close>

fun renamed :: "log_effect list \<Rightarrow> string list" where
  "renamed [] = []"
| "renamed (Rename a b # es) = b # renamed es"
| "renamed (e # es) = renamed es"

lemma renamed_append [simp]: "renamed (es @ es') = renamed es @ renamed es'"
  by (induction es rule: renamed.induct) auto

definition numbered :: "string \<Rightarrow> int \<Rightarrow> string" where
  "numbered log_file k = log_file @ ''.'' @ show_int k"

lemma numbered_inj: "int_range j \<Longrightarrow> int_range k \<Longrightarrow> numbered f j = numbered f k \<Longrightarrow> j = k"
  using atoi_show_int by (metis append_same_eq numbered_def old.sum.inject(2) same_append_eq)

definition old_files_ok :: "server_config \<Rightarrow> logger \<Rightarrow> bool" where
  "old_files_ok conf s \<longleftrightarrow> 0 \<le> file_count s \<and> file_count s \<le> 64 \<and> distinct (renamed (lg_out s)) \<and>
     set (renamed (lg_out s)) \<subseteq> numbered (sc_log_file conf) ` {0..<file_count s}"

lemma old_files_do [simp]: "renamed es = [] \<Longrightarrow> old_files_ok conf (log_do es s) = old_files_ok conf s"
  by (simp add: old_files_ok_def log_do_def)

lemma old_files_fd [simp]: "old_files_ok conf (s\<lparr>f_log := fd\<rparr>) = old_files_ok conf s"
  by (simp add: old_files_ok_def)

lemma roll_file_ok: "old_files_ok conf s \<Longrightarrow> roll_file L (sc_log_file conf) s = Inr (b, s') \<Longrightarrow> old_files_ok conf s'"
proof (induction L "sc_log_file conf" s rule: roll_file.induct)
  case (1 L s)
  show ?case
  proof (cases "file_count s < 64")
    case False
    with 1(2,3) show ?thesis by (simp add: roll_file.simps [of L _ s])
  next
    case less: True
    let ?k = "file_count s" and ?f = "numbered (sc_log_file conf) (file_count s)" and ?s1 = "s\<lparr>file_count := file_count s + 1\<rparr>"
    have fits: "sprintf_buf 256 (sc_log_file conf @ ''.'' @ show_int ?k) = Inr ?f"
      using 1(3) less by (auto simp: roll_file.simps [of L _ s] numbered_def res_simps)
    have fewer: "{0..<?k} \<subseteq> {0..<?k + 1}" "?k \<in> {0..<?k + 1}" using 1(2) by (auto simp: old_files_ok_def)
    have s1: "old_files_ok conf ?s1"
      using 1(2) less image_mono [OF fewer(1)] by (auto simp: old_files_ok_def)
    show ?thesis
    proof (cases "lo_rename L ?f")
      case True
      have range: "int_range j" if "j \<in> {0..<?k + 1}" for j using that less by (simp add: int_range_def)
      have "?f \<notin> numbered (sc_log_file conf) ` {0..<?k}"
      proof
        assume "?f \<in> numbered (sc_log_file conf) ` {0..<?k}"
        then obtain j where j: "j \<in> {0..<?k}" "?f = numbered (sc_log_file conf) j" by blast
        from numbered_inj [OF range range j(2)] j(1) fewer have "?k = j" by simp
        with j(1) show False by simp
      qed
      then have "?f \<notin> set (renamed (lg_out s))" using 1(2) unfolding old_files_ok_def by blast
      then have "old_files_ok conf (log_do [Rename (sc_log_file conf) ?f] ?s1)"
        using 1(2) s1 fewer(2) by (simp add: old_files_ok_def log_do_def)
      with 1(3) less fits True show ?thesis by (simp add: roll_file.simps [of L _ s])
    next
      case False
      with 1(3) less fits have rest: "roll_file L (sc_log_file conf) ?s1 = Inr (b, s')"
        by (simp add: roll_file.simps [of L _ s])
      show ?thesis by (rule 1(1) [OF less fits refl False s1 rest])
    qed
  qed
qed

lemma write_line_ok: "old_files_ok conf s \<Longrightarrow> write_line L conf buf s = Inr s' \<Longrightarrow> old_files_ok conf s'"
proof -
  assume ok: "old_files_ok conf s" and run: "write_line L conf buf s = Inr s'"
  have "old_files_ok conf s2" if "roll_file L (sc_log_file conf) ((log_do [Close (f_log s)] s)\<lparr>f_log := -1\<rparr>) = Inr (b, s2)" for b s2
    using roll_file_ok [OF _ that] ok by simp
  with ok run show ?thesis
    by (auto simp: write_line_def Let_def res_simps split: if_splits)
qed

lemma logger_thread_event_ok:
  assumes "old_files_ok conf s" and "logger_thread_event L conf msg s = Inr s'"
  shows "old_files_ok conf s'"
  using assms write_line_ok [of conf s L]
  by (auto simp: logger_thread_event_def Let_def res_simps split: option.splits list.splits if_splits)

lemma log_reach_ok: "log_reach conf s \<Longrightarrow> old_files_ok conf s"
proof (induction rule: log_reach.induct)
  case (start fd)
  show ?case by (simp add: old_files_ok_def logger_new_def)
next
  case (event s L msg s')
  then show ?case using logger_thread_event_ok by blast
qed

text \<open>A full file is closed and renamed, and the line goes into the new one.\<close>

lemma full_file_rolled:
  assumes "sc_log_max_size conf \<noteq> 0" and "size_limit (sc_log_max_size conf) = Inr v" and "v \<le> lo_size L"
    and "sc_log_method conf = ''roll''" and "file_count s < 64" and "length (numbered (sc_log_file conf) (file_count s)) < 256"
    and "lo_rename L (numbered (sc_log_file conf) (file_count s))" and "0 < lo_open L"
  shows "write_line L conf buf s = Inr (s\<lparr>file_count := file_count s + 1, f_log := lo_open L,
    lg_out := lg_out s @ [Close (f_log s), Rename (sc_log_file conf) (numbered (sc_log_file conf) (file_count s)), Append (lo_open L) buf]\<rparr>)"
  using assms by (simp add: write_line_def roll_file.simps [of L _ "_\<lparr>f_log := -1\<rparr>"] numbered_def sprintf_buf_def log_do_def Let_def)

text \<open>Once no number is left, the file log has ended: nothing is appended any more.\<close>

fun appended :: "log_effect list \<Rightarrow> string list" where
  "appended [] = []"
| "appended (Append fd b # es) = b # appended es"
| "appended (e # es) = appended es"

lemma appended_append [simp]: "appended (es @ es') = appended es @ appended es'"
  by (induction es rule: appended.induct) auto

lemma closed_for_ever:
  assumes "f_log s \<le> 0" and "logger_thread_event L conf msg s = Inr s'"
  shows "f_log s' = f_log s \<and> appended (lg_out s') = appended (lg_out s)"
  using assms by (auto simp: logger_thread_event_def Let_def log_do_def split: option.splits list.splits if_splits)

lemma numbers_used_up:
  assumes "sc_log_max_size conf \<noteq> 0" and "size_limit (sc_log_max_size conf) = Inr v" and "v \<le> lo_size L"
    and "sc_log_method conf = ''roll''" and "64 \<le> file_count s"
  shows "write_line L conf buf s = Inr (s\<lparr>f_log := -1, lg_out := lg_out s @ [Close (f_log s)]\<rparr>)"
  using assms by (simp add: write_line_def roll_file.simps [of L _ "_\<lparr>f_log := -1\<rparr>"] log_do_def)

end
