(* ===== verification/Startup_Facts.thy ===== *)
theory Startup_Facts
  imports Startup Timeouts
begin

text \<open>
  The endpoint a broker binds is the one another broker reads out of its beacon; at the end
  every module is told to stop before the processes are killed.
\<close>

section \<open>The endpoint\<close>

lemma show_int_no_at: "CHR ''@'' \<notin> set (show_int i)"
proof
  assume "CHR ''@'' \<in> set (show_int i)"
  then have "CHR ''@'' \<in> set (show_nat (nat i)) \<or> CHR ''@'' \<in> set (show_nat (nat (- i)))"
    by (simp add: show_int_def split: if_splits)
  then obtain d where d: "d < 10" "CHR ''@'' = digit_char d" using show_nat_digits by blast
  from digit_char_facts(1) [OF d(1)] have "is_digit (CHR ''@'')" unfolding d(2) .
  then show False by (simp add: is_digit_def)
qed

lemma bind_global_endpoint:
  "bind_global bind ip port = Inr (Some ep) \<Longrightarrow> bind ep \<and> length ep < 64 \<and> ep \<noteq> [] \<and> (CHR ''@'' \<notin> set ip \<longrightarrow> CHR ''@'' \<notin> set ep)"
proof (induction bind ip port rule: bind_global.induct)
  case (1 bind ip port)
  let ?e = "''tcp://'' @ ip @ '':'' @ show_int port"
  have le: "port \<le> DYNTO" using 1(2) by (auto simp: bind_global.simps [of _ _ port] split: if_splits)
  have fits: "sprintf_buf 64 ?e = Inr ?e"
    using 1(2) le by (auto simp: bind_global.simps [of _ _ port] res_simps)
  show ?case
  proof (cases "bind ?e")
    case True
    then have "ep = ?e" using 1(2) le fits by (simp add: bind_global.simps [of _ _ port])
    with True fits show_int_no_at [of port] show ?thesis by (auto simp: res_simps)
  next
    case False
    then have "bind_global bind ip (port + 1) = Inr (Some ep)"
      using 1(2) le fits by (simp add: bind_global.simps [of _ _ port])
    from 1(1) [OF le fits False this] show ?thesis .
  qed
qed

lemma beacon_read:
  assumes "length ep < 64" and "ep \<noteq> []" and "CHR ''@'' \<notin> set ep"
  shows "beacon_name ep = Inr (''ModBus'' @ ''@'' @ ep)"
    "fab_new a (''ModBus'' @ ''@'' @ ep) = Some \<lparr>fb_identity = (a, ep), fb_peer = False, fb_alive = False\<rparr>"
  using assms fab_new_beacon [of "''ModBus''" ep a] by (simp_all add: beacon_name_def sprintf_buf_def)

text \<open>The thread publishes the endpoint it is told, and passes on every complete beacon.\<close>

lemma beacon_thread_publishes:
  assumes "length ep < 64" and "ep \<noteq> []" and "CHR ''@'' \<notin> set ep"
  shows "\<exists>es. beacon_thread (Some ip) (Some ep) beacons = Inr es \<and> Bc_Publish (''ModBus'' @ ''@'' @ ep) 128 \<in> set es \<and>
    (\<forall>a m. (Some a, Some m) \<in> set beacons \<longrightarrow> Bc_Pipe a \<in> set es \<and> Bc_Pipe m \<in> set es)"
  using beacon_read(1) [OF assms] by (force simp: beacon_thread_def s_beacon_outer_event_def)

section \<open>The end\<close>

definition told :: "mobj \<Rightarrow> string \<Rightarrow> proxy \<Rightarrow> proxy \<Rightarrow> bool" where
  "told ob identity p p' \<longleftrightarrow> (\<exists>pre es post. px_out p' = px_out p @ pre @ es @ post \<and> sends ob identity es)"

lemma told_later: "told ob i p p1 \<Longrightarrow> more_out p1 p2 \<Longrightarrow> told ob i p p2"
  unfolding told_def more_out_def by (metis append.assoc)

lemma told_earlier: "more_out p p1 \<Longrightarrow> told ob i p1 p2 \<Longrightarrow> told ob i p p2"
  unfolding told_def more_out_def by (metis append.assoc)

lemma stopall_item_effect:
  assumes "stopall_item E k mo p = Inr (rc, p')"
  shows "rc = 0 \<and> px_modules p' = px_modules p \<and> px_fabs p' = px_fabs p \<and> more_out p p' \<and>
    (\<exists>aid ob. message_stop (Some aid) = Some ob \<and> told ob (snd (mo_identity mo)) p p')"
proof -
  obtain aid p1 where g: "getActionid E p = (aid, p1)" by fastforce
  then have p1: "px_out p1 = px_out p" "px_modules p1 = px_modules p" "px_fabs p1 = px_fabs p"
    by (auto simp: getActionid_def)
  obtain ob where ob: "message_stop (Some aid) = Some ob" by (simp add: message_stop_def)
  obtain p2 where s: "send_message (Some ob) (snd (mo_identity mo)) p1 = Inr p2" and p': "rc = 0" "p' = p2"
    using assms g ob by (auto simp: stopall_item_def res_simps)
  obtain es where es: "p2 = p1\<lparr>px_out := px_out p1 @ es\<rparr>" "sends ob (snd (mo_identity mo)) es"
    using send_message_effect [OF s] by blast
  then have "px_out p' = px_out p @ [] @ es @ []" by (simp add: p' p1)
  with es(2) have "told ob (snd (mo_identity mo)) p p'" unfolding told_def by blast
  moreover have "more_out p p'" using es p1 p' by (auto simp: more_out_def)
  ultimately show ?thesis using ob es(1) p1 p' by auto
qed

lemma stopall_visit:
  assumes "zh_visit px_modules (stopall_item E) ks p = Inr (rc, p')"
  shows "px_modules p' = px_modules p \<and> px_fabs p' = px_fabs p \<and> more_out p p' \<and>
    (\<forall>k mo. k \<in> set ks \<longrightarrow> zh_lookup k (px_modules p) = Some mo \<longrightarrow>
      (\<exists>aid ob. message_stop (Some aid) = Some ob \<and> told ob (snd (mo_identity mo)) p p'))"
  using assms
proof (induction ks arbitrary: p)
  case Nil
  then show ?case by simp
next
  case (Cons k ks)
  show ?case
  proof (cases "zh_lookup k (px_modules p)")
    case None
    with Cons show ?thesis by auto
  next
    case (Some mo)
    obtain rc1 p1 where item: "stopall_item E k mo p = Inr (rc1, p1)"
      using Cons.prems Some by (auto simp: res_simps)
    note e = stopall_item_effect [OF item]
    then have rest: "zh_visit px_modules (stopall_item E) ks p1 = Inr (rc, p')"
      using Cons.prems Some item by simp
    note IH = Cons.IH [OF rest]
    have later: "\<exists>aid ob. message_stop (Some aid) = Some ob \<and> told ob (snd (mo_identity mo)) p p'"
      using e IH told_later by blast
    have others: "\<exists>aid ob. message_stop (Some aid) = Some ob \<and> told ob (snd (mo_identity mo')) p p'"
      if "j \<in> set ks" "zh_lookup j (px_modules p) = Some mo'" for j mo'
    proof -
      have "zh_lookup j (px_modules p1) = Some mo'" using that e by simp
      with IH that(1) obtain aid ob where "message_stop (Some aid) = Some ob" "told ob (snd (mo_identity mo')) p1 p'"
        by blast
      with e told_earlier show ?thesis by blast
    qed
    have "more_out p p'" using e IH more_out_trans by blast
    with e IH later others Some show ?thesis by auto
  qed
qed

lemma closefabs_foreach:
  assumes "zh_foreach px_fabs closefabs_item p = Inr (rc, p')"
  shows "more_out p p'"
proof -
  have "zh_visit px_fabs closefabs_item ks p = Inr (rc, p') \<Longrightarrow> more_out p p'" for ks p
  proof (induction ks arbitrary: p)
    case (Cons k ks)
    show ?case
    proof (cases "zh_lookup k (px_fabs p)")
      case (Some fab)
      let ?p = "if fb_peer fab then emit (Disconnect (snd (fb_identity fab))) p else p"
      have "more_out ?p p'" using Cons Some by (simp add: closefabs_item_def)
      moreover have "more_out p ?p" by simp
      ultimately show ?thesis using more_out_trans by blast
    qed (use Cons in simp)
  qed simp
  with assms show ?thesis by (simp add: zh_foreach_def)
qed

lemma finalize_effect:
  assumes run: "finalize E False p = Inr p'" and mo: "zh_lookup k (px_modules p) = Some mo"
  shows "\<exists>aid ob pre es post. message_stop (Some aid) = Some ob \<and> sends ob (snd (mo_identity mo)) es \<and>
    px_out p' = px_out p @ [To_Procman [''stop_all'']] @ pre @ es @ post \<and> To_Procman [''killall''] \<in> set post"
proof -
  let ?p1 = "emit (To_Procman [''stop_all'']) p"
  have mo1: "zh_lookup k (px_modules ?p1) = Some mo" "px_modules ?p1 \<noteq> []" using mo by auto
  obtain rc p2 rc3 where v: "zh_foreach px_modules (stopall_item E) ?p1 = Inr (rc, p2)"
    and c: "zh_foreach px_fabs closefabs_item (emit (To_Procman [''killall'']) p2) = Inr (rc3, p')"
    using run mo1(2) by (auto simp: finalize_def Let_def res_simps)
  have "k \<in> set (zh_keys (px_modules ?p1))" using mo1(1) zh_keys_iff [of k "px_modules ?p1"] by simp
  with stopall_visit [OF v [unfolded zh_foreach_def]] mo1(1) obtain aid ob where
    ob: "message_stop (Some aid) = Some ob" and t: "told ob (snd (mo_identity mo)) ?p1 p2" by blast
  then obtain pre es post where out: "px_out p2 = px_out ?p1 @ pre @ es @ post" "sends ob (snd (mo_identity mo)) es"
    unfolding told_def by blast
  obtain more where "px_out p' = px_out (emit (To_Procman [''killall'']) p2) @ more"
    using closefabs_foreach [OF c] unfolding more_out_def by blast
  then have "px_out p' = px_out p @ [To_Procman [''stop_all'']] @ pre @ es @ (post @ [To_Procman [''killall'']] @ more)"
    using out(1) by (simp add: emit_def)
  with ob out(2) show ?thesis by (intro exI conjI) auto
qed

text \<open>The end is reached when every module can be addressed.\<close>

lemma finalize_returns:
  assumes "\<forall>k mo. zh_lookup k (px_modules p) = Some mo \<longrightarrow> hex_identity (snd (mo_identity mo)) \<or> length (snd (mo_identity mo)) > 10"
  shows "returns (finalize E b p)"
proof -
  have item: "\<exists>p'. stopall_item E k mo q = Inr (0, p') \<and> px_modules p' = px_modules q"
    if q: "px_modules q = px_modules p" "zh_lookup k (px_modules q) = Some mo" for k mo q
  proof -
    obtain aid q1 where g: "getActionid E q = (aid, q1)" by fastforce
    obtain ob where ob: "message_stop (Some aid) = Some ob" by (simp add: message_stop_def)
    have "returns (send_message (Some ob) (snd (mo_identity mo)) q1)"
      using assms q send_message_returns by metis
    then obtain q2 where "stopall_item E k mo q = Inr (0, q2)"
      by (auto simp: stopall_item_def g ob returns_iff)
    with stopall_item_effect [OF this] show ?thesis by blast
  qed
  have visit: "px_modules q = px_modules p \<Longrightarrow> \<exists>p'. zh_visit px_modules (stopall_item E) ks q = Inr (0, p')" for ks q
  proof (induction ks arbitrary: q)
    case (Cons k ks)
    show ?case
    proof (cases "zh_lookup k (px_modules q)")
      case (Some mo)
      from item [OF Cons.prems this] obtain q1 where "stopall_item E k mo q = Inr (0, q1)" "px_modules q1 = px_modules q"
        by blast
      with Cons Some show ?thesis by simp
    qed (use Cons in simp)
  qed simp
  have close: "\<exists>p'. zh_visit px_fabs closefabs_item ks q = Inr (0, p')" for ks q
    by (induction ks arbitrary: q) (auto simp: closefabs_item_def split: option.split)
  obtain p2 where "zh_foreach px_modules (stopall_item E) (emit (To_Procman [''stop_all'']) p) = Inr (0, p2)"
    using visit [of "emit (To_Procman [''stop_all'']) p"] by (auto simp: zh_foreach_def)
  moreover obtain p3 where "zh_foreach px_fabs closefabs_item (emit (To_Procman [''killall'']) p2) = Inr (0, p3)"
    using close unfolding zh_foreach_def by blast
  moreover obtain p4 where "zh_foreach px_fabs closefabs_item (emit (To_Procman [''killall'']) (emit (To_Procman [''stop_all'']) p)) = Inr (0, p4)"
    using close unfolding zh_foreach_def by blast
  ultimately show ?thesis by (simp add: finalize_def Let_def)
qed

end
