(* ===== verification/Bringup.thy ===== *)
theory Bringup
  imports Startup
begin

text \<open>
  The program around the broker: \<open>main\<close>, \<open>daemonize\<close>, the pid file, the owner of the socket file and the
  signal handlers of \<^verbatim>\<open>src/modbusd.c\<close>. What the operating system answers is a record of parameters; the
  calls that change something outside the process are appended to \<open>mc_calls\<close>, and the pid files are
  a map from paths to contents.
\<close>

section \<open>The operating system\<close>

text \<open>\<open>bs_fork\<close> is what \<open>fork\<close> returns in the process that is followed, 0 in the child.\<close>

record os =
  bs_file :: "string \<Rightarrow> string option"
  bs_ppid :: int
  bs_uid :: int
  bs_euid :: int
  bs_pid :: int
  bs_user :: "string \<Rightarrow> int option"
  bs_group :: "string \<Rightarrow> int option"
  bs_fork :: int
  bs_setsid :: int
  bs_interrupted :: bool
  bs_open :: bool
  bs_testable :: bool
  bs_lock :: bool
  bs_stat :: bool
  bs_sigchld :: "bool option"

datatype sys_call =
    Set_Interface string
  | Set_Uid int
  | Trap string
  | Alarm nat
  | Pauses
  | Umask int
  | Redirect string
  | Chmod string i32
  | Chown string int int
  | Unlink string

record machine =
  mc_files :: "string \<rightharpoonup> string"
  mc_calls :: "sys_call list"

definition os_calls :: "sys_call list \<Rightarrow> machine \<Rightarrow> machine" where
  "os_calls cs mc = mc\<lparr>mc_calls := mc_calls mc @ cs\<rparr>"

text \<open>A step goes on with a result, or the process exits with a code, or it faults.\<close>

datatype 'a boot = Goes 'a | Ends int | Faults fault

definition EXIT_SUCCESS :: int where "EXIT_SUCCESS = 0"
definition EXIT_FAILURE :: int where "EXIT_FAILURE = 1"

section \<open>Signals\<close>

text \<open>\<open>True\<close> is \<open>SIGCHLD\<close>.\<close>

definition parent_handler :: "bool \<Rightarrow> int" where
  "parent_handler sigchld = (if sigchld then EXIT_SUCCESS else EXIT_FAILURE)"

definition s_signal_handler :: "env \<Rightarrow> bool \<Rightarrow> proxy \<Rightarrow> proxy res" where
  "s_signal_handler E interrupted p = finalize E interrupted p"

section \<open>The pid file\<close>

text \<open>The file is created exclusively; a process that exits later leaves it.\<close>

definition pid_file_step :: "os \<Rightarrow> int \<Rightarrow> server_config \<Rightarrow> machine \<Rightarrow> unit boot \<times> machine" where
  "pid_file_step S pid conf mc =
     (let created = (bs_open S \<and> mc_files mc (sc_pid_file conf) = None);
          mc1 = (if created then mc\<lparr>mc_files := (mc_files mc)(sc_pid_file conf \<mapsto> [])\<rparr> else mc)
      in case createPidFile created (bs_testable S) (bs_lock S) pid of
           Inl Exits \<Rightarrow> (Ends 1, mc1)
         | Inl f \<Rightarrow> (Faults f, mc1)
         | Inr buf \<Rightarrow> (Goes (), mc1\<lparr>mc_files := (mc_files mc1)(sc_pid_file conf \<mapsto> buf)\<rparr>))"

text \<open>At the end \<open>finalize\<close> removes it, unless the context was interrupted before.\<close>

definition remove_pid_file :: "bool \<Rightarrow> server_config \<Rightarrow> machine \<Rightarrow> machine" where
  "remove_pid_file interrupted conf mc =
     (if interrupted then mc
      else os_calls [Unlink (sc_pid_file conf)] (mc\<lparr>mc_files := (mc_files mc)(sc_pid_file conf := None)\<rparr>))"

section \<open>The daemon\<close>

text \<open>\<open>finalize\<close> before the broker exists: the static \<open>proxy\<close> is still \<open>NULL\<close>.\<close>

definition finalize_early :: "os \<Rightarrow> unit boot" where
  "finalize_early S = (if bs_interrupted S then Ends 0 else Faults Null_Deref)"

definition drop_user :: "os \<Rightarrow> server_config \<Rightarrow> machine \<Rightarrow> machine" where
  "drop_user S conf mc =
     (if (bs_uid S = 0 \<or> bs_euid S = 0) \<and> sc_runas conf \<noteq> []
      then (case bs_user S (sc_runas conf) of Some uid \<Rightarrow> os_calls [Set_Uid uid] mc | None \<Rightarrow> mc)
      else mc)"

text \<open>The parent waits for a signal, which the handler turns into its exit code.\<close>

definition daemonize :: "os \<Rightarrow> server_config \<Rightarrow> machine \<Rightarrow> unit boot \<times> machine" where
  "daemonize S conf mc =
     (if bs_ppid S = 1 then (Goes (), mc)
      else
        let mc1 = os_calls [Trap ''SIGCHLD'', Trap ''SIGUSR1'', Trap ''SIGALRM''] (drop_user S conf mc) in
        if bs_fork S < 0 then (Ends EXIT_FAILURE, mc1)
        else if bs_fork S > 0 then
          (Ends (case bs_sigchld S of Some sigchld \<Rightarrow> parent_handler sigchld | None \<Rightarrow> EXIT_SUCCESS),
           os_calls [Alarm 2, Pauses] mc1)
        else (case pid_file_step S (bs_pid S) conf mc1 of
            (Goes u, mc2) \<Rightarrow>
              let mc3 = os_calls [Umask 0] mc2 in
              if bs_setsid S < 0 then (finalize_early S, mc3)
              else (Goes (), os_calls [Redirect ''stdin'', Redirect ''stdout'', Redirect ''stderr''] mc3)
          | r \<Rightarrow> r))"

section \<open>The socket file\<close>

definition own_socket :: "os \<Rightarrow> server_config \<Rightarrow> machine \<Rightarrow> machine" where
  "own_socket S conf mc =
     (let mc1 = (if bs_stat S then os_calls [Chmod (sc_socket_file conf) (sc_socket_mode conf)] mc else mc) in
      case (bs_group S (sc_socket_group conf), bs_user S (sc_socket_user conf)) of
        (Some gid, Some uid) \<Rightarrow>
          if bs_uid S = 0 then os_calls [Chown (sc_socket_file conf) uid gid] mc1 else mc1
      | _ \<Rightarrow> mc1)"

definition trap_signals :: "machine \<Rightarrow> machine" where
  "trap_signals mc =
     os_calls [Trap ''SIGHUP'', Trap ''SIGINT'', Trap ''SIGQUIT'', Trap ''SIGABRT'', Trap ''SIGTERM''] mc"

section \<open>The program\<close>

text \<open>The exit code of a broker that returns from \<open>execute\<close> without its reactor is -1.\<close>

definition run_execute :: "os \<Rightarrow> (string \<Rightarrow> bool) \<Rightarrow> string option \<Rightarrow> bool \<Rightarrow> bool \<Rightarrow> server_config \<Rightarrow> machine \<Rightarrow>
    reactor boot \<times> machine" where
  "run_execute S bind self_ip local_new local_bind conf mc =
     (let mc1 = trap_signals mc in
      case execute bind self_ip local_new local_bind conf of
        Inl Exits \<Rightarrow> (Ends EXIT_FAILURE, mc1)
      | Inl f \<Rightarrow> (Faults f, mc1)
      | Inr None \<Rightarrow> (Ends (-1), mc1)
      | Inr (Some r) \<Rightarrow> (Goes r, own_socket S conf mc1))"

definition main :: "string list \<Rightarrow> os \<Rightarrow> (string \<Rightarrow> bool) \<Rightarrow> string option \<Rightarrow> bool \<Rightarrow> bool \<Rightarrow> machine \<Rightarrow>
    reactor boot \<times> machine" where
  "main argv S bind self_ip local_new local_bind mc =
     (case argv of
        [] \<Rightarrow> (Ends (-1), mc)
      | file # _ \<Rightarrow>
          if file = [] then (Ends (-1), mc)
          else (case config_new (bs_file S file) of
              Inl f \<Rightarrow> (Faults f, mc)
            | Inr conf \<Rightarrow>
                let mc1 = os_calls [Set_Interface (sc_iface conf)] mc in
                (case (if sc_daemon conf \<noteq> 0 then daemonize S conf mc1
                       else pid_file_step S (bs_pid S) conf mc1) of
                   (Goes u, mc2) \<Rightarrow> run_execute S bind self_ip local_new local_bind conf mc2
                 | (Ends rc, mc2) \<Rightarrow> (Ends rc, mc2)
                 | (Faults f, mc2) \<Rightarrow> (Faults f, mc2))))"

end
