(* ===== verification/Bringup_Facts.thy ===== *)
theory Bringup_Facts
  imports Bringup
begin

text \<open>
  What the pid file does for the start of the program: a second broker with the same file does not
  come up, the file goes at the end, and a start that failed leaves it.
\<close>

text \<open>The process that is followed makes the pid file: no daemon, or the child of the fork. A daemon
  started by \<open>init\<close> itself makes none.\<close>

definition makes_pid_file :: "os \<Rightarrow> server_config \<Rightarrow> bool" where
  "makes_pid_file S conf \<longleftrightarrow> sc_daemon conf = 0 \<or> bs_ppid S \<noteq> 1 \<and> bs_fork S = 0"

text \<open>The step of \<open>main\<close> between the configuration and the broker.\<close>

definition prepare :: "os \<Rightarrow> server_config \<Rightarrow> machine \<Rightarrow> unit boot \<times> machine" where
  "prepare S conf mc =
     (let mc1 = os_calls [Set_Interface (sc_iface conf)] mc in
      if sc_daemon conf \<noteq> 0 then daemonize S conf mc1 else pid_file_step S (bs_pid S) conf mc1)"

lemma main_prepare:
  assumes "file \<noteq> []" and "config_new (bs_file S file) = Inr conf"
  shows "main (file # args) S bind self_ip local_new local_bind mc =
    (case prepare S conf mc of
       (Goes u, mc2) \<Rightarrow> run_execute S bind self_ip local_new local_bind conf mc2
     | (Ends rc, mc2) \<Rightarrow> (Ends rc, mc2)
     | (Faults f, mc2) \<Rightarrow> (Faults f, mc2))"
  using assms by (simp add: main_def prepare_def Let_def split: boot.split prod.split)

lemma os_calls_files [simp]: "mc_files (os_calls cs mc) = mc_files mc"
  by (simp add: os_calls_def)

lemma own_socket_files [simp]: "mc_files (own_socket S conf mc) = mc_files mc"
  by (simp add: own_socket_def Let_def split: option.split)

lemma drop_user_files [simp]: "mc_files (drop_user S conf mc) = mc_files mc"
  by (simp add: drop_user_def split: option.split)

lemma run_execute_files: "mc_files (snd (run_execute S bind self_ip local_new local_bind conf mc)) = mc_files mc"
  by (simp add: run_execute_def trap_signals_def Let_def split: sum.split fault.split option.split)

lemma pid_file_step_cases:
  "pid_file_step S pid conf mc =
     (if bs_open S \<and> mc_files mc (sc_pid_file conf) = None then
        if bs_testable S \<and> bs_lock S
        then (Goes (), mc\<lparr>mc_files := (mc_files mc)(sc_pid_file conf \<mapsto> snprintf_str 10 (show_int pid))\<rparr>)
        else (Ends 1, mc\<lparr>mc_files := (mc_files mc)(sc_pid_file conf \<mapsto> [])\<rparr>)
      else (Ends 1, mc))"
  by (auto simp: pid_file_step_def createPidFile_def Let_def)

lemma prepare_goes:
  assumes "prepare S conf mc = (Goes u, mc2)" and "makes_pid_file S conf"
  shows "mc_files mc (sc_pid_file conf) = None \<and>
    mc_files mc2 = (mc_files mc)(sc_pid_file conf \<mapsto> snprintf_str 10 (show_int (bs_pid S)))"
  using assms
  by (auto simp: prepare_def makes_pid_file_def daemonize_def pid_file_step_cases finalize_early_def Let_def split: if_splits)

lemma prepare_blocked:
  assumes "mc_files mc (sc_pid_file conf) \<noteq> None" and "makes_pid_file S conf"
  shows "\<exists>mc2. prepare S conf mc = (Ends 1, mc2) \<and> mc_files mc2 = mc_files mc"
  using assms
  by (auto simp: prepare_def makes_pid_file_def daemonize_def pid_file_step_cases Let_def)

text \<open>A start with a pid file that exists ends with the code 1, and changes no file.\<close>

lemma main_blocked:
  assumes "file \<noteq> []" and "config_new (bs_file S file) = Inr conf" and "makes_pid_file S conf"
    and "mc_files mc (sc_pid_file conf) \<noteq> None"
  shows "\<exists>mc'. main (file # args) S bind self_ip local_new local_bind mc = (Ends 1, mc') \<and> mc_files mc' = mc_files mc"
  using main_prepare [OF assms(1,2)] prepare_blocked [OF assms(4,3)] by auto

lemma main_started:
  assumes "file \<noteq> []" and "config_new (bs_file S file) = Inr conf" and "makes_pid_file S conf"
    and "main (file # args) S bind self_ip local_new local_bind mc = (Goes r, mc')"
  shows "mc_files mc (sc_pid_file conf) = None \<and>
    mc_files mc' = (mc_files mc)(sc_pid_file conf \<mapsto> snprintf_str 10 (show_int (bs_pid S)))"
proof -
  obtain u mc2 where "prepare S conf mc = (Goes u, mc2)"
    and "run_execute S bind self_ip local_new local_bind conf mc2 = (Goes r, mc')"
    using assms(4) unfolding main_prepare [OF assms(1,2)]
    by (cases "fst (prepare S conf mc)"; cases "prepare S conf mc") auto
  with prepare_goes [OF _ assms(3)] run_execute_files [of S bind self_ip local_new local_bind conf mc2] show ?thesis
    by simp
qed

text \<open>A start that ends in \<open>execute\<close>.\<close>

lemma main_failed:
  assumes "file \<noteq> []" and "config_new (bs_file S file) = Inr conf" and "makes_pid_file S conf"
    and "mc_files mc (sc_pid_file conf) = None" and "bs_open S" "bs_testable S" "bs_lock S" "0 \<le> bs_setsid S"
    and "execute bind self_ip local_new local_bind conf \<in> {Inr None, Inl Exits}"
  shows "\<exists>rc mc'. main (file # args) S bind self_ip local_new local_bind mc = (Ends rc, mc') \<and> rc \<noteq> 0 \<and>
    mc_files mc' (sc_pid_file conf) \<noteq> None"
proof -
  have "\<exists>mc2. prepare S conf mc = (Goes (), mc2) \<and> mc_files mc2 (sc_pid_file conf) \<noteq> None"
    using assms(3-8)
    by (auto simp: prepare_def makes_pid_file_def daemonize_def pid_file_step_cases Let_def)
  then obtain mc2 where mc2: "prepare S conf mc = (Goes (), mc2)" "mc_files mc2 (sc_pid_file conf) \<noteq> None" by blast
  have "\<exists>rc mc'. run_execute S bind self_ip local_new local_bind conf mc2 = (Ends rc, mc') \<and> rc \<noteq> 0"
    using assms(9) by (auto simp: run_execute_def EXIT_FAILURE_def Let_def)
  with mc2 run_execute_files [of S bind self_ip local_new local_bind conf mc2] show ?thesis
    unfolding main_prepare [OF assms(1,2)] by auto
qed

text \<open>The code of the parent: failure when the daemon lived for two seconds, success when it died.\<close>

lemma daemon_exit_code:
  assumes "bs_ppid S \<noteq> 1" and "bs_fork S > 0" and "bs_sigchld S = Some died"
  shows "fst (daemonize S conf mc) = Ends (if died then EXIT_SUCCESS else EXIT_FAILURE)"
  using assms by (simp add: daemonize_def Let_def parent_handler_def)

text \<open>A daemon that cannot make its session calls \<open>finalize\<close> before there is a broker.\<close>

lemma no_session_faults:
  assumes "bs_ppid S \<noteq> 1" and "bs_fork S = 0" and "mc_files mc (sc_pid_file conf) = None"
    and "bs_open S" "bs_testable S" "bs_lock S" and "bs_setsid S < 0" and "\<not> bs_interrupted S"
  shows "fst (daemonize S conf mc) = Faults Null_Deref"
  using assms by (simp add: daemonize_def pid_file_step_cases finalize_early_def Let_def)

text \<open>Under \<open>init\<close> there is no pid file, but one is removed at the end.\<close>

lemma init_daemon_files:
  assumes "bs_ppid S = 1" and "sc_daemon conf \<noteq> 0"
  shows "\<exists>mc2. prepare S conf mc = (Goes (), mc2) \<and> mc_files mc2 = mc_files mc"
    "mc_files (remove_pid_file False conf mc) (sc_pid_file conf) = None"
  using assms by (simp_all add: prepare_def daemonize_def Let_def remove_pid_file_def)

end
