(* ===== verification/Setup_Properties.thy ===== *)
theory Setup_Properties
  imports Config_Facts Restart Scenario Logger_Facts Startup_Facts Bringup_Facts
begin

text \<open>
  The properties of the configuration, of the process manager, of start and end and of the log,
  with an example of each: a configuration file, a table of processes, and the state of the
  broker of \<^verbatim>\<open>Scenario\<close>.
\<close>

section \<open>Examples\<close>

definition demo_file :: string where
  "demo_file = ''[server]'' @ LF # ''in_timeout=250'' @ LF # ''out_timeout=50'' @ LF # ''process_timeout=60'' @ LF #
     ''modlist_poll=70'' @ LF # ''name=\"bus\" ; the name'' @ [LF]"

lemma demo_config: "\<exists>c. config_new (Some demo_file) = Inr c"
proof -
  have "returns (config_new (Some demo_file))" by code_simp
  then show ?thesis by (simp add: returns_iff)
qed

definition demo_module :: config_module where
  "demo_module = module_zero\<lparr>cm_name := ''calc'', cm_path := ''./calc'', cm_instances := 1, cm_start_timeout := 10\<rparr>"

definition demo_conf :: server_config where
  "demo_conf = config_zero\<lparr>sc_modules := Some [(''calc'', demo_module)]\<rparr>"

text \<open>A system with a given clock and a given result of every \<open>fork\<close>; the processes all exist, or
  none.\<close>

definition demo_system :: "int \<Rightarrow> u64 \<Rightarrow> bool \<Rightarrow> system" where
  "demo_system now pid alive = \<lparr>os_now = now, os_fork = (\<lambda>n. pid),
     os_access = (\<lambda>f. alive \<or> take 6 f \<noteq> ''/proc/''), os_chdir = (\<lambda>f. True),
     os_statm = (\<lambda>f. Some (1, 100)), os_pagesize = 4096\<rparr>"

definition demo_process :: process where
  "demo_process = (process_new ''calc'')\<lparr>pr_mod := Some demo_module, pr_instance := 1, pr_start := 1000, pr_pid := 4711\<rparr>"

definition demo_procs :: procman where
  "demo_procs = (procman_new demo_conf)\<lparr>pm_procs := [(''4711'', Some demo_process)], pm_forks := 1\<rparr>"

lemma demo_strpid: "strpid 4711 = ''4711''" "strpid 4712 = ''4712''"
  by (simp_all add: strpid_def show_int_def show_nat.simps digit_chars)

lemma demo_start: "procman_start (demo_system 1000 4711 True) demo_conf = Inr demo_procs"
proof -
  have "0 < (4711 :: u64)" "(4711 :: u64) \<noteq> -1" "(4711 :: u64) \<noteq> 0" by simp_all
  then show ?thesis
    by (simp add: procman_start_def demo_conf_def startall_item_def demo_module_def demo_system_def module_zero_def
        config_zero_def start_proc_def process_new_def procman_new_def demo_procs_def demo_process_def Let_def
        demo_strpid zh_insert_def zh_lookup_def upto.simps)
qed

section \<open>The configuration\<close>

text \<open>C20: Reading a setting agrees with a reference that works on the list of lines: the lines of
  the first section of that name, up to the next one, are searched for the first entry with
  the key, its value is freed of comment, blanks and quotes, and the default taken if there is
  none; names are compared without regard to case.\<close>

theorem setting_reference:
  assumes "0 < n" and "is_cstr sec" and "is_cstr key"
  shows "ini_gets (Some sec) (Some key) (Some def) (int n) file =
    Inr (Some (case (case file of None \<Rightarrow> None | Some fp \<Rightarrow>
        map_option (\<lambda>sp. clip n (entry_value sp)) (find (entry_for key) (section_lines sec (file_lines fp)))) of
      Some v \<Rightarrow> v | None \<Rightarrow> take (n - 1) def))"
  unfolding ini_gets_eq [OF assms] ini_string_def ini_value_def by (cases "file") simp_all

theorem setting_reference_witness:
  "ini_gets (Some ''SERVER'') (Some ''Name'') (Some ''x'') 256 (Some demo_file) = Inr (Some ''bus'')"
proof -
  have "ini_gets (Some ''SERVER'') (Some ''Name'') (Some ''x'') (int 256) (Some demo_file) =
    Inr (Some (case (case Some demo_file of None \<Rightarrow> None | Some fp \<Rightarrow>
        map_option (\<lambda>sp. clip 256 (entry_value sp)) (find (entry_for ''Name'') (section_lines ''SERVER'' (file_lines fp)))) of
      Some v \<Rightarrow> v | None \<Rightarrow> take (256 - 1) ''x''))"
    by (rule setting_reference) (simp_all add: is_cstr_def)
  also have "\<dots> = Inr (Some ''bus'')" by code_simp
  finally show ?thesis by simp
qed

text \<open>A value that is quoted the way \<open>save_strncpy\<close> quotes it is read back unchanged, whatever
  comment signs, quotes and blanks it contains.\<close>

theorem quoted_setting_roundtrip:
  assumes "save_strncpy s n QUOTE_ENQUOTE = Inr q" and "length (enq s) + 3 \<le> n" and "length s < m"
    and "short_line (CHR ''['' # sec @ '']'')" and "sec \<noteq> []" and "CHR '']'' \<notin> set sec"
    and "good_key key" and "short_line (key @ CHR ''='' # q)"
  shows "ini_gets (Some sec) (Some key) (Some def) (int m)
    (Some ((CHR ''['' # sec @ '']'') @ LF # (key @ CHR ''='' # q) @ LF # rest)) = Inr (Some s)"
proof -
  have "is_cstr sec" "is_cstr key" "0 < m"
    using assms(3,4,7) by (auto simp: short_line_def good_key_def is_cstr_def)
  then show ?thesis
    using ini_gets_eq [of m sec key def] first_setting [OF assms(4-8), of m rest] quoted_value(2) [OF assms(1-3)]
    by (simp add: ini_string_def)
qed

theorem quoted_setting_roundtrip_witness:
  "ini_gets (Some ''server'') (Some ''name'') (Some []) (int 64)
    (Some (''[server]'' @ LF # ''name='' @ CHR 0x22 # '' a;b '' @ CHR 0x5C # CHR 0x22 # CHR 0x22 # LF # ''name=c'')) =
   Inr (Some ('' a;b '' @ [CHR 0x22]))"
proof -
  let ?q = "CHR 0x22 # '' a;b '' @ [CHR 0x5C, CHR 0x22, CHR 0x22]"
  have q: "save_strncpy ('' a;b '' @ [CHR 0x22]) 64 QUOTE_ENQUOTE = Inr ?q" by code_simp
  have key: "good_key ''name''"
    by (simp add: good_key_def is_cstr_def blank_def char_int_def Let_def)
  show ?thesis
    using quoted_setting_roundtrip [OF q _ _ _ _ _ key, of 64 "''server''" "[]" "''name=c''"]
    by (simp add: short_line_def is_cstr_def)
qed

text \<open>C33: Browsing a file returns, whatever the file and the callback are: the loop over the lines
  reads each of them into what the name of the section leaves of the buffer, and that is
  never less than two bytes.\<close>

theorem browsing_returns: "\<exists>r. ini_browse cb file s = Some (Inr r)"
proof (cases "cb = None \<or> file = None")
  case True
  then show ?thesis by (auto simp: ini_browse_def split: option.split)
next
  case False
  then obtain f fp where "cb = Some f" "file = Some fp" by auto
  moreover obtain s' where "browse_loop f [] fp s = Some (Inr s')"
    using browse_loop_returns [of "[]"] by force
  ultimately show ?thesis by (simp add: ini_browse_def)
qed

text \<open>C26: Every string of a configuration that was read fits into its array with the terminating
  0, also those of the modules, and a module has at most nine instances.\<close>

theorem configuration_fits: "config_new file = Inr c \<Longrightarrow> config_fits c"
proof -
  assume run: "config_new file = Inr c"
  have zero: "config_fits config_zero"
    by (simp add: config_zero_def config_fits_def strings_fit_def modules_fit_def)
  have "\<forall>fl s sec c c'. read_section fl s sec c = Inr c' \<longrightarrow> config_fits c \<longrightarrow> config_fits c'"
    using read_section_fits by blast
  from read_sections_invariant [of "\<lambda>fl. config_fits", OF this run [unfolded config_new_def] zero] show ?thesis .
qed

theorem configuration_fits_witness: "\<exists>c. config_new (Some demo_file) = Inr c \<and> config_fits c"
  using demo_config configuration_fits by blast

text \<open>C25: The timeouts the broker works with are the numbers in the section \<open>server\<close> of the file, or
  1000, 1000 and 10000 where it has none.\<close>

theorem configured_timeouts:
  assumes "config_new (Some fp) = Inr c" and "k < section_count (Some fp)" and "section_at (Some fp) k = Inr ''server''"
  shows "server_int fp ''in_timeout'' ''1000'' = Inr (cf_in_timeout (broker_config c)) \<and>
    server_int fp ''out_timeout'' ''1000'' = Inr (cf_out_timeout (broker_config c)) \<and>
    server_int fp ''process_timeout'' ''10000'' = Inr (cf_process_timeout (broker_config c))"
  using config_new_timeouts [OF assms] by (simp add: timeouts_read_def broker_config_def)

theorem configured_timeouts_witness:
  "\<exists>c. config_new (Some demo_file) = Inr c \<and> cf_in_timeout (broker_config c) = 250"
proof -
  obtain c where c: "config_new (Some demo_file) = Inr c" using demo_config by blast
  have "0 < section_count (Some demo_file)" "section_at (Some demo_file) 0 = Inr ''server''" by code_simp+
  from configured_timeouts [OF c this]
  have "server_int demo_file ''in_timeout'' ''1000'' = Inr (cf_in_timeout (broker_config c))" ..
  moreover have "server_int demo_file ''in_timeout'' ''1000'' = Inr 250" by code_simp
  ultimately show ?thesis using c by auto
qed

section \<open>The process manager\<close>

text \<open>C21: In every state that the process manager reaches, an entry of its table is a process
  under its own pid with a module of the configuration, or a process registered by the
  broker, without a module; only under the number -1 there can be freed memory.\<close>

theorem managed_processes:
  assumes "pm_reach conf s" and "zh_lookup k (pm_procs s) = Some item"
  shows "case item of None \<Rightarrow> k = ''-1''
    | Some proc \<Rightarrow> \<forall>m. pr_mod proc = Some m \<longrightarrow> k = strpid (pr_pid proc) \<and> pr_pid proc \<noteq> 0 \<and>
        (\<exists>ms name. sc_modules conf = Some ms \<and> (name, m) \<in> set ms)"
  using pm_reach_ok [OF assms(1)] assms(2) by (simp add: pm_ok_def wf_entry_def)

theorem managed_processes_witness: "''4711'' = strpid (pr_pid demo_process)"
  using managed_processes [OF pm_reach.start [OF demo_start], of "''4711''" "Some demo_process"]
  by (simp add: demo_procs_def zh_lookup_def demo_process_def)




text \<open>C34: After a failed \<open>fork\<close> the process that was freed is in the table, and the next look at the
  processes, at the latest, reads it.\<close>

theorem failed_fork_fatal:
  assumes "os_fork S (pm_forks s) = -1" and "zh_lookup ''-1'' (pm_procs s) = None" and "\<not> pm_stop_all s"
  shows "\<exists>s'. start_proc S proc s = Inr s' \<and> zh_lookup ''-1'' (pm_procs s') = Some None \<and>
    (\<forall>S'. \<not> returns (checkpid_event S' s'))"
  using start_proc_fails [OF assms(1,2), of proc] assms(3) dangling_faults
  by (auto simp: dangling_def)

theorem failed_fork_fatal_witness:
  "\<exists>s'. start_proc (demo_system 1000 (-1) True) demo_process (procman_new demo_conf) = Inr s' \<and>
    \<not> returns (checkpid_event (demo_system 1010 7 True) s')"
  using failed_fork_fatal [of "demo_system 1000 (-1) True" "procman_new demo_conf" demo_process]
  by (auto simp: demo_system_def procman_new_def)

text \<open>A module whose process ends before it has introduced itself is never started again: the
  broker knows no module with that pid and ignores the request, and the manager, which has
  marked the process, does not look at it any more.\<close>

theorem early_end_not_restarted:
  assumes "zh_lookup (show_int pid) (pm_procs s) = Some (Some proc)" and "\<not> pm_stop_all s"
    and "\<not> pr_on_restart proc" and "\<not> pr_started proc" and "start_late S proc = Inr False"
    and "\<not> os_access S (''/proc/'' @ show_int pid @ ''/cmdline'')" and "length (show_int pid) < 242" and "int_range pid"
    and "\<forall>k mo. zh_lookup k (px_modules p) = Some mo \<longrightarrow> mo_pid mo \<noteq> pid"
  shows "\<exists>s1 proc1. checkpid_item S (show_int pid) (Some proc) s = Inr (0, s1) \<and>
    pm_out s1 = pm_out s @ [To_Broker [''restart'', show_int pid]] \<and>
    s_procman_event E (Some ''restart'') (Some (show_int pid)) p = Inr p \<and>
    zh_lookup (show_int pid) (pm_procs s1) = Some (Some proc1) \<and>
    (\<forall>S' s2. checkpid_item S' (show_int pid) (Some proc1) s2 = Inr (0, s2))"
  using unknown_pid_ignored [OF assms(9,8)] assms(1-7)
  by (auto simp: checkpid_item_def deref_def sprintf_buf_def zh_lookup_modify)

theorem early_end_not_restarted_witness:
  "\<exists>s1. checkpid_item (demo_system 1500 0 False) ''4711'' (Some demo_process) demo_procs = Inr (0, s1) \<and>
    s_procman_event (demo_env 5) (Some ''restart'') (Some ''4711'') proxy_new = Inr proxy_new"
proof -
  have k: "show_int 4711 = ''4711''" using demo_strpid(1) by (simp add: strpid_def)
  have "zh_lookup ''4711'' (pm_procs demo_procs) = Some (Some demo_process)" "\<not> pm_stop_all demo_procs"
    "\<not> pr_on_restart demo_process" "\<not> pr_started demo_process" "start_late (demo_system 1500 0 False) demo_process = Inr False"
    "\<not> os_access (demo_system 1500 0 False) (''/proc/'' @ ''4711'' @ ''/cmdline'')"
    by (simp_all add: demo_procs_def procman_new_def zh_lookup_def demo_process_def process_new_def start_late_def
        demo_system_def demo_module_def module_zero_def int_res_def int_range_def)
  from early_end_not_restarted [of 4711, unfolded k, OF this, of proxy_new "demo_env 5"] show ?thesis
    by (auto simp: int_range_def proxy_new_def)
qed

text \<open>The broker takes the next two strings of the pipe for the answer to \<open>check_pid\<close>. If the
  manager has just sent a command there, a process it does not know is accepted, and the true
  answer is left behind and read as a command, which has no effect.\<close>

theorem check_pid_race:
  assumes "zh_lookup spid (pm_procs s) = None" and "a \<noteq> ''no''" and "\<not> cf_debug (ev_conf E)"
  shows "\<exists>s'. check_pid spid s = Inr s' \<and>
    ask_pid [] spid s = Inr (''no'', [], s') \<and> pid_accepted E (Some ''no'') = Inr False \<and>
    ask_pid [c, a] spid s = Inr (a, [''check_pid'', ''no''], s') \<and> pid_accepted E (Some a) = Inr True \<and>
    s_procman_event E (Some ''check_pid'') (Some ''no'') p = Inr p"
  using assms ask_pid_alone [OF assms(1)] ask_pid_unknown [OF assms(1), of c a "[]"] left_over_ignored
  by (simp add: check_pid_def pid_accepted_def)

theorem check_pid_race_witness:
  "\<exists>s'. ask_pid [''restart'', ''4711''] ''9'' demo_procs = Inr (''4711'', [''check_pid'', ''no''], s') \<and>
    pid_accepted ((demo_env 5)\<lparr>ev_conf := (ev_conf (demo_env 5))\<lparr>cf_debug := False\<rparr>\<rparr>) (Some ''4711'') = Inr True"
proof -
  have "zh_lookup ''9'' (pm_procs demo_procs) = None" by (simp add: demo_procs_def zh_lookup_def)
  from check_pid_race [OF this, of "''4711''" "(demo_env 5)\<lparr>ev_conf := (ev_conf (demo_env 5))\<lparr>cf_debug := False\<rparr>\<rparr>" "''restart''"]
  show ?thesis by auto
qed

text \<open>A process the manager did not start itself, registered in debug mode, brings the manager
  down when it introduces itself a second time: it is then marked as started, and its memory
  limit is looked up in the module it does not have.\<close>

theorem adopted_process_fatal:
  assumes "zh_lookup spid (pm_procs s) = None" and "\<not> pm_stop_all s"
    and "os_access S (''/proc/'' @ spid @ ''/cmdline'')"
  shows "\<exists>s'. check_pid spid (register_process spid name s) = Inr s' \<and> \<not> returns (checkpid_event S s')"
  using adopt [OF assms(1,2)] adopted_faults [OF assms(3)] by blast

theorem adopted_process_fatal_witness:
  "\<exists>s'. check_pid ''9'' (register_process ''9'' ''x'' demo_procs) = Inr s' \<and>
    \<not> returns (checkpid_event (demo_system 5 0 True) s')"
  by (rule adopted_process_fatal) (simp_all add: demo_procs_def procman_new_def zh_lookup_def demo_system_def)

section \<open>Start and end\<close>

text \<open>C32: A broker with the global mode on announces an endpoint that it has bound, and another broker
  that receives the beacon enters it as a fabric under just this endpoint.\<close>

theorem announced_endpoint_known:
  assumes "execute bind (Some ip) local_new local_bind conf = Inr (Some r)" and "sc_global conf \<noteq> 0"
    and "CHR ''@'' \<notin> set ip"
  shows "\<exists>ep name. re_endpoint r = Some ep \<and> bind ep \<and> beacon_name ep = Inr name \<and>
    (\<forall>addr connect p. zh_lookup ep (px_fabs p) = None \<longrightarrow> connect ep \<longrightarrow>
      (\<exists>p'. s_beacon_event connect (Some addr) (Some name) p = Inr p' \<and>
        zh_lookup ep (px_fabs p') = Some \<lparr>fb_identity = (px_next p, ep), fb_peer = True, fb_alive = True\<rparr>))"
proof -
  obtain ep where ep: "bind_global bind ip DYNFROM = Inr (Some ep)" "re_endpoint r = Some ep"
    using assms(1,2) by (auto simp: execute_def res_simps split: if_splits option.splits)
  note e = bind_global_endpoint [OF ep(1)]
  have read: "beacon_name ep = Inr (''ModBus'' @ ''@'' @ ep)"
    "fab_new a (''ModBus'' @ ''@'' @ ep) = Some \<lparr>fb_identity = (a, ep), fb_peer = False, fb_alive = False\<rparr>" for a
    using beacon_read [of ep] e assms(3) by blast+
  have "\<exists>p'. s_beacon_event connect (Some addr) (Some (''ModBus'' @ ''@'' @ ep)) p = Inr p' \<and>
      zh_lookup ep (px_fabs p') = Some \<lparr>fb_identity = (px_next p, ep), fb_peer = True, fb_alive = True\<rparr>"
    if "zh_lookup ep (px_fabs p) = None" "connect ep" for addr connect p
    using that read(2) [of "px_next p"] by (simp add: s_beacon_event_def Let_def zh_lookup_insert)
  with ep(2) read(1) e show ?thesis by blast
qed

theorem announced_endpoint_known_witness:
  "\<exists>r name. execute (\<lambda>e. True) (Some ''10.0.0.7'') True True (config_zero\<lparr>sc_global := 1\<rparr>) = Inr (Some r) \<and>
    re_endpoint r = Some ''tcp://10.0.0.7:49152'' \<and> beacon_name ''tcp://10.0.0.7:49152'' = Inr name"
proof -
  have port: "show_int DYNFROM = ''49152''" by (simp add: show_int_def DYNFROM_def show_nat.simps digit_chars)
  have "bind_global (\<lambda>e. True) ''10.0.0.7'' DYNFROM = Inr (Some ''tcp://10.0.0.7:49152'')"
    by (simp add: bind_global.simps [of _ _ DYNFROM] port sprintf_buf_def) (simp add: DYNFROM_def DYNTO_def)
  then obtain r where r: "execute (\<lambda>e. True) (Some ''10.0.0.7'') True True (config_zero\<lparr>sc_global := 1\<rparr>) = Inr (Some r)"
    "re_endpoint r = Some ''tcp://10.0.0.7:49152''"
    by (simp add: execute_def)
  from announced_endpoint_known [OF r(1)] r show ?thesis by (simp add: config_zero_def) blast
qed

text \<open>When the broker ends, every registered module is sent a stop message, after the process manager
  was told that processes that end are not to be restarted, and before it is told to kill
  them.\<close>

theorem shutdown_tells_modules:
  assumes "reach W p" and "\<forall>k mo. zh_lookup k (px_modules p) = Some mo \<longrightarrow> sendable k"
    and "zh_lookup k (px_modules p) = Some mo"
  shows "\<exists>p' aid ob pre es post. finalize E False p = Inr p' \<and> message_stop (Some aid) = Some ob \<and> sends ob k es \<and>
    px_out p' = px_out p @ [To_Procman [''stop_all'']] @ pre @ es @ post \<and> To_Procman [''killall''] \<in> set post"
proof -
  have id: "snd (mo_identity mo') = k'" if "zh_lookup k' (px_modules p) = Some mo'" for k' mo'
    using reach_ok [OF assms(1)] that by (simp add: router_inv_def wf_modules_def)
  then have "returns (finalize E False p)"
    using assms(2) by (intro finalize_returns) (auto simp: sendable_def)
  then obtain p' where "finalize E False p = Inr p'" by (auto simp: returns_iff)
  with finalize_effect [OF this assms(3)] id [OF assms(3)] show ?thesis by metis
qed

lemma worker_sendable: "sendable ''00ABCD0102''"
  unfolding sendable_def hex_identity_def
  by (intro disjI1 exI [of _ worker_frame])
    (simp add: demo_identities(1) [unfolded demo_strhex_def, symmetric], simp add: worker_frame_def)

theorem shutdown_tells_modules_witness:
  "\<exists>p' ob es. finalize (demo_env 5) False introduced = Inr p' \<and> sends ob ''00ABCD0102'' es \<and> set es \<subseteq> set (px_out p')"
proof -
  have "\<forall>k mo. zh_lookup k (px_modules introduced) = Some mo \<longrightarrow> sendable k"
    using worker_sendable by (simp add: introduced_def zh_lookup_def)
  moreover have "zh_lookup ''00ABCD0102'' (px_modules introduced) = Some worker" by (simp add: introduced_def zh_lookup_def)
  ultimately obtain p' ob pre es post where "finalize (demo_env 5) False introduced = Inr p'" "sends ob ''00ABCD0102'' es"
    "px_out p' = px_out introduced @ [To_Procman [''stop_all'']] @ pre @ es @ post"
    using shutdown_tells_modules [OF reach_introduced] by metis
  then show ?thesis by (intro exI [of _ p'] exI [of _ ob] exI [of _ es]) auto
qed

section \<open>The log\<close>

text \<open>As long as the file is below its limit, a line that a log function builds is appended to it as a
  whole, with carriage return and line feed, whatever the length of the logged text.\<close>

theorem log_line_arrives:
  assumes "0 < f_log s" and "below_limit L conf"
    and "is_cstr (log_common buf conf aid idf idt pid name ch tx ! 1)"
  shows "\<exists>line. log_common buf conf aid idf idt pid name ch tx = [''LOG'', line] \<and>
    logger_thread_event L conf (Some (log_common buf conf aid idf idt pid name ch tx)) s =
      Inr (log_do ([Append (f_log s) (line @ [CHR 0x0D, CHR 0x0A])] @
        (if sc_daemon conf = 0 then [Console (line @ [CHR 0x0D, CHR 0x0A])] else [])) s)"
proof -
  obtain line where line: "log_common buf conf aid idf idt pid name ch tx = [''LOG'', line]"
    by (simp add: log_common_def)
  have "length line \<le> 1019" using log_common_length [of buf conf aid idf idt pid name ch tx] line by simp
  then have kept: "snprintf_str (MSGSZ - 2) (line @ [CHR 0x0D, CHR 0x0A]) = line @ [CHR 0x0D, CHR 0x0A]"
    by (rule line_kept)
  have "cstr line = line" using assms(3) line by simp
  moreover have "cstr ''LOG'' = ''LOG''" by (simp add: cstr_def)
  ultimately show ?thesis using kept assms(1) write_below [OF assms(2)] line
    by (simp add: logger_thread_event_def Let_def log_do_def)
qed

theorem log_line_arrives_witness:
  "\<exists>s'. logger_thread_event \<lparr>lo_size = 0, lo_rename = (\<lambda>f. True), lo_open = 4\<rparr> (config_zero\<lparr>sc_daemon := 1\<rparr>)
     (Some (log_common ''12:00'' (config_zero\<lparr>sc_daemon := 1\<rparr>) ''-'' ''-'' ''-'' 0 ''fabric'' ''INFO'' ''up'')) (logger_new 3) = Inr s' \<and>
    lg_out s' = [Append 3 (''12:00;;-;-;-;0;fabric;INFO;up'' @ [CHR 0x0D, CHR 0x0A])]"
proof -
  let ?c = "config_zero\<lparr>sc_daemon := 1\<rparr>"
  have l: "log_common ''12:00'' ?c ''-'' ''-'' ''-'' 0 ''fabric'' ''INFO'' ''up'' = [''LOG'', ''12:00;;-;-;-;0;fabric;INFO;up'']"
    by (simp add: log_common_def snprintf_str_def MSGSZ_def config_zero_def show_int_def show_nat.simps digit_chars)
  have c: "is_cstr (log_common ''12:00'' ?c ''-'' ''-'' ''-'' 0 ''fabric'' ''INFO'' ''up'' ! 1)"
    unfolding l by (simp add: is_cstr_def)
  have b: "below_limit \<lparr>lo_size = 0, lo_rename = (\<lambda>f. True), lo_open = 4\<rparr> ?c"
    by (simp add: below_limit_def config_zero_def)
  have f: "0 < f_log (logger_new 3)" by (simp add: logger_new_def)
  from log_line_arrives [OF f b c] show ?thesis unfolding l by (simp add: logger_new_def log_do_def)
qed

text \<open>C31: As long as the thread runs, a full log file is never renamed to the name of an older one, and
  there are at most 64 of them.\<close>

theorem old_logs_kept:
  assumes "log_reach conf s"
  shows "distinct (renamed (lg_out s)) \<and> length (renamed (lg_out s)) \<le> 64 \<and>
    set (renamed (lg_out s)) \<subseteq> numbered (sc_log_file conf) ` {0..<64}"
proof -
  have ok: "old_files_ok conf s" by (rule log_reach_ok [OF assms])
  then have sub: "set (renamed (lg_out s)) \<subseteq> numbered (sc_log_file conf) ` {0..<file_count s}" and fc: "file_count s \<le> 64"
    by (simp_all add: old_files_ok_def)
  have "card (set (renamed (lg_out s))) \<le> card {0..<file_count s}"
    using card_mono [OF _ sub] card_image_le [of "{0..<file_count s}" "numbered (sc_log_file conf)"] by (meson finite_atLeastLessThan_int finite_imageI le_trans)
  then have "length (renamed (lg_out s)) \<le> 64"
    using ok fc distinct_card [of "renamed (lg_out s)"] by (simp add: old_files_ok_def)
  moreover have "{0..<file_count s} \<subseteq> {0..<64}" using fc by auto
  ultimately show ?thesis using ok sub by (auto simp: old_files_ok_def)
qed

theorem old_logs_kept_witness:
  "\<exists>s. log_reach (config_zero\<lparr>sc_log_max_size := 1, sc_log_method := ''roll'', sc_log_file := ''a''\<rparr>) s \<and>
    renamed (lg_out s) = [''a.0''] \<and> distinct (renamed (lg_out s))"
proof -
  let ?c = "config_zero\<lparr>sc_log_max_size := 1, sc_log_method := ''roll'', sc_log_file := ''a''\<rparr>"
  let ?L = "\<lparr>lo_size = 2000000, lo_rename = (\<lambda>f. True), lo_open = 4\<rparr>"
  have n: "numbered ''a'' 0 = ''a.0''" by (simp add: numbered_def show_int_def show_nat.simps digit_chars)
  have "write_line ?L ?c buf (logger_new 3) = Inr ((logger_new 3)\<lparr>file_count := 1, f_log := 4,
      lg_out := [Close 3, Rename ''a'' ''a.0'', Append 4 buf]\<rparr>)" for buf
    using full_file_rolled [of ?c 1048576 ?L "logger_new 3" buf] n
    by (simp add: size_limit_def long_clamp_def logger_new_def config_zero_def)
  then obtain s where s: "logger_thread_event ?L ?c (Some [''LOG'', ''x'']) (logger_new 3) = Inr s"
    "renamed (lg_out s) = [''a.0'']"
    by (auto simp: logger_thread_event_def Let_def cstr_def logger_new_def log_do_def)
  from log_reach.event [OF log_reach.start s(1)] have "log_reach ?c s" .
  with old_logs_kept [OF this] s(2) show ?thesis by blast
qed

section \<open>The start of the program\<close>

text \<open>C19: While a broker runs, no second one comes up with the same pid file, and its attempt changes no
  file; when the broker has ended, the files are as they were before it was started.\<close>

theorem one_broker_per_pid_file:
  assumes "file \<noteq> []" and "config_new (bs_file S file) = Inr conf" and "makes_pid_file S conf"
    and "main (file # args) S bind self_ip local_new local_bind mc = (Goes r, mc')"
    and "file' \<noteq> []" and "config_new (bs_file S' file') = Inr conf'" and "makes_pid_file S' conf'"
    and "sc_pid_file conf' = sc_pid_file conf"
  shows "(\<exists>mc''. main (file' # args') S' bind' self_ip' local_new' local_bind' mc' = (Ends 1, mc'') \<and> mc_files mc'' = mc_files mc') \<and>
    mc_files (remove_pid_file False conf mc') = mc_files mc"
proof -
  note start = main_started [OF assms(1-4)]
  then have "mc_files mc' (sc_pid_file conf') \<noteq> None" using assms(8) by simp
  from main_blocked [OF assms(5-7) this] start show ?thesis
    by (auto simp: remove_pid_file_def fun_upd_idem)
qed

text \<open>A child of a daemon, with a file system without pid files.\<close>

definition demo_os :: os where
  "demo_os = \<lparr>bs_file = (\<lambda>f. Some demo_file), bs_ppid = 700, bs_uid = 0, bs_euid = 0, bs_pid = 4711,
     bs_user = (\<lambda>u. None), bs_group = (\<lambda>g. None), bs_fork = 0, bs_setsid = 4711, bs_interrupted = False,
     bs_open = True, bs_testable = True, bs_lock = True, bs_stat = True, bs_sigchld = None\<rparr>"

definition demo_machine :: machine where
  "demo_machine = \<lparr>mc_files = (\<lambda>f. None), mc_calls = []\<rparr>"

lemma demo_execute:
  "\<exists>r. execute (\<lambda>ep. True) (Some ''127.0.0.1'') True True conf = Inr (Some r)"
  "execute (\<lambda>ep. True) (Some ''127.0.0.1'') False False conf = Inr None"
proof -
  have "bind_global (\<lambda>ep. True) ''127.0.0.1'' DYNFROM = Inr (Some ''tcp://127.0.0.1:49152'')"
    by (simp add: bind_global.simps DYNFROM_def DYNTO_def sprintf_buf_def show_int_def show_nat.simps digit_chars)
  then show "\<exists>r. execute (\<lambda>ep. True) (Some ''127.0.0.1'') True True conf = Inr (Some r)"
    "execute (\<lambda>ep. True) (Some ''127.0.0.1'') False False conf = Inr None"
    by (simp_all add: execute_def)
qed

lemma demo_main:
  assumes "config_new (Some demo_file) = Inr conf"
  shows "\<exists>r mc'. main [''f''] demo_os (\<lambda>ep. True) (Some ''127.0.0.1'') True True demo_machine = (Goes r, mc')"
    "config_new (bs_file demo_os ''f'') = Inr conf" "makes_pid_file demo_os conf"
proof -
  show c: "config_new (bs_file demo_os ''f'') = Inr conf" using assms by (simp add: demo_os_def)
  show "makes_pid_file demo_os conf" by (simp add: makes_pid_file_def demo_os_def)
  obtain r where "execute (\<lambda>ep. True) (Some ''127.0.0.1'') True True conf = Inr (Some r)"
    using demo_execute(1) by blast
  moreover have "\<exists>mc2. prepare demo_os conf demo_machine = (Goes (), mc2)"
    by (simp add: prepare_def daemonize_def pid_file_step_cases demo_os_def demo_machine_def drop_user_def os_calls_def Let_def)
  ultimately show "\<exists>r mc'. main [''f''] demo_os (\<lambda>ep. True) (Some ''127.0.0.1'') True True demo_machine = (Goes r, mc')"
    using main_prepare [OF _ c, of "[]"] by (auto simp: run_execute_def Let_def)
qed

theorem one_broker_per_pid_file_witness:
  "\<exists>r mc' mc''. main [''f''] demo_os (\<lambda>ep. True) (Some ''127.0.0.1'') True True demo_machine = (Goes r, mc') \<and>
    main [''f''] demo_os (\<lambda>ep. True) (Some ''127.0.0.1'') True True mc' = (Ends 1, mc'')"
proof -
  obtain conf where conf: "config_new (Some demo_file) = Inr conf" using demo_config by blast
  obtain r mc' where run: "main [''f''] demo_os (\<lambda>ep. True) (Some ''127.0.0.1'') True True demo_machine = (Goes r, mc')"
    using demo_main(1) [OF conf] by blast
  have "[CHR ''f''] \<noteq> []" by simp
  from one_broker_per_pid_file [OF this demo_main(2,3) [OF conf] run this demo_main(2,3) [OF conf] refl] run
  show ?thesis by blast
qed

text \<open>C37: A start that fails after the pid file was made, because no port is free or the local socket
  cannot be bound, leaves the file: every later start with it ends with an error at once, although
  no broker runs.\<close>

theorem failed_start_blocks:
  assumes "file \<noteq> []" and "config_new (bs_file S file) = Inr conf" and "makes_pid_file S conf"
    and "mc_files mc (sc_pid_file conf) = None" and "bs_open S" "bs_testable S" "bs_lock S" "0 \<le> bs_setsid S"
    and "execute bind self_ip local_new local_bind conf \<in> {Inr None, Inl Exits}"
    and "file' \<noteq> []" and "config_new (bs_file S' file') = Inr conf'" and "makes_pid_file S' conf'"
    and "sc_pid_file conf' = sc_pid_file conf"
  shows "\<exists>rc mc' mc''. main (file # args) S bind self_ip local_new local_bind mc = (Ends rc, mc') \<and> rc \<noteq> 0 \<and>
    main (file' # args') S' bind' self_ip' local_new' local_bind' mc' = (Ends 1, mc'')"
proof -
  obtain rc mc' where "main (file # args) S bind self_ip local_new local_bind mc = (Ends rc, mc')" "rc \<noteq> 0"
    and left: "mc_files mc' (sc_pid_file conf) \<noteq> None"
    using main_failed [OF assms(1-9)] by blast
  moreover have "mc_files mc' (sc_pid_file conf') \<noteq> None" using left assms(13) by simp
  from main_blocked [OF assms(10-12) this] obtain mc'' where
    "main (file' # args') S' bind' self_ip' local_new' local_bind' mc' = (Ends 1, mc'')" by blast
  ultimately show ?thesis by blast
qed

theorem failed_start_blocks_witness:
  "\<exists>rc mc' mc''. main [''f''] demo_os (\<lambda>ep. True) (Some ''127.0.0.1'') False False demo_machine = (Ends rc, mc') \<and> rc \<noteq> 0 \<and>
    main [''f''] demo_os (\<lambda>ep. True) (Some ''127.0.0.1'') True True mc' = (Ends 1, mc'')"
proof -
  obtain conf where conf: "config_new (Some demo_file) = Inr conf" using demo_config by blast
  have "[CHR ''f''] \<noteq> []" by simp
  from failed_start_blocks [OF this demo_main(2,3) [OF conf] _ _ _ _ _ _ this demo_main(2,3) [OF conf] refl,
      of demo_machine "\<lambda>ep. True" "Some ''127.0.0.1''" False False "[]" "[]"] demo_execute(2)
  show ?thesis by (simp add: demo_os_def demo_machine_def)
qed

end
