(* ===== verification/Gateway_Properties.thy ===== *)
theory Gateway_Properties
  imports Whole_Call Scenario
begin

text \<open>
  The properties of the FastCGI module, on its own and together with the broker that reads its
  messages, with the request of the address \<open>/call/calc/add/2\<close> as the example.
\<close>

section \<open>Example\<close>

definition demo_env_vars :: "(string \<times> string) list" where
  "demo_env_vars = [(''REQUEST_METHOD'', ''GET''), (''QUERY_STRING'', ''x=1'')]"

definition demo_upstream :: "string \<Rightarrow> string list \<Rightarrow> upstream" where
  "demo_upstream uri envp = \<lparr>up_init = True, up_accept = True, up_uri = Some uri, up_envp = envp, up_sent = True\<rparr>"

definition demo_gateway :: gateway where
  "demo_gateway = reply [Call_Out (introduction 99 ''uuid-0'')] gateway_new"

lemma demo_well_formed: "well_formed (demo_upstream ''/call/calc/add/2'' envp) ''call'' ''calc'' ''add'' 2"
proof -
  have "strtok_all (CHR ''/'') ''call/calc/add/2'' = [''call'', ''calc'', ''add'', ''2'']" by code_simp
  moreover have "atoi ''2'' = Inr 2" by code_simp
  ultimately show ?thesis by (simp add: well_formed_def demo_upstream_def)
qed

lemma demo_gateway_reach: "gw_reach (\<lambda>f. Some (MMap [])) demo_gateway"
  by (rule gw_reach.start [where pid = 99 and actionid = "Some ''uuid-0''" and resp = "Some [''I'']"])
    (simp add: introduce_def free_lookup_def demo_gateway_def)

section \<open>From HTTP to the broker\<close>

text \<open>C17: A well-formed request becomes one message, and the broker that unpacks it reads the
  command, the module, the function and the version of the address and the action id under
  which the request is kept, provided that no parameter of the request is called \<open>actionid\<close>.\<close>

theorem http_call_read_by_broker:
  assumes "well_formed u command md func ver" and "up_sent u" and "up_envp u = map param_line env"
    and "\<forall>nv \<in> set env. good_param nv" and "''actionid'' \<notin> fst ` set env" and "command \<in> set commands"
    and "is_cstr aid" and "5 \<le> length aid" and "is_cstr md" and "is_cstr func" and "zh_lookup aid (rq_list g) = None"
  shows "\<exists>ob g'. upstream_event aid u g = Inr g' \<and> gw_out g' = gw_out g @ [Call_Out ob] \<and>
    zh_lookup aid (rq_list g') = Some (gw_next g) \<and>
    (\<forall>strhex unpack now ident frame. unpack frame = Some ob \<longrightarrow> frame \<noteq> [] \<longrightarrow>
      (\<exists>m. message_fromzmq strhex unpack now [ident, frame] True = Inr (Some m) \<and>
        msg_identity m = strhex ident \<and> msg_command m = Some command \<and> msg_actionid m = aid \<and>
        message_getModule m = Inr (Some md) \<and> message_getFunc m = Inr (Some func) \<and>
        message_getIfVersion m = Inr (u64_of_int ver)))"
proof -
  let ?ob = "request_of command md func ver env aid"
  have names: "\<forall>nv \<in> set env. is_cstr (fst nv)" using assms(4) by (simp add: good_param_def)
  have "\<forall>p \<in> set (up_envp u). param_fits p" "map param_pair (up_envp u) = map (\<lambda>nv. (MRaw (fst nv), MRaw (snd nv))) env"
    using assms(3,4) good_param_line by auto
  then have "upstream_event aid u g = Inr (g\<lparr>gw_next := Suc (gw_next g), gw_out := gw_out g @ [Call_Out ?ob],
      rq_list := zh_insert aid (gw_next g) (rq_list g)\<rparr>)"
    using upstream_request [OF assms(1,2), of aid g] by (simp add: request_of_def)
  then show ?thesis
    using request_accepted [OF names assms(5-10)] assms(11)
    by (intro exI [of _ ?ob] exI conjI) (auto simp: zh_lookup_insert)
qed

theorem http_call_read_by_broker_witness:
  "\<exists>ob g'. upstream_event ''uuid-1'' (demo_upstream ''/call/calc/add/2'' (map param_line demo_env_vars)) demo_gateway = Inr g' \<and>
    gw_out g' = gw_out demo_gateway @ [Call_Out ob] \<and> zh_lookup ''uuid-1'' (rq_list g') = Some 0"
  using http_call_read_by_broker [OF demo_well_formed, of "map param_line demo_env_vars" demo_env_vars "''uuid-1''" demo_gateway]
  by (auto simp: demo_upstream_def demo_env_vars_def good_param_def is_cstr_def commands_def demo_gateway_def
      gateway_new_def)

text \<open>C35: The buffers for a parameter hold names below 256 and values below 8191 characters; a well-formed
  request with any longer one overflows them, and no other does.\<close>

theorem long_parameter_overflows:
  assumes "well_formed u command md func ver" and "up_sent u" and "up_envp u = map param_line env"
    and "\<forall>nv \<in> set env. fst nv \<noteq> [] \<and> CHR ''='' \<notin> set (fst nv)"
  shows "upstream_event aid u g = Inl Buffer_Overflow \<longleftrightarrow>
    (\<exists>nv \<in> set env. 256 \<le> length (fst nv) \<or> 8191 \<le> length (snd nv))"
proof -
  have "param_fits (param_line nv) \<longleftrightarrow> length (fst nv) < 256 \<and> length (snd nv) < 8191" if "nv \<in> set env" for nv
  proof -
    have "\<forall>x \<in> set (fst nv). x \<noteq> CHR ''=''" using assms(4) that by auto
    then have "takeWhile (\<lambda>c. c \<noteq> CHR ''='') (param_line nv) = fst nv"
      unfolding param_line_def by (rule takeWhile_stop) simp
    with assms(4) that show ?thesis by (auto simp: param_fits_def) (auto simp: param_line_def)
  qed
  then show ?thesis
    using upstream_request [OF assms(1,2), of aid g] assms(3) by (auto simp: not_less)
qed

theorem long_parameter_overflows_witness:
  "upstream_event ''uuid-1'' (demo_upstream ''/call/calc/add/2'' (map param_line [(''HTTP_COOKIE'', replicate 8191 (CHR ''x''))])) demo_gateway
     = Inl Buffer_Overflow"
  by (subst long_parameter_overflows [OF demo_well_formed, where env = "[(''HTTP_COOKIE'', replicate 8191 (CHR ''x''))]"])
    (simp_all add: demo_upstream_def)



section \<open>From the broker to HTTP\<close>

text \<open>An exception that the broker builds for a request that is waiting is delivered: the request
  gets a response with the status 500 and the text of the exception, is finished and
  forgotten; the other requests stay as they are.\<close>

theorem exception_becomes_response:
  assumes "message_exception (Some aid) txt code = Some ob" and "unpack payload = Some ob"
    and "is_cstr aid" and "is_cstr txt" and "zh_lookup aid (rq_list g) = Some r"
  shows "\<exists>es. zmq_event unpack (payload # rest) g = Inr (g\<lparr>gw_out := gw_out g @ es @ [Finish r], rq_list := zh_delete aid (rq_list g)\<rparr>) \<and>
    written r es = ''Status: 500 Internal server error'' @ CRLF @ CRLF @ txt @ CRLF"
proof -
  note l = exception_lookups [OF assms(1,3,4)]
  have "status_line 500 ''Internal server error'' = Inr (''Status: 500 Internal server error'' @ CRLF)"
    using status_line_returns [of 500 "''Internal server error''"]
    by (simp add: int_range_def show_int_def show_nat.simps digit_chars)
  then show ?thesis
    using l assms(2,5)
    by (intro exI [of _ "[Put r (''Status: 500 Internal server error'' @ CRLF), Put r CRLF, Put r txt, Put r CRLF]"])
      (simp add: zmq_event_def lookup_str_def answer_request_def answer_exception_def reply_def del: m_lookup.simps)
qed

theorem exception_becomes_response_witness:
  "\<exists>es. zmq_event (\<lambda>f. message_exception (Some ''uuid-1'') ''Process timeout'' PROCESS_TIMEOUT) [''E'']
      (demo_gateway\<lparr>rq_list := [(''uuid-1'', 0)]\<rparr>) =
    Inr (demo_gateway\<lparr>gw_out := gw_out demo_gateway @ es @ [Finish 0], rq_list := []\<rparr>)"
proof -
  obtain ob where "message_exception (Some ''uuid-1'') ''Process timeout'' PROCESS_TIMEOUT = Some ob"
    by (simp add: message_exception_def)
  from exception_becomes_response [OF this, of "\<lambda>f. Some ob" "''E''" "demo_gateway\<lparr>rq_list := [(''uuid-1'', 0)]\<rparr>" 0 "[]"] this
  show ?thesis by (auto simp: is_cstr_def zh_lookup_def zh_delete_def)
qed

text \<open>C22: A result with a code, headers and a payload becomes the HTTP response with that status line,
  these headers and the payload, and the request is finished and forgotten.\<close>

theorem result_becomes_response:
  assumes "unpack payload = Some ob" and "m_lookup ob ''actionid'' = Inr (Some (LStr aid))"
    and "m_lookup ob ''command'' = Inr (Some (LStr ''result''))"
    and "m_lookup ob ''result'' = Inr (Some (LObj (MArr [MPos u, MArr (concat (map (\<lambda>(n, v). [MRaw n, MRaw v]) hs)), MArr (map MRaw items)])))"
    and "zh_lookup aid (rq_list g) = Some r"
  shows "\<exists>es. zmq_event unpack (payload # rest) g = Inr (g\<lparr>gw_out := gw_out g @ es @ [Finish r], rq_list := zh_delete aid (rq_list g)\<rparr>) \<and>
    written r es = ''Status: '' @ show_int (int_of_u64 u) @ '' '' @ status_string (int_of_u64 u) @ CRLF @
      concat (map (\<lambda>(n, v). n @ '':'' @ v @ CRLF) hs) @ CRLF @ concat items @ CRLF"
  using assms by (rule result_response [where unpack = unpack])

theorem result_becomes_response_witness:
  "\<exists>es. zmq_event (\<lambda>f. Some (MMap [(MRaw ''command'', MRaw ''result''),
      (MRaw ''body'', MMap [(MRaw ''result'', MArr [MPos 200, MArr (concat (map (\<lambda>(n, v). [MRaw n, MRaw v]) [(''Age'', ''1'')])), MArr (map MRaw [''5''])])]),
      (MRaw ''actionid'', MRaw ''uuid-1'')])) [''R''] (demo_gateway\<lparr>rq_list := [(''uuid-1'', 0)]\<rparr>) =
    Inr (demo_gateway\<lparr>gw_out := gw_out demo_gateway @ es @ [Finish 0], rq_list := []\<rparr>) \<and>
    written 0 es = ''Status: 200 OK'' @ CRLF @ ''Age:1'' @ CRLF @ CRLF @ ''5'' @ CRLF"
proof -
  let ?ob = "MMap [(MRaw ''command'', MRaw ''result''),
      (MRaw ''body'', MMap [(MRaw ''result'', MArr [MPos 200, MArr (concat (map (\<lambda>(n, v). [MRaw n, MRaw v]) [(''Age'', ''1'')])), MArr (map MRaw [''5''])])]),
      (MRaw ''actionid'', MRaw ''uuid-1'')]"
  have l: "m_lookup ?ob ''actionid'' = Inr (Some (LStr ''uuid-1''))" "m_lookup ?ob ''command'' = Inr (Some (LStr ''result''))"
    "m_lookup ?ob ''result'' = Inr (Some (LObj (MArr [MPos 200, MArr (concat (map (\<lambda>(n, v). [MRaw n, MRaw v]) [(''Age'', ''1'')])), MArr (map MRaw [''5''])])))"
    by (simp_all add: key_prefix_def memcmp_key_def cstr_def)
  have "int_of_u64 200 = 200" by (simp add: int_of_u64_def)
  then show ?thesis
    using result_becomes_response [of "\<lambda>f. Some ?ob" "''R''", OF refl l, of "demo_gateway\<lparr>rq_list := [(''uuid-1'', 0)]\<rparr>" 0 "[]"]
    by (simp add: zh_lookup_def zh_delete_def status_string_def show_int_def show_nat.simps digit_chars)
qed

text \<open>C23: Every HTTP request is finished at most once, and nothing is written to it afterwards.\<close>

theorem nothing_after_finish:
  assumes "gw_reach unpack g" and "gw_out g = pre @ Finish r # post" and "e \<in> set post"
  shows "target e \<noteq> Some r"
  using gw_reach_ok [OF assms(1)] assms(2,3) unfolding gw_ok_def orderly_def by blast

theorem nothing_after_finish_witness:
  "\<exists>g. gw_reach (\<lambda>f. Some (MMap [])) g \<and> gw_out g = gw_out demo_gateway @ Finish 0 # [Finish 1] \<and> target (Finish 1) \<noteq> Some 0"
proof -
  let ?u = "\<lparr>up_init = True, up_accept = True, up_uri = None, up_envp = [], up_sent = True\<rparr>"
  let ?g = "demo_gateway\<lparr>gw_next := 2, gw_out := gw_out demo_gateway @ [Finish 0, Finish 1]\<rparr>"
  have "gw_handle (\<lambda>f. Some (MMap [])) (Upstream_In ''a'' ?u) demo_gateway =
      Inr (demo_gateway\<lparr>gw_next := 1, gw_out := gw_out demo_gateway @ [Finish 0]\<rparr>)"
    by (simp add: gw_handle_def upstream_event_def Let_def reply_def demo_gateway_def gateway_new_def)
  from gw_reach.event [OF demo_gateway_reach this]
  have "gw_reach (\<lambda>f. Some (MMap [])) (demo_gateway\<lparr>gw_next := 1, gw_out := gw_out demo_gateway @ [Finish 0]\<rparr>)" .
  from gw_reach.event [OF this, of "Upstream_In ''b'' ?u" ?g]
  have r: "gw_reach (\<lambda>f. Some (MMap [])) ?g"
    by (simp add: gw_handle_def upstream_event_def Let_def reply_def demo_gateway_def gateway_new_def)
  have "gw_out ?g = gw_out demo_gateway @ Finish 0 # [Finish 1]" by simp
  from nothing_after_finish [OF r this, of "Finish 1"] r show ?thesis by (intro exI [of _ ?g]) simp
qed

section \<open>The whole way\<close>

text \<open>C6: A whole call: the HTTP request becomes a message, the broker hands it to the idle worker that
  provides the interface, the result of the worker goes back through the broker, and becomes the
  HTTP response with its status line, headers and payload; the worker is idle again and the queue
  empty.\<close>

theorem http_call_answered:
  assumes "well_formed u ''call'' md func ver" and "up_sent u" and "up_envp u = map param_line env"
    and "\<forall>nv \<in> set env. good_param nv" and "''actionid'' \<notin> fst ` set env" and "is_cstr md" and "is_cstr func"
    and "is_cstr aid" and "5 \<le> length aid" and "zh_lookup aid (rq_list g) = None"
    and "ready p md func (u64_of_int ver) bs mo" and "u64_of_int ver \<noteq> 0" and "px_queue p = []"
    and "gateway_frame W fr" and "wo_strhex W bs = concat (map show_hex_byte bs)"
    and "wo_unpack W fa = Some (request_of ''call'' md func ver env aid)" and "fa \<noteq> []"
    and "wo_unpack W fb = Some res" and "fb \<noteq> []" and "is_map res"
    and "message_check_command res = Inr (Some ''result'')" and "message_check_actionid res = Inr (Some aid)"
    and "m_lookup res ''actionid'' = Inr (Some (LStr aid))" and "m_lookup res ''command'' = Inr (Some (LStr ''result''))"
    and "m_lookup res ''result'' = Inr (Some (LObj (MArr [MPos code, MArr (concat (map (\<lambda>(n, v). [MRaw n, MRaw v]) hs)), MArr (map MRaw items)])))"
  shows "\<exists>g1 p1 p2 es.
    upstream_event aid u g = Inr g1 \<and> gw_out g1 = gw_out g @ [Call_Out (request_of ''call'' md func ver env aid)] \<and>
    handle W E (Local_In [fr, fa] ans) p = Inr p1 \<and>
    px_out p1 = px_out p @ [To_Local bs (request_of ''call'' md func ver env aid)] \<and>
    handle W E' (Local_In [bs, fb] ans') p1 = Inr p2 \<and> px_out p2 = px_out p1 @ [To_Local fr res] \<and>
    px_queue p2 = [] \<and> zh_lookup (snd (mo_identity mo)) (px_modules p2) = Some mo \<and>
    zmq_event (wo_unpack W) [fb] g1 = Inr (g1\<lparr>gw_out := gw_out g1 @ es @ [Finish (gw_next g)], rq_list := zh_delete aid (rq_list g1)\<rparr>) \<and>
    written (gw_next g) es = ''Status: '' @ show_int (int_of_u64 code) @ '' '' @ status_string (int_of_u64 code) @ CRLF @
      concat (map (\<lambda>(n, v). n @ '':'' @ v @ CRLF) hs) @ CRLF @ concat items @ CRLF"
proof -
  let ?ob = "request_of ''call'' md func ver env aid"
  have names: "\<forall>nv \<in> set env. is_cstr (fst nv)" using assms(4) by (simp add: good_param_def)
  have "\<forall>p \<in> set (up_envp u). param_fits p" "map param_pair (up_envp u) = map (\<lambda>nv. (MRaw (fst nv), MRaw (snd nv))) env"
    using assms(3,4) good_param_line by auto
  then obtain g1 where g1: "upstream_event aid u g = Inr g1" "gw_out g1 = gw_out g @ [Call_Out ?ob]"
      "zh_lookup aid (rq_list g1) = Some (gw_next g)"
    using upstream_request [OF assms(1,2), of aid g] assms(10) by (auto simp: request_of_def zh_lookup_insert)
  obtain m where m: "message_fromzmq (wo_strhex W) (wo_unpack W) (ev_now E) [fr, fa] True = Inr (Some m)"
      "msg_command m = Some ''call''" "msg_actionid m = aid" "message_getModule m = Inr (Some md)"
      "message_getFunc m = Inr (Some func)" "message_getIfVersion m = Inr (u64_of_int ver)"
    using request_accepted [where unpack = "wo_unpack W", OF names assms(5) _ assms(8,9,6,7,16,17), of "wo_strhex W" "ev_now E" fr]
    by (auto simp: commands_def)
  obtain m' q1 where q1: "handle W E (Local_In [fr, fa] ans) p = Inr (q1\<lparr>px_queue := zh_insert aid m' (px_queue p)\<rparr>)"
    "px_out q1 = px_out p @ [To_Local bs ?ob]" "msg_local m'" "msg_identity m' = concat (map show_hex_byte fr)"
    "msg_actionid m' = aid" "zh_lookup (snd (mo_identity mo)) (px_modules q1) = Some (mo\<lparr>mo_state := BUSY\<rparr>)"
    using call_arrives [OF assms(11,14) m assms(12,16), of ans] by blast
  let ?p1 = "q1\<lparr>px_queue := zh_insert aid m' (px_queue p)\<rparr>"
  have queue: "px_queue ?p1 = [(aid, m')]" using assms(13) by (simp add: zh_insert_def)
  have fr: "length fr = 5" using assms(14) by (simp add: gateway_frame_def)
  have bs: "wo_strhex W bs = snd (mo_identity mo)" "mo_state mo = IDLE" "\<not> mo_need_restart mo"
    using assms(11,15) by (simp_all add: ready_def)
  have mod: "zh_lookup (wo_strhex W bs) (px_modules ?p1) = Some (mo\<lparr>mo_state := BUSY\<rparr>)" using q1(6) bs(1) by simp
  obtain p2 where p2: "handle W E' (Local_In [bs, fb] ans') ?p1 = Inr p2" "px_out p2 = px_out ?p1 @ [To_Local fr res]"
    "px_queue p2 = []" "zh_lookup (wo_strhex W bs) (px_modules p2) = Some mo"
    using result_arrives [where E = E' and answer = ans', OF fr queue q1(3-5) mod bs(2,3) assms(18-22)] by blast
  obtain es where "zmq_event (wo_unpack W) [fb] g1 = Inr (g1\<lparr>gw_out := gw_out g1 @ es @ [Finish (gw_next g)], rq_list := zh_delete aid (rq_list g1)\<rparr>)"
    "written (gw_next g) es = ''Status: '' @ show_int (int_of_u64 code) @ '' '' @ status_string (int_of_u64 code) @ CRLF @
      concat (map (\<lambda>(n, v). n @ '':'' @ v @ CRLF) hs) @ CRLF @ concat items @ CRLF"
    using result_response [where unpack = "wo_unpack W", OF assms(18,23-25) g1(3), of "[]"] by blast
  with g1(1,2) q1(1,2) p2 bs(1) show ?thesis
    by (intro exI [of _ g1] exI [of _ ?p1] exI [of _ p2] exI [of _ es]) simp
qed

definition whole_result :: mobj where
  "whole_result = MMap [(MRaw ''command'', MRaw ''result''),
     (MRaw ''body'', MMap [(MRaw ''result'', MArr [MPos 200, MArr (concat (map (\<lambda>(n, v). [MRaw n, MRaw v]) [(''Age'', ''1'')])), MArr (map MRaw [''5''])])]),
     (MRaw ''actionid'', MRaw ''uuid-1'')]"

definition whole_world :: world where
  "whole_world = \<lparr>wo_strhex = demo_strhex,
     wo_unpack = map_of [(''H'', request_of ''call'' ''calc'' ''add'' 2 demo_env_vars ''uuid-1''), (''R'', whole_result)],
     wo_connect = (\<lambda>ep. True)\<rparr>"

lemma whole_result_read:
  "is_map whole_result" "message_check_command whole_result = Inr (Some ''result'')"
  "message_check_actionid whole_result = Inr (Some ''uuid-1'')"
  "m_lookup whole_result ''actionid'' = Inr (Some (LStr ''uuid-1''))"
  "m_lookup whole_result ''command'' = Inr (Some (LStr ''result''))"
  "m_lookup whole_result ''result'' = Inr (Some (LObj (MArr [MPos 200, MArr (concat (map (\<lambda>(n, v). [MRaw n, MRaw v]) [(''Age'', ''1'')])), MArr (map MRaw [''5''])])))"
  by (simp_all add: whole_result_def is_map_def reader_defs)

lemma introduced_ready: "ready introduced ''calc'' ''add'' 2 worker_frame worker"
  using introduced_worker introduced_ifaces calc_providers
  by (simp add: ready_def worker_frame_hex iface_serves_def calc_iface_def, simp add: worker_def)

abbreviation whole_upstream :: upstream where
  "whole_upstream \<equiv> demo_upstream ''/call/calc/add/2'' (map param_line demo_env_vars)"

lemma whole_request:
  "up_sent whole_upstream" "up_envp whole_upstream = map param_line demo_env_vars"
  "\<forall>nv \<in> set demo_env_vars. good_param nv" "''actionid'' \<notin> fst ` set demo_env_vars"
  "is_cstr ''calc''" "is_cstr ''add''" "is_cstr ''uuid-1''" "5 \<le> length ''uuid-1''"
  "zh_lookup ''uuid-1'' (rq_list demo_gateway) = None"
  by (simp_all add: demo_upstream_def demo_env_vars_def good_param_def is_cstr_def demo_gateway_def gateway_new_def)

lemma whole_world_frames:
  "gateway_frame whole_world client_frame" "wo_strhex whole_world worker_frame = concat (map show_hex_byte worker_frame)"
  "wo_unpack whole_world ''H'' = Some (request_of ''call'' ''calc'' ''add'' 2 demo_env_vars ''uuid-1'')"
  "wo_unpack whole_world ''R'' = Some whole_result"
  by (simp_all add: gateway_frame_def whole_world_def demo_strhex_def client_frame_def)

theorem http_call_answered_witness:
  "\<exists>g1 p1 p2 es. upstream_event ''uuid-1'' whole_upstream demo_gateway = Inr g1 \<and>
    handle whole_world (demo_env 5) (Local_In [client_frame, ''H''] None) introduced = Inr p1 \<and>
    handle whole_world (demo_env 6) (Local_In [worker_frame, ''R''] None) p1 = Inr p2 \<and>
    zmq_event (wo_unpack whole_world) [''R''] g1 = Inr (g1\<lparr>gw_out := gw_out g1 @ es @ [Finish (gw_next demo_gateway)], rq_list := zh_delete ''uuid-1'' (rq_list g1)\<rparr>) \<and>
    written (gw_next demo_gateway) es = ''Status: '' @ show_int (int_of_u64 200) @ '' '' @ status_string (int_of_u64 200) @ CRLF @
      concat (map (\<lambda>(n, v). n @ '':'' @ v @ CRLF) [(''Age'', ''1'')]) @ CRLF @ concat [''5''] @ CRLF"
proof -
  have r: "ready introduced ''calc'' ''add'' (u64_of_int 2) worker_frame worker" "u64_of_int 2 \<noteq> 0" "px_queue introduced = []"
    using introduced_ready by (simp_all add: u64_of_int_def introduced_def)
  show ?thesis
    using http_call_answered [where E = "demo_env 5" and ans = None and E' = "demo_env 6" and ans' = None,
        OF demo_well_formed whole_request r whole_world_frames(1-3) _ whole_world_frames(4) _ whole_result_read]
    by blast
qed

section \<open>No request is lost\<close>

text \<open>C5: In every state that the module and the broker reach together, by HTTP requests, deliveries in
  both directions and all other events of the broker, a request for which a call was sent is
  finished, or the call is on its way to the broker, in its queue under the identity of the module,
  or an answer that the module takes for this request is on its way back.\<close>

theorem http_call_not_lost:
  assumes "relay_reach W fr s" and "gateway_frame W fr" and "Call_Out ob \<in> set (gw_out (ry_gate s))"
    and "call_id ob = Some aid" and "zh_lookup aid (rq_list (ry_gate s)) = Some r"
  shows "aid \<in> set (call_ids (ry_up s)) \<or>
    (\<exists>m. zh_lookup aid (px_queue (ry_broker s)) = Some m \<and> msg_local m \<and> msg_identity m = wo_strhex W fr) \<or>
    (\<exists>ob' \<in> set (ry_down s). m_lookup ob' ''actionid'' = Inr (Some (LStr aid)))"
proof -
  have "aid \<in> set (call_ids (calls_out (gw_out (ry_gate s))))"
    using calls_out_set [OF assms(3)] call_ids_set [OF _ assms(4)] by blast
  with relay_reach_ok [OF assms(1,2)] assms(5) have "located W fr aid s" by (auto simp: relay_ok_def)
  with call_id_Some(4) [OF assms(4)] show ?thesis by (auto simp: located_def queued_for_def plain_def)
qed

text \<open>The module sends a call to a broker without modules, which refuses it.\<close>

lemma demo_gateway_start: "introduce (wo_unpack whole_world) 99 (Some ''uuid-0'') (Some [''R'']) gateway_new = Inr (0, demo_gateway)"
  using whole_world_frames(4)
  by (simp add: introduce_def free_lookup_def whole_result_def lookup_str_def demo_gateway_def reader_defs)

lemma demo_no_calls: "call_ids (calls_out (gw_out demo_gateway)) = []"
  by (simp add: demo_gateway_def gateway_new_def call_id_def introduction_def message_check_command_def
      m_get_string_def key_equal_def commands_def cstr_def)

lemma demo_refused:
  "\<exists>g s exc. relay_reach whole_world client_frame s \<and> ry_up s = [] \<and> ry_down s = [exc] \<and> px_queue (ry_broker s) = [] \<and>
    ry_gate s = g \<and> Call_Out (request_of ''call'' ''calc'' ''add'' 2 demo_env_vars ''uuid-1'') \<in> set (gw_out g) \<and>
    zh_lookup ''uuid-1'' (rq_list g) = Some 0"
proof -
  let ?ob = "request_of ''call'' ''calc'' ''add'' 2 demo_env_vars ''uuid-1''" and ?s = "\<lparr>ry_gate = demo_gateway, ry_broker = proxy_new, ry_up = [], ry_down = []\<rparr>"
  have names: "\<forall>nv \<in> set demo_env_vars. is_cstr (fst nv)" using whole_request(3) by (simp add: good_param_def)
  have "\<forall>p \<in> set (up_envp whole_upstream). param_fits p"
    "map param_pair (up_envp whole_upstream) = map (\<lambda>nv. (MRaw (fst nv), MRaw (snd nv))) demo_env_vars"
    using whole_request(2,3) good_param_line by auto
  then obtain g where g: "upstream_event ''uuid-1'' whole_upstream demo_gateway = Inr g"
      "gw_out g = gw_out demo_gateway @ [Call_Out ?ob]" "zh_lookup ''uuid-1'' (rq_list g) = Some 0"
    using upstream_request [OF demo_well_formed whole_request(1), of "''uuid-1''" demo_gateway]
    by (auto simp: request_of_def zh_lookup_insert demo_gateway_def gateway_new_def)
  have id: "call_id ?ob = Some ''uuid-1''"
    using request_strings [OF names] by (simp add: call_id_def message_check_command_def message_check_actionid_def
        commands_def demo_env_vars_def cstr_def)
  have "relay_reach whole_world client_frame ?s"
    by (rule relay_reach.start [OF reach.start demo_gateway_start])
  then have "relay_reach whole_world client_frame (gate_step g ?s)"
    by (rule relay_reach.request) (use g id demo_no_calls in \<open>simp_all add: fresh_request_def proxy_new_def\<close>)
  then have r1: "relay_reach whole_world client_frame \<lparr>ry_gate = g, ry_broker = proxy_new, ry_up = [?ob], ry_down = []\<rparr>"
    by (simp add: gate_step_def g(2))
  obtain m where m: "message_fromzmq (wo_strhex whole_world) (wo_unpack whole_world) (ev_now (demo_env 5)) [client_frame, ''H''] True = Inr (Some m)"
      "msg_command m = Some ''call''" "msg_actionid m = ''uuid-1''" "message_getModule m = Inr (Some ''calc'')"
      "message_getFunc m = Inr (Some ''add'')" "message_getIfVersion m = Inr (u64_of_int 2)"
    using request_accepted [where unpack = "wo_unpack whole_world" and strhex = "wo_strhex whole_world" and now = 5 and ident = client_frame,
        OF names whole_request(4) _ whole_request(7,8,5,6) whole_world_frames(3)]
    by (auto simp: commands_def)
  obtain exc where exc: "message_exception (Some ''uuid-1'') ''No modules found'' MODULES_BUSY = Some exc"
    by (simp add: message_exception_def)
  obtain p where p: "handle whole_world (demo_env 5) (Local_In [client_frame, ''H''] None) proxy_new = Inr p"
      "px_out p = [To_Local client_frame exc]" "px_queue p = []"
    using call_refused [OF whole_world_frames(1) m _ _ exc, of proxy_new None] by (auto simp: u64_of_int_def proxy_new_def)
  let ?t = "\<lparr>ry_gate = g, ry_broker = p, ry_up = [], ry_down = [exc]\<rparr>"
  have "relay_reach whole_world client_frame (broker_step client_frame p
      (\<lparr>ry_gate = g, ry_broker = proxy_new, ry_up = [?ob], ry_down = []\<rparr>\<lparr>ry_up := []\<rparr>))"
    by (rule relay_reach.deliver [OF r1 _ whole_world_frames(3) _ _ _, where rest = "[]" and E = "demo_env 5" and answer = None])
      (use m p in \<open>simp_all add: admissible_def received_def honest_answer_def fresh_introduction_def plain_answer_def\<close>)
  then have "relay_reach whole_world client_frame ?t"
    using p(2) by (simp add: broker_step_def fresh_part_def proxy_new_def)
  with p(3) g(2,3) show ?thesis
    by - (rule exI [of _ g], rule exI [of _ ?t], rule exI [of _ exc], simp)
qed

theorem http_call_not_lost_witness:
  "\<exists>s. relay_reach whole_world client_frame s \<and> ry_up s = [] \<and> px_queue (ry_broker s) = [] \<and>
    (\<exists>ob' \<in> set (ry_down s). m_lookup ob' ''actionid'' = Inr (Some (LStr ''uuid-1'')))"
proof -
  obtain g s exc where s: "relay_reach whole_world client_frame s" "ry_up s = []" "px_queue (ry_broker s) = []" "ry_gate s = g"
      "Call_Out (request_of ''call'' ''calc'' ''add'' 2 demo_env_vars ''uuid-1'') \<in> set (gw_out g)" "zh_lookup ''uuid-1'' (rq_list g) = Some 0"
    using demo_refused by blast
  have names: "\<forall>nv \<in> set demo_env_vars. is_cstr (fst nv)" using whole_request(3) by (simp add: good_param_def)
  have "call_id (request_of ''call'' ''calc'' ''add'' 2 demo_env_vars ''uuid-1'') = Some ''uuid-1''"
    using request_strings [OF names] by (simp add: call_id_def message_check_command_def message_check_actionid_def
        commands_def demo_env_vars_def cstr_def)
  with http_call_not_lost [OF s(1) whole_world_frames(1)] s show ?thesis by fastforce
qed

end
