(* ===== verification/Test_Peers.thy ===== *)
theory Test_Peers
  imports FastCGI
begin

text \<open>
  The programs under \<^verbatim>\<open>test\<close>: \<^verbatim>\<open>test/worker.c\<close>, a module that offers four functions, and
  \<^verbatim>\<open>test/broker.c\<close>, a client that calls one of them and counts the answers. What they send through
  their socket is appended to \<open>wk_out\<close> and \<open>cl_out\<close>; what arrives is a list of frames.
\<close>

section \<open>The worker\<close>

datatype wk_effect =
    Dealer_Out mobj
  | Sleeps u64
  | Forks_Eater
  | Finalizes

record test_worker =
  wk_out :: "wk_effect list"
  wk_interrupted :: bool

definition worker_new :: test_worker where
  "worker_new = \<lparr>wk_out = [], wk_interrupted = False\<rparr>"

definition worker_puts :: "wk_effect list \<Rightarrow> test_worker \<Rightarrow> test_worker" where
  "worker_puts es w = w\<lparr>wk_out := wk_out w @ es\<rparr>"

definition worker_introduction :: "u64 \<Rightarrow> string \<Rightarrow> mobj" where
  "worker_introduction pid actionid =
     MMap
       [(MRaw ''command'', MRaw ''introduce''),
        (MRaw ''body'', MMap
          [(MRaw ''pid'', MPos pid),
           (MRaw ''name'', MRaw ''worker''),
           (MRaw ''desc'', MRaw ''worker test module''),
           (MRaw ''debug'', MBool True),
           (MRaw ''provides'', MMap
             [(MRaw ''echo'', mint 1), (MRaw ''sleep'', mint 1), (MRaw ''payload'', mint 1),
              (MRaw ''memeat'', mint 1)])]),
        (MRaw ''actionid'', MRaw actionid)]"

definition worker_introduce :: "(string \<Rightarrow> mobj option) \<Rightarrow> u64 \<Rightarrow> string option \<Rightarrow> string list option \<Rightarrow>
    test_worker \<Rightarrow> (int \<times> test_worker) res" where
  "worker_introduce unpack pid actionid resp w =
     (case actionid of
        None \<Rightarrow> Inr (-1, w)
      | Some aid \<Rightarrow>
          let w1 = worker_puts [Dealer_Out (worker_introduction pid aid)] w in
          (case resp of
             None \<Rightarrow> Inr (-1, w1)
           | Some [] \<Rightarrow> Inl Assert_Fail
           | Some (payload # _) \<Rightarrow>
               (case unpack payload of
                  None \<Rightarrow> Inr (-1, w1)
                | Some ob \<Rightarrow>
                    rbind (free_lookup ob ''command'') (\<lambda>_.
                    rbind (free_lookup ob ''introduce'') (\<lambda>_. Inr (0, w1))))))"

text \<open>The pointers are those of \<open>m_lookup\<close> and \<open>m_get_string\<close>, so that they may be \<open>NULL\<close>.\<close>

definition worker_result :: "string option \<Rightarrow> string \<Rightarrow> string option \<Rightarrow> mobj option" where
  "worker_result actionid command data =
     (case (data, actionid) of
        (Some d, Some aid) \<Rightarrow>
          Some (MMap
            [(MRaw ''command'', MRaw ''result''),
             (MRaw ''body'', MMap
               [(MRaw ''result'', MMap [(MRaw command, MRaw d)]),
                (MRaw ''seqno'', MPos 0)]),
             (MRaw ''actionid'', MRaw aid)])
      | _ \<Rightarrow> None)"

text \<open>A looked up string, or \<open>NULL\<close>.\<close>

definition lookup_string :: "mobj \<Rightarrow> string \<Rightarrow> string option res" where
  "lookup_string ob key =
     rbind (m_lookup ob key) (\<lambda>v. case v of None \<Rightarrow> Inr None | Some d \<Rightarrow> rbind (lookup_str d) (\<lambda>s. Inr (Some s)))"

definition echo_command :: "mobj \<Rightarrow> mobj option res" where
  "echo_command ob =
     rbind (lookup_string ob ''actionid'') (\<lambda>actionid. Inr (worker_result actionid ''echo'' (Some ''ok'')))"

definition sleep_command :: "mobj \<Rightarrow> test_worker \<Rightarrow> (mobj option \<times> test_worker) res" where
  "sleep_command ob w =
     rbind (m_get_string (Some ob) ''sleep'') (\<lambda>sleep_time.
     rbind (lookup_string ob ''actionid'') (\<lambda>actionid.
       case sleep_time of
         None \<Rightarrow> Inl Null_Deref
       | Some s \<Rightarrow> rbind (atoi s) (\<lambda>n.
           Inr (worker_result actionid ''sleep'' (Some s), worker_puts [Sleeps (u64_of_int n)] w))))"

text \<open>The functions \<open>payload\<close> and \<open>recursion\<close> have empty branches; \<open>memeat\<close> has none.\<close>

definition worker_call :: "mobj \<Rightarrow> test_worker \<Rightarrow> test_worker res" where
  "worker_call ob w =
     rbind (lookup_string ob ''function'') (\<lambda>f.
       case f of
         None \<Rightarrow> Inr w
       | Some function \<Rightarrow>
           rbind (if function = ''echo'' then echo_command ob else Inr None) (\<lambda>msg1.
           rbind (if function = ''sleep'' then sleep_command ob w else Inr (msg1, w)) (\<lambda>(msg, w1).
             case msg of
               None \<Rightarrow> Inr w1
             | Some m \<Rightarrow> Inr (worker_puts [Dealer_Out m] w1))))"

text \<open>The return code \<open>-1\<close> ends the reactor. A receive that was interrupted is \<open>None\<close>.\<close>

definition worker_poll :: "(string \<Rightarrow> mobj option) \<Rightarrow> string list option \<Rightarrow> test_worker \<Rightarrow> (int \<times> test_worker) res" where
  "worker_poll unpack msg w =
     (case msg of
        None \<Rightarrow> Inl Assert_Fail
      | Some [] \<Rightarrow> Inl Assert_Fail
      | Some (payload # _) \<Rightarrow>
          (case unpack payload of
             None \<Rightarrow> Inr (0, w)
           | Some ob \<Rightarrow>
               rbind (lookup_string ob ''command'') (\<lambda>c.
                 case c of
                   None \<Rightarrow> Inr (0, w)
                 | Some command \<Rightarrow>
                     rbind (if command = ''call'' then worker_call ob w else Inr w) (\<lambda>w1.
                       if command = ''stop''
                       then Inr (-1, worker_puts [Finalizes] (w1\<lparr>wk_interrupted := True\<rparr>))
                       else Inr (0, w1)))))"

text \<open>The thread of the option \<open>memeater\<close>: every second a megabyte more, which is never freed, until the context
  ends after \<open>n\<close> rounds. A round reads the memory in use from the statm file; the file pointer of one
  that cannot be opened goes to \<open>fscanf\<close> all the same. The result is the count and what was logged.\<close>

record eater_os =
  ea_malloc :: "nat \<Rightarrow> bool"
  ea_statm :: "nat \<Rightarrow> (int \<times> int) option"
  ea_pagesize :: u64

primrec memeater_thread :: "eater_os \<Rightarrow> nat \<Rightarrow> nat \<Rightarrow> u64 \<Rightarrow> (u64 \<times> (u64 \<times> u64) list) res" where
  "memeater_thread S 0 k used = Inr (used, [])"
| "memeater_thread S (Suc n) k used =
     (let used1 = used + 1024 * 1024 in
      if \<not> ea_malloc S k then Inl Assert_Fail
      else (case ea_statm S k of
          None \<Rightarrow> Inl Null_Deref
        | Some (scan, rss) \<Rightarrow>
            let overall = word_of_int (if scan = 1 then rss else 0) * ea_pagesize S;
                line = (if scan \<noteq> 0 then [(overall div (1024 * 1024), used1 div (1024 * 1024))] else [])
            in rbind (memeater_thread S n (Suc k) used1) (\<lambda>(u, ls). Inr (u, line @ ls))))"

text \<open>The context, the socket and its connection; the client has the same function.\<close>

definition s_connect :: "bool \<Rightarrow> bool \<Rightarrow> bool \<Rightarrow> int" where
  "s_connect ctx dealer connected = (if \<not> ctx then -1 else if \<not> dealer then -1 else if \<not> connected then -1 else 0)"

text \<open>The messages that arrive until the reactor ends.\<close>

fun worker_loop :: "(string \<Rightarrow> mobj option) \<Rightarrow> string list option list \<Rightarrow> test_worker \<Rightarrow> test_worker res" where
  "worker_loop unpack [] w = Inr w"
| "worker_loop unpack (msg # msgs) w =
     rbind (worker_poll unpack msg w) (\<lambda>(rc, w1). if rc = -1 then Inr w1 else worker_loop unpack msgs w1)"

definition worker_start :: "string \<Rightarrow> (string \<Rightarrow> mobj option) \<Rightarrow> string list option list \<Rightarrow> test_worker \<Rightarrow> test_worker res" where
  "worker_start command unpack msgs w =
     worker_loop unpack msgs (if command = ''memeater'' then worker_puts [Forks_Eater] w else w)"

text \<open>The second argument of the program; \<open>rc\<close> is what \<open>s_connect\<close> returns. The result is the
  exit code.\<close>

definition worker_main :: "string list \<Rightarrow> int \<Rightarrow> (string \<Rightarrow> mobj option) \<Rightarrow> u64 \<Rightarrow> string option \<Rightarrow> string list option \<Rightarrow>
    string list option list \<Rightarrow> (int \<times> test_worker) res" where
  "worker_main argv rc unpack pid actionid resp msgs =
     (case argv of
        [] \<Rightarrow> Inr (-1, worker_new)
      | socket # rest \<Rightarrow>
          if socket = [] then Inr (-1, worker_new)
          else if rc < 0 then Inr (-1, worker_puts [Finalizes] worker_new)
          else
            let command = (case rest of [] \<Rightarrow> [] | c # _ \<Rightarrow> c) in
            if command = ''nostart'' then Inr (-1, worker_puts [Finalizes] worker_new)
            else
              rbind (worker_introduce unpack pid actionid resp worker_new) (\<lambda>(rc1, w1).
              rbind (if rc1 = 0 then worker_start command unpack msgs w1 else Inr w1) (\<lambda>w2.
                Inr (0, worker_puts [Finalizes] w2))))"

section \<open>The client\<close>

record client =
  cl_counter :: int
  cl_failed :: int
  cl_success :: int
  cl_start :: u64
  cl_interrupt :: bool
  cl_uuids :: nat
  cl_out :: "mobj list"

definition client_new :: "u64 \<Rightarrow> client" where
  "client_new now = \<lparr>cl_counter = 0, cl_failed = 0, cl_success = 0, cl_start = now, cl_interrupt = False,
     cl_uuids = 0, cl_out = []\<rparr>"

definition create_call :: "string option \<Rightarrow> string option \<Rightarrow> string \<Rightarrow> string option \<Rightarrow> mobj option" where
  "create_call actionid module function data =
     (case (data, actionid, module) of
        (Some d, Some aid, Some md) \<Rightarrow>
          Some (MMap
            [(MRaw ''command'', MRaw ''call''),
             (MRaw ''body'', MMap
               [(MRaw ''module'', MRaw md),
                (MRaw ''function'', MRaw function),
                (MRaw ''version'', MPos 1),
                (MRaw ''parameters'', MMap [(MRaw function, MRaw d)]),
                (MRaw ''seqno'', MPos 0)]),
             (MRaw ''actionid'', MRaw aid)])
      | _ \<Rightarrow> None)"

definition client_send :: "mobj \<Rightarrow> client \<Rightarrow> client" where
  "client_send ob c = c\<lparr>cl_out := cl_out c @ [ob], cl_counter := cl_counter c + 1\<rparr>"

text \<open>The command of an answer is counted.\<close>

definition count_answer :: "mobj \<Rightarrow> client \<Rightarrow> client res" where
  "count_answer ob c =
     rbind (lookup_string ob ''command'') (\<lambda>cmd.
       case cmd of
         None \<Rightarrow> Inr c
       | Some command \<Rightarrow>
           let c1 = (if command = ''exception'' then c\<lparr>cl_failed := cl_failed c + 1\<rparr> else c)
           in Inr (if command = ''result'' then c1\<lparr>cl_success := cl_success c1 + 1\<rparr> else c1))"

definition client_event :: "(string \<Rightarrow> mobj option) \<Rightarrow> string list \<Rightarrow> client \<Rightarrow> (int \<times> client) res" where
  "client_event unpack msg c =
     (if cl_interrupt c then Inr (-1, c)
      else (case msg of
          [] \<Rightarrow> Inl Assert_Fail
        | payload # _ \<Rightarrow>
            (case unpack payload of
               None \<Rightarrow> Inr (0, c)
             | Some ob \<Rightarrow> rbind (count_answer ob c) (\<lambda>c1. Inr (0, c1)))))"

definition info_loop :: "u64 \<Rightarrow> client \<Rightarrow> client" where
  "info_loop end_sec c =
     (if end_sec - cl_start c > 1
      then c\<lparr>cl_counter := 0, cl_failed := 0, cl_success := 0, cl_start := end_sec\<rparr> else c)"

primrec sleep_loop :: "(nat \<Rightarrow> string) \<Rightarrow> nat \<Rightarrow> client \<Rightarrow> int \<times> client" where
  "sleep_loop uuid 0 c = (0, c)"
| "sleep_loop uuid (Suc n) c =
     (if cl_interrupt c then (-1, c)
      else
        let c1 = c\<lparr>cl_uuids := Suc (cl_uuids c)\<rparr> in
        sleep_loop uuid n
          (case create_call (Some (uuid (cl_uuids c))) (Some ''worker'') ''sleep'' (Some ''echo'') of
             None \<Rightarrow> c1
           | Some ob \<Rightarrow> client_send ob c1))"

text \<open>One call, whose answer is waited for. \<open>end_sec\<close> is the clock at the end.\<close>

definition start_echo :: "(string \<Rightarrow> mobj option) \<Rightarrow> (nat \<Rightarrow> string) \<Rightarrow> string \<Rightarrow> string list \<Rightarrow> u64 \<Rightarrow> client \<Rightarrow> client res" where
  "start_echo unpack uuid arg msg end_sec c0 =
     (let c = c0\<lparr>cl_uuids := Suc (cl_uuids c0)\<rparr> in
      rbind
        (case create_call (Some (uuid (cl_uuids c0))) (Some ''worker'') ''sleep'' (Some arg) of
           None \<Rightarrow> Inr c
         | Some ob \<Rightarrow>
             (case msg of
                [] \<Rightarrow> Inl Assert_Fail
              | payload # _ \<Rightarrow>
                  (case unpack payload of
                     None \<Rightarrow> Inr (client_send ob c)
                   | Some answer \<Rightarrow> count_answer answer (client_send ob c))))
        (\<lambda>c1. Inr (if end_sec - cl_start c1 = 1
           then c1\<lparr>cl_counter := 0, cl_failed := 0, cl_success := 0, cl_start := end_sec\<rparr> else c1)))"

text \<open>The reactor of \<open>start_loop\<close>, and the signal handler.\<close>

datatype cl_event =
    Client_In "string list"
  | Sleep_Timer
  | Info_Timer u64
  | Signal

definition client_handle :: "(string \<Rightarrow> mobj option) \<Rightarrow> (nat \<Rightarrow> string) \<Rightarrow> int \<Rightarrow> cl_event \<Rightarrow> client \<Rightarrow> (int \<times> client) res" where
  "client_handle unpack uuid count ev c =
     (case ev of
        Client_In msg \<Rightarrow> client_event unpack msg c
      | Sleep_Timer \<Rightarrow> Inr (sleep_loop uuid (nat count) c)
      | Info_Timer now \<Rightarrow> Inr (0, info_loop now c)
      | Signal \<Rightarrow> Inr (0, c\<lparr>cl_interrupt := True\<rparr>))"

text \<open>The job and its argument; the exit code \<open>-1\<close> comes before anything is sent.\<close>

datatype client_job = Refused | Loop int | Echo string | Nothing

definition client_main :: "string list \<Rightarrow> int \<Rightarrow> client_job res" where
  "client_main argv rc =
     (let sock = (case argv of [] \<Rightarrow> [] | s # _ \<Rightarrow> s);
          job = (case argv of _ # j # _ \<Rightarrow> j | _ \<Rightarrow> []);
          arg = (case argv of _ # _ # a # _ \<Rightarrow> Some a | _ \<Rightarrow> None)
      in if sock = [] then Inr Refused
         else if job = [] then Inr Refused
         else if rc < 0 then Inr Refused
         else if job = ''loop'' then rbind (atoi (case arg of None \<Rightarrow> ''1'' | Some a \<Rightarrow> a)) (\<lambda>count. Inr (Loop count))
         else if job = ''sleep'' then Inr (Echo (case arg of None \<Rightarrow> ''1000'' | Some a \<Rightarrow> a))
         else Inr Nothing)"

end
