(* ===== verification/Offers.thy ===== *)
theory Offers
  imports Exchange Peers Whole_Call
begin

text \<open>
  The introduction of a module whose functions nobody offers yet, computed: it returns, the module
  is registered as idle, and each of its functions is found with the module as the only provider.
\<close>

section \<open>One function\<close>

definition serving :: "string \<Rightarrow> string \<Rightarrow> u64 \<Rightarrow> proxy \<Rightarrow> nat option" where
  "serving md func ver p = find (\<lambda>a. iface_serves md func ver (px_heap p a)) (zl_items (px_ifaces p))"

text \<open>The module \<open>q\<close> is the only provider of the function, for every version up to \<open>ver\<close>.\<close>

definition sole_offer :: "cptr \<Rightarrow> string \<Rightarrow> string \<Rightarrow> u64 \<Rightarrow> proxy \<Rightarrow> bool" where
  "sole_offer q md func ver p \<longleftrightarrow> (\<forall>v \<le> ver. \<exists>a. serving md func v p = Some a \<and>
     if_globals (px_heap p a) = [] \<and> zl_items (if_local (px_heap p a)) = [q])"

text \<open>No interface of that name and function is listed.\<close>

definition unknown :: "string \<Rightarrow> string \<Rightarrow> proxy \<Rightarrow> bool" where
  "unknown md func p \<longleftrightarrow> (\<forall>a \<in> set (zl_items (px_ifaces p)). if_mod (px_heap p a) = md \<longrightarrow> if_func (px_heap p a) \<noteq> func)"

definition known_cells :: "proxy \<Rightarrow> bool" where
  "known_cells p \<longleftrightarrow> (\<forall>a \<in> set (zl_items (px_ifaces p)). a < px_next p)"

text \<open>The line that is printed fits into the buffer.\<close>

definition short_offer :: "string \<Rightarrow> string \<Rightarrow> u64 \<Rightarrow> string \<Rightarrow> bool" where
  "short_offer md func ver ident \<longleftrightarrow> length md + length func + length (show_int (sint ver)) + length ident < 980"

text \<open>What entering an interface leaves alone.\<close>

definition entered :: "proxy \<Rightarrow> proxy \<Rightarrow> bool" where
  "entered p p' \<longleftrightarrow> px_modules p' = px_modules p \<and> px_fabs p' = px_fabs p \<and> px_queue p' = px_queue p \<and>
     px_out p' = px_out p \<and> px_uuids p' = px_uuids p \<and> known_cells p' \<and>
     (printable p \<longrightarrow> printable p')"

lemma find_append: "find P (xs @ ys) = (case find P xs of Some x \<Rightarrow> Some x | None \<Rightarrow> find P ys)"
  by (induction xs) auto

lemma serving_unknown: "unknown md func p \<Longrightarrow> serving md func ver p = None"
  by (auto simp: serving_def unknown_def find_None_iff iface_serves_def)

lemma introduce_function_new:
  assumes new: "unknown (mo_name mo) func p" and cells: "known_cells p"
    and ver: "provided_version h func = Inr ver" "ver \<noteq> 0"
    and short: "short_offer (mo_name mo) func ver (snd (mo_identity mo))"
  shows "\<exists>p'. introduce_function mo h func p = Inr p' \<and> entered p p' \<and>
    sole_offer (mo_identity mo) (mo_name mo) func ver p' \<and>
    (\<forall>md f v. md \<noteq> mo_name mo \<or> f \<noteq> func \<longrightarrow> serving md f v p' = serving md f v p \<and> (unknown md f p \<longrightarrow> unknown md f p')) \<and>
    (\<forall>a < px_next p. px_heap p' a = px_heap p a) \<and> px_next p' = Suc (px_next p)"
proof -
  let ?n = "px_next p" and ?q = "mo_identity mo" and ?md = "mo_name mo"
  let ?i = "\<lparr>if_mod = ?md, if_func = func, if_ver = ver, if_global = zl_new, if_local = zl_new\<rparr>"
  obtain l where l: "zl_items l = zl_items (px_ifaces p)"
    and c: "check_interface (Some ?md) (Some func) ver p = Inr (None, p\<lparr>px_ifaces := l\<rparr>)"
    using check_interface_eq [of p ?md func ver] serving_unknown [OF new, of ver] by (auto simp: serving_def)
  let ?p1 = "p\<lparr>px_ifaces := l, px_heap := (px_heap p)(?n := ?i), px_ifaces := zl_append ?n l, px_next := Suc ?n\<rparr>"
  have f: "find_or_new_iface ?md func ver p = Inr (?n, ?p1)"
    using ver(2) by (simp add: find_or_new_iface_def c iface_new_def)
  define i1 where "i1 = snd (iface_append_local ?i ?q)"
  have locals: "zl_items (if_local i1) = [?q]" "if_locals i1 = [snd ?q]" "if_globals i1 = []"
    using iface_append_local_items(1) [of ?i ?q] iface_append_local_locals [of ?i ?q] iface_append_local_frame(4) [of ?i ?q]
    by (simp_all add: i1_def if_locals_def if_globals_def)
  have j: "if_mod i1 = ?md" "if_func i1 = func" "if_ver i1 = ver"
    using iface_append_local_frame [of ?i ?q] by (simp_all add: i1_def)
  have fits: "length (iface_text i1) < 1024"
    using short by (simp add: iface_text_def j locals short_offer_def)
  have pr: "iface_print i1 = Inr (iface_text i1, iface_at_end i1)" using fits by (simp add: iface_print_eq)
  define p' where "p' = ?p1\<lparr>px_heap := ((px_heap ?p1)(?n := i1))(?n := iface_at_end i1)\<rparr>"
  have run: "introduce_function mo h func p = Inr p'"
    by (simp add: introduce_function_def ver(1) f print_iface_def pr p'_def flip: i1_def)
  have items: "zl_items (px_ifaces p') = zl_items (px_ifaces p) @ [?n]" using l by (simp add: p'_def)
  have heap: "px_heap p' = (px_heap p)(?n := iface_at_end i1)" by (simp add: p'_def)
  have fresh: "?n \<notin> set (zl_items (px_ifaces p))" using cells by (auto simp: known_cells_def)
  have "find (\<lambda>a. iface_serves md f v (px_heap p' a)) (zl_items (px_ifaces p)) = serving md f v p" for md f v
    unfolding serving_def by (rule find_cong) (use fresh heap in auto)
  then have serv: "serving md f v p' = (case serving md f v p of Some a \<Rightarrow> Some a | None \<Rightarrow>
      if md = ?md \<and> f = func \<and> v \<le> ver then Some ?n else None)" for md f v
    unfolding serving_def [of md f v p'] items
    by (simp add: find_append heap iface_serves_def j split: option.splits)
  have "entered p p'"
    using cells items fresh fits by (auto simp: entered_def known_cells_def printable_def p'_def)
  moreover have "sole_offer ?q ?md func ver p'"
    using locals by (simp add: sole_offer_def serv serving_unknown [OF new] heap)
  moreover have "serving md f v p' = serving md f v p" if "md \<noteq> ?md \<or> f \<noteq> func" for md f v
    using that by (auto simp: serv split: option.splits)
  moreover have "unknown md f p'" if "md \<noteq> ?md \<or> f \<noteq> func" "unknown md f p" for md f
    unfolding unknown_def items using that fresh by (auto simp: unknown_def heap j)
  ultimately show ?thesis using run heap by (intro exI [of _ p']) (auto simp: p'_def)
qed

text \<open>An offer stays when another function is entered.\<close>

lemma sole_offer_kept:
  assumes "sole_offer q md f ver p" and "known_cells p" and "\<forall>v. serving md f v p' = serving md f v p"
    and "\<forall>a < px_next p. px_heap p' a = px_heap p a"
  shows "sole_offer q md f ver p'"
  unfolding sole_offer_def
proof (intro allI impI)
  fix v assume "v \<le> ver"
  then obtain a where a: "serving md f v p = Some a" "if_globals (px_heap p a) = []" "zl_items (if_local (px_heap p a)) = [q]"
    using assms(1) by (auto simp: sole_offer_def)
  then have "a < px_next p"
    using assms(2) find_SomeD [of _ "zl_items (px_ifaces p)" a] by (auto simp: serving_def known_cells_def)
  with a assms(3,4) show "\<exists>a. serving md f v p' = Some a \<and> if_globals (px_heap p' a) = [] \<and> zl_items (if_local (px_heap p' a)) = [q]"
    by auto
qed

section \<open>All functions\<close>

definition good_function :: "module \<Rightarrow> uval zhash \<Rightarrow> string \<Rightarrow> bool" where
  "good_function mo h f \<longleftrightarrow> (case provided_version h f of Inl e \<Rightarrow> False
     | Inr ver \<Rightarrow> ver \<noteq> 0 \<and> short_offer (mo_name mo) f ver (snd (mo_identity mo)))"

lemma introduce_functions_new:
  assumes "distinct fs" and "\<forall>f \<in> set fs. unknown (mo_name mo) f p \<and> good_function mo h f" and "known_cells p"
  shows "\<exists>p'. rfold (introduce_function mo h) fs p = Inr p' \<and> entered p p' \<and>
    (\<forall>f \<in> set fs. \<forall>ver. provided_version h f = Inr ver \<longrightarrow> sole_offer (mo_identity mo) (mo_name mo) f ver p') \<and>
    (\<forall>md f v. md \<noteq> mo_name mo \<or> f \<notin> set fs \<longrightarrow> serving md f v p' = serving md f v p) \<and>
    (\<forall>a < px_next p. px_heap p' a = px_heap p a) \<and> px_next p \<le> px_next p'"
  using assms
proof (induction fs arbitrary: p)
  case Nil
  then show ?case by (simp add: entered_def)
next
  case (Cons f fs)
  obtain ver where ver: "provided_version h f = Inr ver" "ver \<noteq> 0" "short_offer (mo_name mo) f ver (snd (mo_identity mo))"
    using Cons.prems(2) by (auto simp: good_function_def split: sum.splits)
  have "unknown (mo_name mo) f p" using Cons.prems(2) by simp
  from introduce_function_new [OF this Cons.prems(3) ver] obtain p1 where
    p1: "introduce_function mo h f p = Inr p1" "entered p p1" "sole_offer (mo_identity mo) (mo_name mo) f ver p1"
      "\<forall>md g v. md \<noteq> mo_name mo \<or> g \<noteq> f \<longrightarrow> serving md g v p1 = serving md g v p \<and> (unknown md g p \<longrightarrow> unknown md g p1)"
      "\<forall>a < px_next p. px_heap p1 a = px_heap p a" "px_next p1 = Suc (px_next p)"
    by blast
  have cells: "known_cells p1" using p1(2) by (simp add: entered_def)
  have prems: "distinct fs" "\<forall>g \<in> set fs. unknown (mo_name mo) g p1 \<and> good_function mo h g"
    using Cons.prems(1,2) p1(4) by (simp, metis distinct.simps(2) list.set_intros(2))
  from Cons.IH [OF prems cells] obtain p' where
    p': "rfold (introduce_function mo h) fs p1 = Inr p'" "entered p1 p'"
      "\<forall>f \<in> set fs. \<forall>ver. provided_version h f = Inr ver \<longrightarrow> sole_offer (mo_identity mo) (mo_name mo) f ver p'"
      "\<forall>md f v. md \<noteq> mo_name mo \<or> f \<notin> set fs \<longrightarrow> serving md f v p' = serving md f v p1"
      "\<forall>a < px_next p1. px_heap p' a = px_heap p1 a" "px_next p1 \<le> px_next p'"
    by blast
  have "\<forall>v. serving (mo_name mo) f v p' = serving (mo_name mo) f v p1"
    using p'(4) Cons.prems(1) by simp
  then have "sole_offer (mo_identity mo) (mo_name mo) f ver p'"
    by (rule sole_offer_kept [OF p1(3) cells _ p'(5)])
  moreover have "entered p p'" using p1(2) p'(2) by (simp add: entered_def)
  ultimately show ?case
    using p1 p' ver(1) by (intro exI [of _ p']) auto
qed

section \<open>The introduction\<close>

lemma m_unpack_wf:
  "m_unpack_map ptr ob = Inr h \<Longrightarrow> zh_wf ptr \<Longrightarrow> zh_wf h"
  "m_unpack_kvs ptr kvs = Inr h \<Longrightarrow> zh_wf ptr \<Longrightarrow> zh_wf h"
proof (induction ptr ob and ptr kvs arbitrary: h and h rule: m_unpack_map_m_unpack_kvs.induct)
  case (3 ptr k v kvs)
  obtain key where key: "key_bytes k = Inr key"
    using "3.prems" by (auto simp: res_simps)
  show ?case
  proof (cases v)
    case (MMap kvs')
    obtain obj where obj: "m_unpack_map [] v = Inr obj" and rest: "m_unpack_kvs (zh_insert key (UHash obj) ptr) kvs = Inr h"
      using "3.prems" key MMap by (auto simp: res_simps simp del: m_unpack_map.simps)
    show ?thesis
      by (rule "3.IH"(15) [OF key MMap obj rest zh_wf_insert [OF "3.prems"(2)]])
  qed (use 3 key in \<open>auto simp: zh_wf_insert unpack_item_def\<close>)
qed (auto split: mobj.splits)

lemma provides_wf: "message_getProvides m = Inr (Some h) \<Longrightarrow> zh_wf h"
  using m_unpack_wf(1) [of "[]" _ h]
  by (auto simp: message_getProvides_def res_simps zh_wf_def zh_keys_def split: option.splits)

text \<open>The module that is entered, and its first address.\<close>

definition introduced_module :: "nat \<Rightarrow> string \<Rightarrow> string \<Rightarrow> int \<Rightarrow> string option \<Rightarrow> uval zhash \<Rightarrow> module" where
  "introduced_module addr ident name pid desc h =
     \<lparr>mo_identity = (addr, ident), mo_name = name, mo_desc = desc, mo_pid = pid, mo_spid = show_int pid,
       mo_provides = Some h, mo_state = GUEST, mo_need_restart = False\<rparr>"

lemma process_introduce_new:
  assumes m: "message_getName m = Inr (Some name)" "message_getPid m = Inr pid" "pid \<noteq> 0" "length (show_int pid) < 10"
      "message_getDesc m = Inr desc" "message_getProvides m = Inr (Some h)" "h \<noteq> []"
    and ans: "pid_accepted E answer = Inr True"
    and ident: "msg_identity m = concat (map show_hex_byte bs)" "length bs = 5"
      "zh_lookup (msg_identity m) (px_modules p) = None"
    and cells: "known_cells p"
    and mo: "mo = introduced_module (px_next p) (msg_identity m) name pid desc h"
    and new: "\<forall>f \<in> set (zh_keys h). unknown name f p \<and> good_function mo h f"
  shows "\<exists>p' ok. process_introduce E answer m p = Inr p' \<and>
    message_response (Some ''ok'') (Some (msg_actionid m)) = Some ok \<and>
    px_out p' = px_out p @ [To_Procman [''check_pid'', show_int pid], To_Procman [''register'', show_int pid, name], To_Local bs ok] \<and>
    zh_lookup (msg_identity m) (px_modules p') = Some (mo\<lparr>mo_state := IDLE\<rparr>) \<and> px_queue p' = px_queue p \<and>
    px_fabs p' = px_fabs p \<and> (printable p \<longrightarrow> printable p') \<and>
    (\<forall>f ver. provided_version h f = Inr ver \<longrightarrow> sole_offer (mo_identity mo) name f ver p')"
proof -
  let ?p1 = "(emit (To_Procman [''check_pid'', show_int pid]) p)\<lparr>px_next := Suc (px_next p)\<rparr>"
  have "distinct (zh_keys h)" using provides_wf [OF m(6)] by (simp add: zh_wf_def)
  moreover have "\<forall>f \<in> set (zh_keys h). unknown (mo_name mo) f ?p1 \<and> good_function mo h f"
    using new by (simp add: unknown_def mo introduced_module_def)
  moreover have "known_cells ?p1" using cells by (auto simp: known_cells_def less_Suc_eq)
  ultimately obtain p2 where p2: "rfold (introduce_function mo h) (zh_keys h) ?p1 = Inr p2" "entered ?p1 p2"
      "\<forall>f \<in> set (zh_keys h). \<forall>ver. provided_version h f = Inr ver \<longrightarrow> sole_offer (mo_identity mo) (mo_name mo) f ver p2"
    using introduce_functions_new [of "zh_keys h" mo ?p1 h] by blast
  obtain ok where ok: "message_response (Some ''ok'') (Some (msg_actionid m)) = Some ok"
    by (simp add: message_response_def)
  let ?k = "msg_identity m"
  let ?p3 = "(emit (To_Procman [''register'', show_int pid, name]) p2)\<lparr>px_modules := zh_insert ?k mo (px_modules p2)\<rparr>"
  have print: "printable p \<longrightarrow> printable p2" using p2(2) by (simp add: entered_def printable_def)
  have mods: "px_modules p2 = px_modules p" "px_queue p2 = px_queue p" "px_fabs p2 = px_fabs p"
    "px_out p2 = px_out p @ [To_Procman [''check_pid'', show_int pid]]"
    using p2(2) by (simp_all add: entered_def)
  let ?p' = "(emit (To_Local bs ok) ?p3)\<lparr>px_modules := zh_modify ?k (mo\<lparr>mo_state := IDLE\<rparr>) (px_modules ?p3)\<rparr>"
  have "register_module mo m p2 = Inr ?p'"
    using mods ident(3) by (simp add: register_module_def mo introduced_module_def Let_def ok ident(1) send_message_local [OF ident(2)])
  moreover have "process_introduce E answer m p = rbind (rfold (introduce_function mo h) (zh_keys h) ?p1) (register_module mo m)"
    using m ans by (simp add: process_introduce_def Let_def module_new_def sprintf_buf_def mo introduced_module_def)
  ultimately have "process_introduce E answer m p = Inr ?p'" using p2(1) by simp
  moreover have "zh_lookup ?k (px_modules ?p') = Some (mo\<lparr>mo_state := IDLE\<rparr>)"
    using mods ident(3) by (simp add: zh_lookup_modify zh_lookup_insert)
  moreover have "sole_offer (mo_identity mo) name f ver ?p'" if v: "provided_version h f = Inr ver" for f ver
  proof -
    have "f \<in> set (zh_keys h)"
      using v zh_keys_iff [of f h] by (auto simp: provided_version_def split: option.splits)
    with p2(3) v have "sole_offer (mo_identity mo) (mo_name mo) f ver p2" by blast
    then show ?thesis by (simp add: sole_offer_def serving_def mo introduced_module_def)
  qed
  ultimately show ?thesis
    using mods ok print by (intro exI [of _ ?p'] exI [of _ ok]) (simp add: printable_def)
qed

text \<open>So each function is ready to be called.\<close>

lemma sole_offer_ready:
  assumes "sole_offer (mo_identity mo) md f ver p" and "v \<le> ver" and "zh_lookup (snd (mo_identity mo)) (px_modules p) = Some mo"
    and "mo_state mo = IDLE" and "\<not> mo_need_restart mo" and "snd (mo_identity mo) = concat (map show_hex_byte bs)" and "length bs = 5"
  shows "ready p md f v bs mo"
  using assms unfolding ready_def sole_offer_def serving_def by fastforce

end
