(* ===== verification/Worker_Properties.thy ===== *)
theory Worker_Properties
  imports Test_Peers Offers Scenario
begin

text \<open>
  The worker and the client of \<^verbatim>\<open>test\<close> with the broker between them: the worker introduces itself, the
  client calls one of its functions, and gets the answer.
\<close>

lemmas peer_defs = message_check_command_def message_check_actionid_def commands_def
  message_getName_def message_getDesc_def message_getPid_def message_getProvides_def
  body_string_def body_int_def message_body_def m_find_map_def key_prefix_def memcmp_key_def
  m_get_string_def m_get_int_def key_equal_def is_cstr_def key_bytes_def unpack_item_def zh_insert_def

section \<open>What the worker makes of a call\<close>

lemma create_call_request:
  "create_call (Some aid) (Some md) func (Some d) = Some (request_of ''call'' md func 1 [(func, d)] aid)"
  by (simp add: create_call_def request_of_def call_request_def u64_of_int_def)

definition test_call :: "string \<Rightarrow> string \<Rightarrow> string \<Rightarrow> mobj" where
  "test_call f d aid = request_of ''call'' ''worker'' f 1 [(f, d)] aid"

lemma test_call_lookups:
  assumes "f \<in> {''echo'', ''sleep'', ''payload'', ''memeat''}" and "is_cstr aid"
  shows "lookup_string (test_call f d aid) ''command'' = Inr (Some ''call'')"
    "lookup_string (test_call f d aid) ''function'' = Inr (Some f)"
    "lookup_string (test_call f d aid) ''actionid'' = Inr (Some aid)"
  using assms
  by (auto simp: test_call_def request_of_def call_request_def lookup_string_def lookup_str_def key_prefix_def
      memcmp_key_def is_cstr_def)

lemma test_call_sleep: "is_cstr d \<Longrightarrow> m_get_string (Some (test_call ''sleep'' d aid)) ''sleep'' = Inr (Some d)"
  by (simp add: test_call_def request_strings is_cstr_def)

text \<open>The answer to each function; two of the four that are offered have none.\<close>

definition answer_of :: "string \<Rightarrow> string \<Rightarrow> string \<Rightarrow> mobj option" where
  "answer_of f d aid = (if f = ''echo'' then worker_result (Some aid) ''echo'' (Some ''ok'')
     else if f = ''sleep'' then worker_result (Some aid) ''sleep'' (Some d) else None)"

definition pause_of :: "string \<Rightarrow> int \<Rightarrow> wk_effect list" where
  "pause_of f n = (if f = ''sleep'' then [Sleeps (u64_of_int n)] else [])"

lemma worker_poll_call:
  assumes "f \<in> {''echo'', ''sleep'', ''payload'', ''memeat''}" and "is_cstr aid" and "is_cstr d" and "atoi d = Inr n"
    and "unpack frame = Some (test_call f d aid)"
  shows "worker_poll unpack (Some (frame # rest)) w =
    Inr (0, worker_puts (pause_of f n @ map Dealer_Out (case answer_of f d aid of None \<Rightarrow> [] | Some ob \<Rightarrow> [ob])) w)"
  using assms test_call_lookups [OF assms(1,2), of d] test_call_sleep [OF assms(3), of aid]
  by (auto simp: worker_poll_def worker_call_def echo_command_def sleep_command_def answer_of_def pause_of_def
      worker_puts_def worker_result_def)

text \<open>Without the parameter \<open>sleep\<close> the worker reads through a NULL pointer.\<close>

lemma sleep_without_time:
  assumes "unpack frame = Some (request_of ''call'' ''worker'' ''sleep'' 1 [] aid)" and "is_cstr aid"
  shows "worker_poll unpack (Some [frame]) w = Inl Null_Deref"
proof -
  let ?ob = "request_of ''call'' ''worker'' ''sleep'' 1 [] aid"
  have "lookup_string ?ob ''command'' = Inr (Some ''call'')" "lookup_string ?ob ''function'' = Inr (Some ''sleep'')"
    "lookup_string ?ob ''actionid'' = Inr (Some aid)"
    using assms(2) by (simp_all add: request_of_def call_request_def lookup_string_def lookup_str_def key_prefix_def
      memcmp_key_def is_cstr_def)
  moreover have "m_get_string (Some ?ob) ''sleep'' = Inr None" by (simp add: request_strings)
  ultimately show ?thesis
    by (simp add: worker_poll_def worker_call_def sleep_command_def assms(1))
qed

lemma worker_result_read:
  assumes "is_cstr aid" and "5 \<le> length aid" and "worker_result (Some aid) f (Some d) = Some ob" and "f \<in> {''echo'', ''sleep''}"
  shows "is_map ob" "message_check_command ob = Inr (Some ''result'')" "message_check_actionid ob = Inr (Some aid)"
    "lookup_string ob ''command'' = Inr (Some ''result'')"
proof -
  have ob: "ob = MMap [(MRaw ''command'', MRaw ''result''),
      (MRaw ''body'', MMap [(MRaw ''result'', MMap [(MRaw f, MRaw d)]), (MRaw ''seqno'', MPos 0)]),
      (MRaw ''actionid'', MRaw aid)]"
    using assms(3) by (simp add: worker_result_def)
  show "is_map ob" "message_check_command ob = Inr (Some ''result'')" "message_check_actionid ob = Inr (Some aid)"
    "lookup_string ob ''command'' = Inr (Some ''result'')"
    using assms(1,2,4) unfolding ob by (auto simp: peer_defs is_map_def lookup_string_def lookup_str_def)
qed

text \<open>The stop message of the broker ends the reactor; the context is then finalised a second time.\<close>

lemma worker_stops:
  assumes "message_stop (Some said) = Some ob" and "unpack fs = Some ob" and "unpack fo = Some ok"
    and "message_response (Some ''ok'') (Some aid) = Some ok" and "socket \<noteq> []"
  shows "worker_main [socket] 0 unpack pid (Some aid) (Some [fo]) (Some [fs] # later) =
    Inr (0, \<lparr>wk_out = [Dealer_Out (worker_introduction pid aid), Finalizes, Finalizes], wk_interrupted = True\<rparr>)"
proof -
  have "lookup_string ob ''command'' = Inr (Some ''stop'')"
    using assms(1) by (auto simp: message_stop_def lookup_string_def lookup_str_def key_prefix_def memcmp_key_def)
  then have poll: "worker_poll unpack (Some [fs]) w = Inr (-1, worker_puts [Finalizes] (w\<lparr>wk_interrupted := True\<rparr>))" for w
    by (simp add: worker_poll_def assms(2))
  have "free_lookup ok ''command'' = Inr ()" "free_lookup ok ''introduce'' = Inr ()"
    using assms(4) by (auto simp: message_response_def free_lookup_def lookup_str_def key_prefix_def memcmp_key_def)
  then have "worker_introduce unpack pid (Some aid) (Some [fo]) worker_new =
      Inr (0, worker_puts [Dealer_Out (worker_introduction pid aid)] worker_new)"
    by (simp add: worker_introduce_def assms(3))
  then show ?thesis
    using assms(5) poll by (simp add: worker_main_def worker_start_def worker_puts_def worker_new_def)
qed

text \<open>Without a connection nothing is sent.\<close>

lemma worker_not_connected:
  assumes "socket \<noteq> []" and "\<not> (ctx \<and> dealer \<and> connected)"
  shows "worker_main (socket # args) (s_connect ctx dealer connected) unpack pid aid resp msgs =
    Inr (-1, \<lparr>wk_out = [Finalizes], wk_interrupted = False\<rparr>)"
  using assms by (auto simp: worker_main_def s_connect_def worker_puts_def worker_new_def)

text \<open>The thread that eats memory: a megabyte per round, and a round that cannot open the file is its last.\<close>

lemma memeater_grows:
  assumes "\<And>j. k \<le> j \<Longrightarrow> j < k + n \<Longrightarrow> ea_malloc S j \<and> ea_statm S j \<noteq> None"
  shows "\<exists>ls. memeater_thread S n k used = Inr (used + of_nat n * 0x100000, ls)"
  using assms
proof (induction n arbitrary: k used)
  case (Suc n)
  obtain ls where "memeater_thread S n (Suc k) (used + 0x100000) = Inr (used + 0x100000 + of_nat n * 0x100000, ls)"
    using Suc.IH [of "Suc k" "used + 0x100000"] Suc.prems by auto
  with Suc.prems [of k] show ?case by (auto simp: Let_def algebra_simps)
qed simp

lemma memeater_unreadable:
  "ea_malloc S k \<Longrightarrow> ea_statm S k = None \<Longrightarrow> memeater_thread S (Suc n) k used = Inl Null_Deref"
  by (simp add: Let_def)

text \<open>One tick of the client's timer.\<close>

lemma sleep_loop_sends:
  "\<not> cl_interrupt c \<Longrightarrow> sleep_loop uuid n c =
     (0, c\<lparr>cl_counter := cl_counter c + int n, cl_uuids := cl_uuids c + n,
        cl_out := cl_out c @ map (\<lambda>i. test_call ''sleep'' ''echo'' (uuid i)) [cl_uuids c ..< cl_uuids c + n]\<rparr>)"
proof (induction n arbitrary: c)
  case (Suc n)
  have "[cl_uuids c ..< cl_uuids c + Suc n] = cl_uuids c # [Suc (cl_uuids c) ..< Suc (cl_uuids c) + n]"
    by (simp add: upt_conv_Cons)
  with Suc show ?case
    by (simp add: create_call_request client_send_def test_call_def del: upt.simps)
qed simp

section \<open>The introduction of the worker\<close>

lemma worker_introduction_read:
  assumes "is_cstr aid" and "5 \<le> length aid" and "unpack frame = Some (worker_introduction pid aid)" and "frame \<noteq> []"
  shows "\<exists>m. message_fromzmq strhex unpack now [ident, frame] True = Inr (Some m) \<and> msg_identity m = strhex ident \<and>
    msg_command m = Some ''introduce'' \<and> msg_actionid m = aid \<and> message_getName m = Inr (Some ''worker'') \<and>
    message_getPid m = Inr (int_of_u64 pid) \<and> message_getDesc m = Inr (Some ''worker test module'') \<and>
    message_getProvides m = Inr (Some [(''echo'', UPos 1), (''sleep'', UPos 1), (''payload'', UPos 1), (''memeat'', UPos 1)])"
proof -
  let ?ob = "worker_introduction pid aid"
  have c: "message_check_command ?ob = Inr (Some ''introduce'')"
    by (simp add: worker_introduction_def peer_defs)
  have a: "message_check_actionid ?ob = Inr (Some aid)"
    using assms(1,2) by (simp add: worker_introduction_def peer_defs mint_def)
  have "is_map ?ob" by (simp add: worker_introduction_def is_map_def)
  from message_fromzmq_two [where unpack = unpack, OF assms(3) this assms(4)] c a
  have "message_fromzmq strhex unpack now [ident, frame] True = Inr (Some (accepted strhex now True ident ?ob ''introduce'' aid))"
    by simp
  then show ?thesis
    by (intro exI [of _ "accepted strhex now True ident ?ob ''introduce'' aid"] conjI)
      (simp_all add: worker_introduction_def peer_defs mint_def zh_lookup_def cong: rbind_weak)
qed

definition worker_functions :: "uval zhash" where
  "worker_functions = [(''echo'', UPos 1), (''sleep'', UPos 1), (''payload'', UPos 1), (''memeat'', UPos 1)]"

lemma worker_version:
  "f \<in> set (zh_keys worker_functions) \<longleftrightarrow> f \<in> {''echo'', ''sleep'', ''payload'', ''memeat''}"
  "f \<in> {''echo'', ''sleep'', ''payload'', ''memeat''} \<Longrightarrow> provided_version worker_functions f = Inr 1"
  by (auto simp: worker_functions_def zh_keys_def provided_version_def zh_lookup_def)

lemma worker_joins:
  assumes inv: "router_inv p" and fr: "gateway_frame W bs"
    and free: "zh_lookup (wo_strhex W bs) (px_modules p) = None"
    and new: "\<forall>f \<in> {''echo'', ''sleep'', ''payload'', ''memeat''}. unknown ''worker'' f p"
    and pid: "int_of_u64 pid \<noteq> 0" "length (show_int (int_of_u64 pid)) < 10" and ans: "pid_accepted E answer = Inr True"
    and id: "is_cstr aid" "5 \<le> length aid" "wo_unpack W frame = Some (worker_introduction pid aid)" "frame \<noteq> []"
  shows "\<exists>p' ok mo. handle W E (Local_In [bs, frame] answer) p = Inr p' \<and> message_response (Some ''ok'') (Some aid) = Some ok \<and>
    px_out p' = px_out p @ [To_Procman [''check_pid'', show_int (int_of_u64 pid)],
      To_Procman [''register'', show_int (int_of_u64 pid), ''worker''], To_Local bs ok] \<and> px_queue p' = px_queue p \<and>
    (\<forall>f \<in> {''echo'', ''sleep'', ''payload'', ''memeat''}. ready p' ''worker'' f 1 bs mo) \<and>
    snd (mo_identity mo) = wo_strhex W bs \<and> (printable p \<longrightarrow> printable p')"
proof -
  obtain m where m: "message_fromzmq (wo_strhex W) (wo_unpack W) (ev_now E) [bs, frame] True = Inr (Some m)"
      "msg_identity m = wo_strhex W bs" "msg_command m = Some ''introduce''" "msg_actionid m = aid"
      "message_getName m = Inr (Some ''worker'')" "message_getPid m = Inr (int_of_u64 pid)"
      "message_getDesc m = Inr (Some ''worker test module'')" "message_getProvides m = Inr (Some worker_functions)"
    using worker_introduction_read [OF id(1,2), where unpack = "wo_unpack W" and strhex = "wo_strhex W" and now = "ev_now E" and ident = bs, OF id(3,4)]
    by (auto simp: worker_functions_def)
  have bs: "msg_identity m = concat (map show_hex_byte bs)" "length bs = 5"
    using m(2) fr by (simp_all add: gateway_frame_def)
  let ?mo = "introduced_module (px_next p) (msg_identity m) ''worker'' (int_of_u64 pid) (Some ''worker test module'') worker_functions"
  have cells: "known_cells p"
    using inv by (auto simp: router_inv_def wf_ifaces_def known_cells_def)
  have free': "zh_lookup (msg_identity m) (px_modules p) = None" using free m(2) by simp
  have "show_int (sint (1 :: u64)) = ''1''"
    by (simp add: show_int_def show_nat.simps digit_chars)
  then have "good_function ?mo worker_functions f" if "f \<in> {''echo'', ''sleep'', ''payload'', ''memeat''}" for f
    using that worker_version(2) [OF that] bs show_hex_length [of bs]
    by (auto simp: good_function_def short_offer_def introduced_module_def)
  then have fns: "\<forall>f \<in> set (zh_keys worker_functions). unknown ''worker'' f p \<and> good_function ?mo worker_functions f"
    using new worker_version(1) by blast
  have ne: "worker_functions \<noteq> []" by (simp add: worker_functions_def)
  obtain p' ok where p': "process_introduce E answer m p = Inr p'"
      "message_response (Some ''ok'') (Some (msg_actionid m)) = Some ok"
      "px_out p' = px_out p @ [To_Procman [''check_pid'', show_int (int_of_u64 pid)],
        To_Procman [''register'', show_int (int_of_u64 pid), ''worker''], To_Local bs ok]"
      "zh_lookup (msg_identity m) (px_modules p') = Some (?mo\<lparr>mo_state := IDLE\<rparr>)" "px_queue p' = px_queue p" "printable p \<longrightarrow> printable p'"
      "\<forall>f ver. provided_version worker_functions f = Inr ver \<longrightarrow> sole_offer (mo_identity ?mo) ''worker'' f ver p'"
    using process_introduce_new [OF m(5,6) pid m(7,8) ne ans bs free' cells refl fns] by blast
  have run: "handle W E (Local_In [bs, frame] answer) p = Inr p'"
    using m(1,3) p'(1) by (simp add: handle_local process_command_def)
  have "ready p' ''worker'' f 1 bs (?mo\<lparr>mo_state := IDLE\<rparr>)" if "f \<in> {''echo'', ''sleep'', ''payload'', ''memeat''}" for f
    by (rule sole_offer_ready [where ver = 1])
      (use p'(4,7) worker_version(2) [OF that] bs in \<open>auto simp: introduced_module_def\<close>)
  then show ?thesis
    using run p'(2,3,5,6) m(2,4) by (intro exI [of _ p'] exI [of _ ok] exI [of _ "?mo\<lparr>mo_state := IDLE\<rparr>"]) (simp add: introduced_module_def)
qed

section \<open>A concrete session\<close>

definition sleep_result :: mobj where
  "sleep_result = the (worker_result (Some ''call-1'') ''sleep'' (Some ''10''))"

definition test_world :: world where
  "test_world = \<lparr>wo_strhex = demo_strhex,
     wo_unpack = map_of [(''I'', worker_introduction 4711 ''intro-9''), (''S'', test_call ''sleep'' ''10'' ''call-1''),
       (''R'', sleep_result), (''M'', test_call ''memeat'' ''1'' ''call-2'')],
     wo_connect = (\<lambda>ep. True)\<rparr>"

lemma test_world_frames:
  "gateway_frame test_world worker_frame" "gateway_frame test_world client_frame"
  "wo_unpack test_world ''I'' = Some (worker_introduction 4711 ''intro-9'')"
  "wo_unpack test_world ''S'' = Some (test_call ''sleep'' ''10'' ''call-1'')"
  "wo_unpack test_world ''R'' = Some sleep_result"
  "wo_unpack test_world ''M'' = Some (test_call ''memeat'' ''1'' ''call-2'')"
  "answer_of ''sleep'' ''10'' ''call-1'' = Some sleep_result"
  by (simp_all add: gateway_frame_def test_world_def demo_strhex_def client_frame_def worker_frame_def sleep_result_def
      answer_of_def worker_result_def)

lemma test_world_start:
  "router_inv proxy_new" "px_queue proxy_new = []" "zh_lookup (wo_strhex test_world worker_frame) (px_modules proxy_new) = None"
  "\<forall>f \<in> {''echo'', ''sleep'', ''payload'', ''memeat''}. unknown ''worker'' f proxy_new" "printable proxy_new"
  "int_of_u64 4711 \<noteq> 0" "length (show_int (int_of_u64 4711)) < 10" "pid_accepted (demo_env t) (Some ''yes'') = Inr True"
  using start_ok(1)
  by (simp_all add: proxy_new_def unknown_def printable_def zl_new_def int_of_u64_def show_int_def demo_show_nat
      pid_accepted_def demo_env_def)

lemma atoi_ten: "atoi ''10'' = Inr 10"
  using atoi_show_int [of 10] by (simp add: int_range_def show_int_def show_nat.simps digit_chars)

section \<open>The whole session\<close>

text \<open>C9: The test worker with the broker and the test client: the worker introduces itself and is
  registered, each of its functions can be called at once, a call of the client for \<open>echo\<close> or
  \<open>sleep\<close> is handed to it, its answer goes back to the client, which counts a success, and the queue is
  empty again.\<close>

theorem worker_session:
  assumes "router_inv p" and "gateway_frame W bs" and "gateway_frame W fr" and "px_queue p = []"
    and "zh_lookup (wo_strhex W bs) (px_modules p) = None"
    and "\<forall>f \<in> {''echo'', ''sleep'', ''payload'', ''memeat''}. unknown ''worker'' f p"
    and "int_of_u64 pid \<noteq> 0" and "length (show_int (int_of_u64 pid)) < 10" and "pid_accepted E answer = Inr True"
    and "is_cstr iaid" and "5 \<le> length iaid" and "wo_unpack W fi = Some (worker_introduction pid iaid)" and "fi \<noteq> []"
    and "f \<in> {''echo'', ''sleep''}" and "is_cstr d" and "atoi d = Inr n" and "is_cstr aid" and "5 \<le> length aid"
    and "create_call (Some aid) (Some ''worker'') f (Some d) = Some ob" and "wo_unpack W fc = Some ob" and "fc \<noteq> []"
    and "answer_of f d aid = Some res" and "wo_unpack W fb = Some res" and "fb \<noteq> []" and "\<not> cl_interrupt c"
  shows "\<exists>p1 p2 p3 ok. handle W E (Local_In [bs, fi] answer) p = Inr p1 \<and>
    px_out p1 = px_out p @ [To_Procman [''check_pid'', show_int (int_of_u64 pid)],
      To_Procman [''register'', show_int (int_of_u64 pid), ''worker''], To_Local bs ok] \<and>
    handle W E' (Local_In [fr, fc] ans') p1 = Inr p2 \<and> px_out p2 = px_out p1 @ [To_Local bs ob] \<and>
    worker_poll (wo_unpack W) (Some [fc]) w = Inr (0, worker_puts (pause_of f n @ [Dealer_Out res]) w) \<and>
    handle W E'' (Local_In [bs, fb] ans'') p2 = Inr p3 \<and> px_out p3 = px_out p2 @ [To_Local fr res] \<and> px_queue p3 = [] \<and>
    client_event (wo_unpack W) [fb] c = Inr (0, c\<lparr>cl_success := cl_success c + 1\<rparr>)"
proof -
  obtain p1 ok mo where p1: "handle W E (Local_In [bs, fi] answer) p = Inr p1"
      "px_out p1 = px_out p @ [To_Procman [''check_pid'', show_int (int_of_u64 pid)],
        To_Procman [''register'', show_int (int_of_u64 pid), ''worker''], To_Local bs ok]" "px_queue p1 = px_queue p"
      "\<forall>f \<in> {''echo'', ''sleep'', ''payload'', ''memeat''}. ready p1 ''worker'' f 1 bs mo"
      "snd (mo_identity mo) = wo_strhex W bs"
    using worker_joins [OF assms(1,2,5-13)] by blast
  have ob: "ob = test_call f d aid" using assms(19) by (simp add: create_call_request test_call_def)
  have names: "\<forall>nv \<in> set [(f, d)]. is_cstr (fst nv)" "''actionid'' \<notin> fst ` set [(f, d)]"
    using assms(14) by (auto simp: is_cstr_def)
  have fn: "f \<in> {''echo'', ''sleep'', ''payload'', ''memeat''}" "is_cstr f" using assms(14) by (auto simp: is_cstr_def)
  have md: "is_cstr ''worker''" "''call'' \<in> set commands" by (simp_all add: is_cstr_def commands_def)
  obtain m where m: "message_fromzmq (wo_strhex W) (wo_unpack W) (ev_now E') [fr, fc] True = Inr (Some m)"
      "msg_command m = Some ''call''" "msg_actionid m = aid" "message_getModule m = Inr (Some ''worker'')"
      "message_getFunc m = Inr (Some f)" "message_getIfVersion m = Inr (u64_of_int 1)"
    using request_accepted [where unpack = "wo_unpack W" and strhex = "wo_strhex W" and now = "ev_now E'" and ident = fr and ver = 1,
        OF names md(2) assms(17,18) md(1) fn(2) _ assms(21)] assms(20) ob by (auto simp: test_call_def)
  have one: "u64_of_int 1 = 1" by (simp add: u64_of_int_def)
  have rd: "ready p1 ''worker'' f (u64_of_int 1) bs mo" using p1(4) fn(1) one by auto
  have "u64_of_int 1 \<noteq> 0" by (simp add: one)
  from call_arrives [OF rd assms(3) m this assms(20), of ans'] obtain m' q1 where
    q1: "handle W E' (Local_In [fr, fc] ans') p1 = Inr (q1\<lparr>px_queue := zh_insert aid m' (px_queue p1)\<rparr>)"
    "px_out q1 = px_out p1 @ [To_Local bs ob]" "msg_local m'" "msg_identity m' = concat (map show_hex_byte fr)"
    "msg_actionid m' = aid" "zh_lookup (snd (mo_identity mo)) (px_modules q1) = Some (mo\<lparr>mo_state := BUSY\<rparr>)"
    by blast
  let ?p2 = "q1\<lparr>px_queue := zh_insert aid m' (px_queue p1)\<rparr>"
  have queue: "px_queue ?p2 = [(aid, m')]" using assms(4) p1(3) by (simp add: zh_insert_def)
  have mo: "mo_state mo = IDLE" "\<not> mo_need_restart mo" using rd by (simp_all add: ready_def)
  have mod: "zh_lookup (wo_strhex W bs) (px_modules ?p2) = Some (mo\<lparr>mo_state := BUSY\<rparr>)" using q1(6) p1(5) by simp
  have "worker_result (Some aid) f (Some (if f = ''echo'' then ''ok'' else d)) = Some res"
    using assms(14,22) by (auto simp: answer_of_def)
  note R = worker_result_read [OF assms(17,18) this assms(14)]
  have fr: "length fr = 5" using assms(3) by (simp add: gateway_frame_def)
  obtain p3 where p3: "handle W E'' (Local_In [bs, fb] ans'') ?p2 = Inr p3" "px_out p3 = px_out ?p2 @ [To_Local fr res]"
    "px_queue p3 = []"
    using result_arrives [where E = E'' and answer = ans'', OF fr queue q1(3-5) mod mo assms(23,24) R(1-3)] by blast
  have "worker_poll (wo_unpack W) (Some [fc]) w = Inr (0, worker_puts (pause_of f n @ [Dealer_Out res]) w)"
    using worker_poll_call [where unpack = "wo_unpack W", OF fn(1) assms(17,15,16)] assms(20,22) ob by simp
  moreover have "client_event (wo_unpack W) [fb] c = Inr (0, c\<lparr>cl_success := cl_success c + 1\<rparr>)"
    using assms(23,25) R(4) by (simp add: client_event_def count_answer_def)
  ultimately show ?thesis using p1(1,2) q1(1,2) p3 by (intro exI [of _ p1] exI [of _ ?p2] exI [of _ p3] exI [of _ ok]) simp
qed

theorem worker_session_witness:
  "\<exists>p1 p2 p3. handle test_world (demo_env 1) (Local_In [worker_frame, ''I''] (Some ''yes'')) proxy_new = Inr p1 \<and>
    handle test_world (demo_env 2) (Local_In [client_frame, ''S''] None) p1 = Inr p2 \<and>
    handle test_world (demo_env 3) (Local_In [worker_frame, ''R''] None) p2 = Inr p3 \<and> px_queue p3 = [] \<and>
    client_event (wo_unpack test_world) [''R''] (client_new 0) = Inr (0, (client_new 0)\<lparr>cl_success := 1\<rparr>)"
  using worker_session [OF test_world_start(1) test_world_frames(1,2) test_world_start(2-4,6-8) _ _ test_world_frames(3) _ _ _ atoi_ten
      _ _ _ test_world_frames(4) _ test_world_frames(7,5), of "client_new 0" 1 "demo_env 2" None undefined "demo_env 3" None]
  by (simp add: is_cstr_def client_new_def create_call_request test_call_def) blast

section \<open>Functions without an answer\<close>





end
