(* ===== verification/Spec2Isabelle.thy ===== *)
theory Spec2Isabelle
  imports Data_Properties Dispatcher Local_Mode Two_Brokers Setup_Properties Gateway_Properties Worker_Properties
begin

text \<open>
  ModBusServer is a message broker: modules (local processes, over a ZeroMQ router socket) offer
  functions, clients call them, brokers find each other by UDP beacons and pass calls on. This
  library models the program under \<^verbatim>\<open>src/modbus\<close> in definitions that follow the C code function
  by function, and proves what its parts promise, alone and together; where the code fails on
  some input, that is stated and proved as well.

  \<^bold>\<open>Parts of the program and theories.\<close>

  \<^item> \<^verbatim>\<open>Prelude\<close>: results with faults (\<open>Inl\<close> a reason why the code does not go on, such as a NULL
    pointer, a buffer that overflows, an \<open>assert\<close>, \<open>exit\<close>; \<open>Inr\<close> the result), folds over them,
    machine integers. \<^verbatim>\<open>C_Strings\<close>: the functions of the C library on strings (\<open>strtok\<close>, \<open>atoi\<close>, \<open>strtol\<close>,
    \<open>sprintf\<close> into a buffer, \<open>memcmp\<close>, a string used as a format).
  \<^item> \<^verbatim>\<open>Czmq\<close>: lists with a cursor (\<open>zlist\<close>) and hash tables (\<open>zhash\<close>) with their iteration, stated as
    the locales \<open>keyed_store\<close> and \<open>iteration\<close>, which the components interpret.
  \<^item> \<^verbatim>\<open>Helper\<close> is \<^verbatim>\<open>src/modbus_helper.c\<close>: readers of unpacked msgpack objects.
  \<^item> \<^verbatim>\<open>Interface\<close> is \<^verbatim>\<open>src/interface.c\<close>, \<^verbatim>\<open>Entities\<close> is \<^verbatim>\<open>src/module.c\<close> and \<^verbatim>\<open>src/fabric.c\<close>, \<^verbatim>\<open>Message\<close> is
    \<^verbatim>\<open>src/message.c\<close>.
  \<^item> \<^verbatim>\<open>Router\<close>, \<^verbatim>\<open>Handlers\<close> and \<^verbatim>\<open>Broker\<close> are \<^verbatim>\<open>src/modbusd.c\<close>: the state \<open>proxy\<close> and the placing of a
    call (\<open>send_message\<close>, \<open>check_interface\<close>, \<open>place_call\<close>), the handlers of the nine commands, of the
    timers, of the beacon (\<^verbatim>\<open>src/beacon.c\<close>) and of the process manager's messages, and the reactor
    with the states it reaches (\<open>handle\<close>, \<open>reach\<close>).
  \<^item> \<^verbatim>\<open>Ini\<close> is \<^verbatim>\<open>src/ini.c\<close>, the reader of configuration files; \<^verbatim>\<open>Config\<close> is \<^verbatim>\<open>src/config.c\<close>.
  \<^item> \<^verbatim>\<open>Procman\<close> is \<^verbatim>\<open>src/procman.c\<close> and \<^verbatim>\<open>src/process.c\<close>: the thread that starts, watches and restarts the
    processes of the modules, with its reachable states \<open>pm_reach\<close>.
  \<^item> \<^verbatim>\<open>Logger\<close> is \<^verbatim>\<open>src/logger.c\<close> and \<^verbatim>\<open>src/logger-file.c\<close>: the lines of the log and the thread that writes
    them and rolls the file (\<open>log_reach\<close>).
  \<^item> \<^verbatim>\<open>Startup\<close>: \<open>execute\<close>, \<open>createPidFile\<close> and \<open>finalize\<close> of \<^verbatim>\<open>src/modbusd.c\<close>, and the beacon that is sent.
    \<^verbatim>\<open>Bringup\<close> is what is around them: \<open>main\<close>, \<open>daemonize\<close>, the pid file on the disk, the socket file and the
    signal handlers.
  \<^item> \<^verbatim>\<open>FastCGI\<close> is \<^verbatim>\<open>modules/fastcgi/modbus_fastcgi.c\<close>: a module that turns HTTP requests into calls and
    answers into responses (\<open>gw_reach\<close>).
  \<^item> \<^verbatim>\<open>Lifetimes\<close> is what the constructors of all objects allocate and their destructors free.
  \<^item> \<^verbatim>\<open>Test_Peers\<close> is \<^verbatim>\<open>test/worker.c\<close>, a module, and \<^verbatim>\<open>test/broker.c\<close>, a client.

  \<^bold>\<open>What the lemmas show.\<close>

  \<^item> \<^verbatim>\<open>Router_Facts\<close>, \<^verbatim>\<open>Router_Inv\<close>, \<^verbatim>\<open>Queue_Inv\<close>, \<^verbatim>\<open>Broker_Inv\<close>: the invariant of the broker's tables
    (\<open>router_inv\<close>) and the exclusive use of modules (\<open>exclusive\<close>), kept by every event. The latter rests
    on two assumptions about peers, \<open>honest_answer\<close> and \<open>fresh_introduction\<close> in \<^verbatim>\<open>Broker\<close>.
  \<^item> \<^verbatim>\<open>Placing\<close>, \<^verbatim>\<open>Replies\<close>, \<^verbatim>\<open>Timeouts\<close>, \<^verbatim>\<open>Peers\<close>: where a call goes, how it is answered, that each pass of the
    queue timer settles the calls by the table of the timeouts and returns, and the polling of
    other brokers.
  \<^item> \<^verbatim>\<open>Dispatcher\<close>: the abstract specification of the broker, a book of calls with four actions; every event
    is a sequence of them (the relation \<open>progress\<close> of \<^verbatim>\<open>Replies\<close> gives the change of every single call).
    \<^verbatim>\<open>Local_Mode\<close>: the broker without the global mode, where placing a call cannot fail.
  \<^item> \<^verbatim>\<open>Offers\<close>, \<^verbatim>\<open>Whole_Call\<close>, \<^verbatim>\<open>Two_Brokers\<close>, \<^verbatim>\<open>Relay\<close>: the composition. A module offers its functions; a call is
    handed over and answered, at one broker and across two; and the FastCGI module and the broker
    with the frames between them as one system (\<open>relay_reach\<close>), which loses no request.
  \<^item> \<^verbatim>\<open>Message_Facts\<close>, \<^verbatim>\<open>Exchange\<close>: messages that are built are accepted and read back; the interfaces
    that one broker offers become the remote interfaces of another.
  \<^item> \<^verbatim>\<open>Ini_Facts\<close>: the reader agrees with a reference on lists of lines, quotation round trips, the
    loop of \<open>ini_browse\<close> ends. \<^verbatim>\<open>Config_Facts\<close>: every string fits its array; the timeouts come from the file.
  \<^item> \<^verbatim>\<open>Procman_Facts\<close>, \<^verbatim>\<open>Restart\<close>: the table of processes, and the restart protocol of process manager
    and broker, with the ways it goes wrong.
  \<^item> \<^verbatim>\<open>Logger_Facts\<close>, \<^verbatim>\<open>Startup_Facts\<close>, \<^verbatim>\<open>Bringup_Facts\<close>, \<^verbatim>\<open>FastCGI_Facts\<close>: whole lines and old files, the announced
    endpoint and the shutdown, the pid file over several starts, the life of an HTTP request.
  \<^item> \<^verbatim>\<open>Scenario\<close> holds the concrete states that the properties are applied to. The properties are in
    this theory (the broker), \<^verbatim>\<open>Data_Properties\<close> (its data), \<^verbatim>\<open>Setup_Properties\<close> (configuration, processes,
    start, end and log), \<^verbatim>\<open>Gateway_Properties\<close> (FastCGI) and \<^verbatim>\<open>Worker_Properties\<close> (the test programs).

  \<^bold>\<open>How the code is read.\<close>

  \<^item> Strings are lists of characters without NUL; a frame or a raw object may contain it and is cut
    (\<open>cstr\<close>) where the code takes it for a string. Unsigned 64-bit fields are words with their
    wrap-around; an \<open>int\<close> is an integer, and arithmetic that leaves its range is a fault.
  \<^item> A hash table is an association list; between two events it may be reorganised (the \<open>rehash\<close>
    rules of the reachable states), so that nothing rests on its order. A pointer that outlives
    what it points to is followed where the code has one: the freed entries of the process table, and
    \<open>routed_via\<close> of a call whose module is removed while it works (\<open>Use_After_Free\<close>). Interfaces are
    never freed.
  \<^item> Libraries are parameters: packing and unpacking of msgpack, \<open>zframe_strhex\<close>, connecting, UUIDs,
    whether \<open>zlist_remove\<close> compares pointers or strings (\<open>ev_byval\<close>), the FastCGI library, the operating
    system with clock, \<open>fork\<close>, files and sockets. The clock is read once per event. What is sent is
    appended to an output of the state.
  \<^item> Calls of the log are left out, except where they dereference a pointer that may be NULL, fill
    a buffer of their own or use a received string as the format; a NULL string printed with
    \<open>%s\<close> is ignored.

  \<^bold>\<open>Bounds.\<close> The loops over lists with a cursor (\<open>zl_each\<close>, \<open>zl_search\<close>, \<open>iface_remove_loop\<close>) carry a fuel of one more
  than the length of the list; every step moves the cursor on, so that it is never used up. The
  loops over files, ports and numbers of log files terminate by measures. \<open>browse_loop\<close> is a partial
  function, and \<open>browsing_returns\<close> proves that it ends. Numbers of sections and the sizes of log
  files are unbounded, the limit of a log file is checked against \<open>long\<close>.

  \<^bold>\<open>Not modelled.\<close> What the libraries do: packing and unpacking, sockets and their set-up, \<open>strtod\<close>, the
  reactor's own scheduling; \<open>message_dump\<close>, which prints; the redirection of the streams of a child
  process and the switch to its user, which only concern the process after \<open>fork\<close>; the text of the log
  calls that touch no pointer or buffer. The headers declare what the other files define. Packed
  frames are related to objects by \<open>wo_unpack\<close>: which bytes a message has on the wire is the library's.
\<close>

section \<open>The state of the broker\<close>



text \<open>C2: In every reachable state, a module that has been handed a call is not idle, and it has
  been handed only one: two calls of the queue never occupy the same module.\<close>

theorem reachable_exclusive:
  assumes "reach W p" and "zh_lookup k (px_queue p) = Some m" and "works_on via m"
  shows "(\<forall>mo. zh_lookup via (px_modules p) = Some mo \<longrightarrow> mo_state mo \<noteq> IDLE) \<and>
    (\<forall>k' m'. zh_lookup k' (px_queue p) = Some m' \<longrightarrow> works_on via m' \<longrightarrow> k' = k)"
  using reach_ok [OF assms(1)] assms(2,3) unfolding exclusive_def exclusive_in_def by blast

theorem reachable_exclusive_witness:
  "mo_state (the (zh_lookup ''00ABCD0102'' (px_modules (called 2000)))) \<noteq> IDLE"
  using reachable_exclusive [where W = demo_world and p = "called 2000" and k = "''call-1''"
      and m = "placed_call 2000" and via = "''00ABCD0102''"]
    reach_called [of 2000]
  by (simp add: called_def zh_lookup_def works_on_def placed_call_def)

section \<open>Calls\<close>

text \<open>C3: The broker implements a dispatcher of calls. What its queue holds is reached from an empty book by
  actions of the dispatcher, which enters a call as waiting, hands it to a module that has no
  other call or passes it on, once, and strikes it off; and every event is a sequence of such actions,
  each with what it stands for: a call is entered because it arrived, under the name of its
  sender; for one that is handed over or passed on, its message has been sent there; and one
  of a local client leaves only with an answer to that client.\<close>

theorem broker_refines_dispatcher:
  assumes "reach W p" and "admissible W E ev p" and "handle W E ev p = Inr p'"
  shows "(\<exists>as. dpath Map.empty as (book_of p)) \<and>
    (\<exists>as. dpath (book_of p) as (book_of p') \<and> (\<forall>a \<in> set as. backed W E ev p p' a))"
  using reach_dispatched [OF assms(1)] event_dispatched [OF assms] by blast

theorem broker_refines_dispatcher_witness:
  "\<exists>as. dpath (book_of introduced) as (book_of (called 2000)) \<and> as \<noteq> []"
proof -
  have "(2000 :: u64) \<noteq> 0" by simp
  from broker_refines_dispatcher [OF reach_introduced call_admissible [OF this] demo_call] obtain as
    where as: "dpath (book_of introduced) as (book_of (called 2000))" by blast
  have "book_of introduced ''call-1'' = None" "book_of (called 2000) ''call-1'' \<noteq> None"
    by (simp_all add: book_of_def introduced_def called_def zh_lookup_def)
  then have "as \<noteq> []" using as by (auto elim: dpath.cases)
  with as show ?thesis by blast
qed

text \<open>C4: No call of a local client is lost. Whatever happens, a queued call of a local client is
  still in the queue after an event, or an answer to it has been sent to the client that made it:
  an exception of the broker for its action id, or a message that carries its action id.\<close>

theorem local_call_never_lost:
  assumes "reach W p" and "handle W E ev p = Inr p'"
    and "zh_lookup k (px_queue p) = Some m" and "msg_local m"
  shows "(\<exists>m'. zh_lookup k (px_queue p') = Some m' \<and> same_caller m m') \<or>
    (\<exists>ob pre es post. answer_for (msg_actionid m) ob \<and>
       px_out p' = px_out p @ pre @ es @ post \<and> sends ob (msg_identity m) es)"
proof -
  have "router_inv p" using reach_ok [OF assms(1)] by blast
  from handle_progress [OF this assms(2) answer_for_admits] received_expected have "progress answer_for {} p p'"
    by blast
  with assms(3,4) show ?thesis
    unfolding progress_def kept_or_answered_def sent_between_def by blast
qed

theorem local_call_never_lost_witness:
  "\<exists>ob pre es post. answer_for ''call-1'' ob \<and>
    px_out (idle_again 2000) = px_out (called 2000) @ pre @ es @ post \<and> sends ob ''0011223344'' es"
  using local_call_never_lost [of demo_world "called 2000", OF _ demo_result [of 3000 2000], of "''call-1''" "placed_call 2000"]
    reach_called [of 2000]
  by (simp add: placed_call_simps, simp add: called_def idle_again_def zh_lookup_def)

text \<open>C10: One pass of the queue timer settles every call by its verdict: a call that is late, by
  the table of the three timeouts, is removed, and an exception with that text and code is
  sent to its caller; every other call stays as it is.\<close>

theorem queue_timer_settles:
  assumes "reach W p" and "process_queue E p = Inr p'" and "zh_lookup k (px_queue p) = Some m"
  shows "verdict E m = Inr None \<and> zh_lookup k (px_queue p') = Some m \<or>
    (\<exists>t c ob pre es post. verdict E m = Inr (Some (t, c)) \<and> zh_lookup k (px_queue p') = None \<and>
       message_exception (Some (msg_actionid m)) t c = Some ob \<and>
       px_out p' = px_out p @ pre @ es @ post \<and> sends ob (msg_identity m) es)"
proof -
  have "zh_wf (px_queue p)"
    using reach_ok [OF assms(1)] by (simp add: router_inv_def wf_queue_def)
  from process_queue_spec [OF assms(2) this assms(3)] show ?thesis
    unfolding timed_out_def sent_between_def by blast
qed

theorem queue_timer_settles_witness:
  "\<exists>p'. process_queue (demo_env 10003000) (called 2000) = Inr p' \<and> zh_lookup ''call-1'' (px_queue p') = None"
proof -
  obtain p' where p': "process_queue (demo_env 10003000) (called 2000) = Inr p'"
    using process_queue_returns [OF called_timer_safe [of 2000]] by (auto simp: returns_iff)
  have "verdict (demo_env 10003000) (placed_call 2000) \<noteq> Inr None"
    by (simp add: late_verdict)
  with queue_timer_settles [OF reach_called p', of "''call-1''" "placed_call 2000"] p' show ?thesis
    by auto
qed



text \<open>C15: The result of a call reaches the client that made the call: it is the first message
  sent, and the call has left the queue when the handler is done, also after waiting calls
  have been given to the module that is free again.\<close>

theorem result_reaches_caller:
  assumes "router_inv p" and "zh_lookup (msg_actionid m) (px_queue p) = Some stored"
    and "msg_local stored" and "process_result E m p = Inr p'"
  shows "\<exists>es rest. px_out p' = px_out p @ es @ rest \<and> sends (msg_object m) (msg_identity stored) es \<and>
    zh_lookup (msg_actionid m) (px_queue p') = None"
  by (rule process_result_delivers [OF assms])

theorem result_reaches_caller_witness:
  "\<exists>es rest. px_out (idle_again 2000) = px_out (called 2000) @ es @ rest \<and> sends result_obj ''0011223344'' es \<and>
    zh_lookup ''call-1'' (px_queue (idle_again 2000)) = None"
  using result_reaches_caller [OF _ _ _ demo_result_handler [of 3000 2000]] reach_ok [OF reach_called [of 2000]]
  by (simp add: result_message_def)

section \<open>Placing a call\<close>

text \<open>C11: Placing a call has one of three outcomes, and each changes only what it must: the call
  waits and nothing is sent; or it was handed to a module that was idle and is now busy, with
  the time noted; or it was sent on to an identity that is no idle module. The rest of the
  state and of the message is unchanged, and -1 is returned exactly if no interface fits.\<close>

theorem placing_outcomes:
  assumes "place_call E m p = Inr (rc, m', p')"
  shows "call_outcome E m p m' p' \<and> same_message m m' \<and> same_frame p p' \<and>
    (rc = -1) = (msg_routed m = None \<and> msg_iface m' = None)"
  using place_call_effect(1-4) [OF assms] by auto

theorem placing_outcomes_witness:
  "call_outcome (demo_env 5) (the_call 5) introduced (placed_call 5) ((called 5)\<lparr>px_queue := []\<rparr>)"
  using placing_outcomes [OF demo_placing [of 5]] by simp

text \<open>A new call whose interface is offered by an idle first local provider, and by no
  fabric, is handed to it at once: the provider gets the message and becomes busy.\<close>

theorem idle_provider_gets_call:
  assumes "finds m p a" and "zl_items (if_local (px_heap p a)) = q # qs" and "if_globals (px_heap p a) = []"
    and "zh_lookup (snd q) (px_modules p) = Some mo" and "mo_identity mo = q" and "mo_state mo = IDLE"
    and "snd q = concat (map show_hex_byte bs)" and "length bs = 5"
  shows "\<exists>m' p'. place_call E m p = Inr (0, m', p') \<and> msg_routed m' = Some (snd q) \<and>
    msg_proc_ts m' = ev_now E \<and> zh_lookup (snd q) (px_modules p') = Some (mo\<lparr>mo_state := BUSY\<rparr>) \<and>
    px_out p' = px_out p @ [To_Local bs (msg_object m)]"
  using place_call_idle [OF assms] by blast

theorem idle_provider_gets_call_witness:
  "\<exists>m' p'. place_call (demo_env 5) (the_call 5) introduced = Inr (0, m', p') \<and>
    msg_routed m' = Some ''00ABCD0102'' \<and> msg_proc_ts m' = 5 \<and>
    zh_lookup ''00ABCD0102'' (px_modules p') = Some (worker\<lparr>mo_state := BUSY\<rparr>) \<and>
    px_out p' = px_out introduced @ [To_Local worker_frame call_obj]"
  using idle_provider_gets_call [OF call_finds [of 5] calc_providers(1,2) introduced_worker, where bs = worker_frame
      and E = "demo_env 5"]
  by (simp add: worker_frame_hex)

text \<open>The second broker of the example knows the first one by its endpoint.\<close>

definition home_endpoint :: string where
  "home_endpoint = ''tcp://10.0.0.1:49152''"

definition introduced_home :: proxy where
  "introduced_home = introduced\<lparr>px_fabs := [(home_endpoint, \<lparr>fb_identity = (9, home_endpoint), fb_peer = True, fb_alive = False\<rparr>)]\<rparr>"

lemma demo_linked: "linked home_endpoint learnt far_endpoint introduced_home ''calc'' ''add'' 1 worker_frame worker"
proof -
  have "offered_by far_endpoint learnt ''calc'' ''add'' 1"
    using learnt_fabs call_finds_learnt [of 0] learnt_providers by (simp add: offered_by_def finds_def)
  moreover have "ready introduced_home ''calc'' ''add'' 1 worker_frame worker"
  proof -
    have home: "px_modules introduced_home = px_modules introduced" "px_heap introduced_home = px_heap introduced"
        "px_ifaces introduced_home = px_ifaces introduced"
      by (simp_all add: introduced_home_def)
    show ?thesis
      using introduced_worker introduced_ifaces calc_providers
      by (simp add: ready_def home worker_frame_hex iface_serves_def calc_iface_def, simp add: worker_def)
  qed
  moreover have "px_queue learnt = []" by (simp add: learnt_def far_state_def proxy_new_def)
  ultimately show ?thesis
    by (simp add: linked_def introduced_home_def zh_lookup_def home_endpoint_def is_cstr_def introduced_def)
qed

lemma demo_frames:
  "reads_call demo_world ''C'' call_obj ''call-1'' ''calc'' ''add'' 1" "reads_result demo_world ''R'' result_obj ''call-1''"
  "gateway_frame demo_world client_frame" "gateway_frame demo_world worker_frame"
  by (simp_all add: reads_call_def reads_result_def demo_world_def demo_unpack_def is_map_def reader_defs call_obj_def
      result_obj_def gateway_frame_def demo_strhex_def client_frame_def worker_frame_def cong: rbind_weak)

text \<open>C7: A call between two brokers: the broker of the client, which knows the function only from the
  interface list of the other one, passes the call on; the other one hands it to its idle worker,
  sends the result of the worker back, and the first one gives it to the client. Both queues are
  empty then, and the worker is idle.\<close>

theorem remote_call_answered:
  assumes "linked ga a gb b md func ver bs mo" and "reads_call W f call aid md func ver" and "reads_result W f' res aid"
    and "gateway_frame W fr" and "gateway_frame W bs"
  shows "\<exists>a1 b1 b2 a2.
    handle W E1 (Local_In [fr, f] ans) a = Inr a1 \<and> px_out a1 = px_out a @ [To_Fabric gb call] \<and>
    handle W E2 (Global_In [ga, f] ans) b = Inr b1 \<and> px_out b1 = px_out b @ [To_Local bs call] \<and>
    handle W E3 (Local_In [bs, f'] ans) b1 = Inr b2 \<and> px_out b2 = px_out b1 @ [To_Fabric ga res] \<and>
    handle W E4 (Global_In [gb, f'] ans) a1 = Inr a2 \<and> px_out a2 = px_out a1 @ [To_Local fr res] \<and>
    px_queue a2 = [] \<and> px_queue b2 = [] \<and> zh_lookup (snd (mo_identity mo)) (px_modules b2) = Some mo"
  by (rule remote_call_steps [OF assms])

theorem remote_call_answered_witness:
  "\<exists>a1 b1 b2 a2.
    handle demo_world (demo_env 1) (Local_In [client_frame, ''C''] None) learnt = Inr a1 \<and>
    handle demo_world (demo_env 2) (Global_In [home_endpoint, ''C''] None) introduced_home = Inr b1 \<and>
    handle demo_world (demo_env 3) (Local_In [worker_frame, ''R''] None) b1 = Inr b2 \<and>
    handle demo_world (demo_env 4) (Global_In [far_endpoint, ''R''] None) a1 = Inr a2 \<and>
    px_out a2 = px_out a1 @ [To_Local client_frame result_obj]"
  using remote_call_answered [OF demo_linked demo_frames(1,2) demo_frames(3,4), where ?E1.0 = "demo_env 1"
      and ?E2.0 = "demo_env 2" and ?E3.0 = "demo_env 3" and ?E4.0 = "demo_env 4" and ans = None]
  by blast

text \<open>A call of a local client for an interface that only fabrics offer is sent to the second
  fabric of the list, or to the first if it is the only one.\<close>

theorem remote_call_second_fabric:
  assumes "finds m p a" and "msg_local m" and "zl_items (if_local (px_heap p a)) = []"
    and "if_globals (px_heap p a) = g # gs" and "via = (if gs = [] then g else hd gs)"
    and "zh_lookup via (px_fabs p) = Some fab" and "fb_peer fab" and "length via > 10"
    and "zh_lookup via (px_modules p) = None"
  shows "\<exists>m' p'. place_call E m p = Inr (0, m', p') \<and> msg_routed m' = Some via \<and>
    msg_out_ts m' = ev_now E \<and> px_modules p' = px_modules p \<and>
    px_out p' = px_out p @ [To_Fabric via (msg_object m)]"
  by (rule place_call_remote [OF assms])

theorem remote_call_second_fabric_witness:
  "\<exists>m' p'. place_call (demo_env 5) (the_call 5) learnt = Inr (0, m', p') \<and> msg_routed m' = Some far_endpoint \<and>
    msg_out_ts m' = 5 \<and> px_modules p' = px_modules learnt \<and> px_out p' = px_out learnt @ [To_Fabric far_endpoint call_obj]"
  using remote_call_second_fabric [OF call_finds_learnt [of 5] _ learnt_providers refl, where fab = far_fabric
      and E = "demo_env 5"]
  by (simp add: learnt_fabs)

text \<open>C39: With the global mode off the broker is alone, and placing cannot fault: in every state that the
  reactor of such a configuration reaches there is no fabric and nothing was sent to one, every
  pass over the waiting calls returns, and so does the placing of any new local call.\<close>

theorem local_mode_safe:
  assumes "execute bind self_ip local_new local_bind conf = Inr (Some r)" and "sc_global conf = 0"
    and "polled_reach r W p"
  shows "px_fabs p = [] \<and> (\<forall>e \<in> set (px_out p). inward e) \<and> (\<exists>p'. place_all E p = Inr p') \<and>
    (\<forall>m. local_call m \<longrightarrow> returns (place_call E m p))"
proof -
  have s: "staffed_alone p" using polled_staffed [OF assms(3) execute_local [OF assms(1,2)]] .
  have "returns (place_call E m p)" if "local_call m" for m
    using place_alone_returns [OF s that, of E] by (auto simp: returns_iff)
  with s place_all_alone [OF s, of E] show ?thesis by (auto simp: staffed_alone_def alone_def)
qed

theorem local_mode_safe_witness:
  "\<exists>r p'. execute (\<lambda>e. False) None True True config_zero = Inr (Some r) \<and> polled_reach r demo_world (called 2000) \<and>
    place_all (demo_env 5) (called 2000) = Inr p'"
proof -
  obtain r where r: "execute (\<lambda>e. False) None True True config_zero = Inr (Some r)"
    by (simp add: execute_def config_zero_def)
  have off: "sc_global config_zero = 0" by (simp add: config_zero_def)
  have ids: "zmq_identities demo_world (Local_In [fr, x] a)" if "length fr = 5" for fr x a
    using that by (simp add: zmq_identities_def demo_world_def demo_strhex_def)
  have polls: "reactor_polls r (Local_In msg a)" for msg a by (simp add: reactor_polls_def)
  have "polled_reach r demo_world proxy_new"
    using polled_reach.start [of r demo_world] execute_local [OF r off] by (simp add: local_reactor_def)
  from polled_reach.event [OF this polls ids introduction_admissible demo_introduction]
  have "polled_reach r demo_world introduced" by (simp add: worker_frame_def)
  from polled_reach.event [OF this polls ids call_admissible demo_call, of 2000]
  have p: "polled_reach r demo_world (called 2000)" by (simp add: client_frame_def)
  from local_mode_safe [OF r off p] r p show ?thesis by blast
qed

text \<open>C40: A call for an interface that a local module and a fabric offer faults: the loop over the
  local providers goes on in the list of fabrics, looks the fabric up among the modules and
  dereferences what it does not find.\<close>

theorem mixed_providers_fault:
  assumes "finds m p a" and "zl_items (if_local (px_heap p a)) = q # qs"
    and "if_globals (px_heap p a) = g # gs" and "zl_cur (if_global (px_heap p a)) = None"
    and "zh_lookup g (px_modules p) = None"
  shows "place_call E m p = Inl Null_Deref"
  by (rule place_call_mixed [OF assms])

theorem mixed_providers_fault_witness:
  "place_call (demo_env 5) (the_call 5) mixed = Inl Null_Deref"
  by (rule mixed_providers_fault [OF call_finds_mixed [of 5] mixed_providers])

text \<open>Only the first local provider is ever looked at: if it is not idle, a new call waits,
  whatever the state of the other providers.\<close>

theorem only_first_provider:
  assumes "finds m p a" and "zl_items (if_local (px_heap p a)) = q # qs" and "if_globals (px_heap p a) = []"
    and "zh_lookup (snd q) (px_modules p) = Some mo" and "mo_state mo \<noteq> IDLE"
  shows "\<exists>m' p'. place_call E m p = Inr (0, m', p') \<and> msg_routed m' = None \<and> msg_iface m' = Some a \<and>
    px_out p' = px_out p \<and> px_modules p' = px_modules p"
  by (rule place_call_busy [OF assms])

theorem only_first_provider_witness:
  "\<exists>m' p'. place_call (demo_env 5) (the_call 5) two_workers = Inr (0, m', p') \<and> msg_routed m' = None \<and>
    px_out p' = px_out two_workers"
  using only_first_provider [OF call_finds_two [of 5] two_providers(1,2) two_modules, where E = "demo_env 5"]
  by blast

text \<open>The answer "modules busy" of a fabric, which is meant to place the call anew, does
  nothing: the call keeps its route, because the route that is cleared is that of the answer.\<close>

theorem busy_answer_ignored:
  assumes "zh_lookup (msg_actionid m) (px_queue p) = Some stored" and "\<not> msg_local m" and "msg_local stored"
    and "message_getExceptionCode m = Inr MODULES_BUSY" and "msg_routed stored = Some via"
  shows "\<exists>p'. process_exception E m p = Inr p' \<and> px_out p' = px_out p \<and> px_modules p' = px_modules p \<and>
    (\<forall>k. zh_lookup k (px_queue p') = zh_lookup k (px_queue p))"
  using assms by (simp add: process_exception_def place_call_def zh_lookup_modify)

theorem busy_answer_ignored_witness:
  "\<exists>p'. process_exception (demo_env 7) busy_message (called 5) = Inr p' \<and> px_out p' = px_out (called 5) \<and>
    px_modules p' = px_modules (called 5) \<and> zh_lookup ''call-1'' (px_queue p') = Some (placed_call 5)"
  using busy_answer_ignored [of busy_message "called 5" "placed_call 5" "''00ABCD0102''" "demo_env 7"]
  by (auto simp: busy_message_simps)

text \<open>A call whose action id is already in the queue is carried out but not queued: an idle
  provider gets it and becomes busy, while the queue keeps the earlier call only, so the
  answer goes to the earlier caller.\<close>

theorem duplicate_action_id:
  assumes "message_getIfVersion m0 = Inr ver" and "message_getModule m0 = Inr (Some md)"
    and "message_getFunc m0 = Inr (Some func)" and "ver \<noteq> 0"
    and "zh_lookup (msg_actionid m0) (px_queue p) = Some earlier"
    and "finds (call_of m0 ver (Some md) (Some func)) p a"
    and "zl_items (if_local (px_heap p a)) = q # qs" and "if_globals (px_heap p a) = []"
    and "zh_lookup (snd q) (px_modules p) = Some mo" and "mo_identity mo = q" and "mo_state mo = IDLE"
    and "snd q = concat (map show_hex_byte bs)" and "length bs = 5"
  shows "\<exists>p'. process_call E m0 p = Inr p' \<and> px_queue p' = px_queue p \<and>
    zh_lookup (snd q) (px_modules p') = Some (mo\<lparr>mo_state := BUSY\<rparr>) \<and>
    px_out p' = px_out p @ [To_Local bs (msg_object m0)]"
proof -
  let ?m = "call_of m0 ver (Some md) (Some func)"
  obtain m' p1 where pc: "place_call E ?m p = Inr (0, m', p1)" and via: "msg_routed m' = Some (snd q)"
    and p1: "zh_lookup (snd q) (px_modules p1) = Some (mo\<lparr>mo_state := BUSY\<rparr>)"
      "px_out p1 = px_out p @ [To_Local bs (msg_object m0)]"
    using place_call_idle [OF assms(6-13), of E] by (auto simp: call_of_def)
  have same: "msg_actionid m' = msg_actionid m0" "px_queue p1 = px_queue p"
    using place_call_effect(1,2) [OF pc] by (simp_all add: same_message_def same_frame_def call_of_def)
  have "process_call E m0 p = Inr (p1\<lparr>px_queue := zh_insert (msg_actionid m') m' (px_queue p1)\<rparr>)"
    using pc via assms(1-4) by (simp add: process_call_def call_of_def)
  with p1 same assms(5) show ?thesis by (simp add: zh_insert_def)
qed

theorem duplicate_action_id_witness:
  "\<exists>p'. process_call (demo_env 5) (the_call 5) waiting = Inr p' \<and> px_queue p' = px_queue waiting \<and>
    zh_lookup ''00ABCD0102'' (px_modules p') = Some (worker\<lparr>mo_state := BUSY\<rparr>)"
  using duplicate_action_id [OF call_fields [OF the_call_simps(2)] _ waiting_lookup waiting_finds waiting_providers
      waiting_worker, where bs = worker_frame and E = "demo_env 5"]
  by (auto simp: worker_frame_hex)

section \<open>Peers\<close>

text \<open>C24: A poll asks every fabric that has been heard of since the last one, and drops the others:
  a fabric that stays silent between two polls is gone after the second, and (where
  \<open>zlist_remove\<close> compares strings) no interface names it any more.\<close>

theorem polling_drops_silent:
  assumes "router_inv p" and "get_ifacelist_event E p = Inr p'" and "zh_lookup k (px_fabs p) = Some fab"
  shows "if fb_alive fab then zh_lookup k (px_fabs p') = Some (fab\<lparr>fb_alive := False\<rparr>)
    else zh_lookup k (px_fabs p') = None \<and>
      (ev_byval E \<longrightarrow> (\<forall>a \<in> set (zl_items (px_ifaces p')). k \<notin> set (if_globals (px_heap p' a))))"
  using polling_spec [OF assms(2,1,3)] by (simp add: polled_def lists_nowhere_def split: if_splits)

theorem polling_drops_silent_witness:
  "zh_lookup far_endpoint (px_fabs silent) = Some (far_fabric\<lparr>fb_alive := False\<rparr>)"
  using polling_drops_silent [OF far_inv demo_poll, of far_endpoint far_fabric] list_message_simps(3)
  by (simp add: far_fabric_def)

text \<open>A module that does not answer a call in time is given up: it is to be restarted, it is
  no longer registered, no interface lists it, and the caller gets the exception.\<close>

theorem stuck_module_given_up:
  assumes "router_inv p" and "verdict E m = Inr (Some (''Process timeout'', PROCESS_TIMEOUT))"
    and "msg_routed m = Some via" and "zh_lookup via (px_modules p) = Some mo"
    and "\<not> cf_debug (ev_conf E)" and "process_queue_item E k m p = Inr (rc, p')"
  shows "zh_lookup via (px_modules p') = None \<and> (\<forall>a. via \<notin> set (if_locals (px_heap p' a))) \<and>
    (\<exists>es. px_out p' = px_out p @ [To_Procman [''restart'', mo_spid mo]] @ es \<and>
      (\<exists>ob. message_exception (Some (msg_actionid m)) ''Process timeout'' PROCESS_TIMEOUT = Some ob \<and>
         sends ob (msg_identity m) es))"
  by (rule stuck_module_effect [OF assms])

theorem stuck_module_given_up_witness:
  "\<exists>p'. process_queue_item (demo_env 10003000) ''call-1'' (placed_call 2000) (called 2000) = Inr (0, p') \<and>
    zh_lookup ''00ABCD0102'' (px_modules p') = None"
proof -
  obtain p' where p': "process_queue_item (demo_env 10003000) ''call-1'' (placed_call 2000) (called 2000) = Inr (0, p')"
    using process_queue_item_safe [OF called_timer_safe [of 2000], of "''call-1''" "placed_call 2000"] by auto
  have "router_inv (called 2000)" using reach_ok [OF reach_called [of 2000]] by simp
  from stuck_module_given_up [OF this late_verdict _ _ _ p', of "''00ABCD0102''" "worker\<lparr>mo_state := BUSY\<rparr>"] p'
  show ?thesis by (auto simp: called_worker demo_env_def)
qed

text \<open>C38: A module that the process manager removes while it works leaves its call in the queue with a
  pointer into the memory of the module, and the timer reads through it once the call is late.\<close>

theorem removed_module_fatal:
  assumes "router_inv p" and "zh_lookup k (px_queue p) = Some m" and "works_on via m"
    and "zh_lookup via (px_modules p) = Some mo"
    and "procman_checkpid E ''remove'' (mo_pid mo) via mo p = Inr (rc, p1)"
    and "timeouts_in_range E'" and "expired_process E' m = Inr True"
  shows "zh_lookup k (px_queue p1) = Some m \<and> process_queue_item E' k m p1 = Inl Use_After_Free"
  by (rule removed_module_stale [OF assms])

theorem removed_module_fatal_witness:
  "\<exists>rc p1. procman_checkpid (demo_env 5) ''remove'' 4711 ''00ABCD0102'' (worker\<lparr>mo_state := BUSY\<rparr>) (called 2000) = Inr (rc, p1) \<and>
    process_queue_item (demo_env 10003000) ''call-1'' (placed_call 2000) p1 = Inl Use_After_Free"
proof -
  have inv: "router_inv (called 2000)" using reach_ok [OF reach_called [of 2000]] by simp
  obtain p1 where p1: "print_ifaces (forget_identity (demo_env 5) (mo_identity (worker\<lparr>mo_state := BUSY\<rparr>)) (called 2000)) = Inr p1"
    using print_ifaces_returns [OF printable_forget [OF inv called_printable]] unfolding returns_iff by (rule exE)
  then have run: "\<exists>rc p1. procman_checkpid (demo_env 5) ''remove'' (mo_pid (worker\<lparr>mo_state := BUSY\<rparr>)) ''00ABCD0102''
      (worker\<lparr>mo_state := BUSY\<rparr>) (called 2000) = Inr (rc, p1)"
    by (simp add: procman_checkpid_def)
  have "timeouts_in_range (demo_env 10003000)"
    using called_timer_safe [of 2000 10003000] by (simp add: timer_safe_def)
  moreover have "expired_process (demo_env 10003000) (placed_call 2000) = Inr True"
    by (simp add: expired_process_def timeout_us_def demo_env_def int_res_def int_range_def u64_of_int_def
        getProcessTimeDelta_def)
  ultimately show ?thesis
    using run removed_module_fatal [OF inv _ _ called_worker, of "''call-1''" "placed_call 2000"]
    by (fastforce simp: works_on_def worker_def)
qed

text \<open>A restart that the process manager asks for while a module works is put off: nothing is
  sent until the module has answered, and then the restart is sent instead of new work.\<close>

theorem restart_deferred:
  assumes "zh_lookup k (px_modules p) = Some mo" and "mo_state mo \<noteq> IDLE"
  shows "\<exists>p1. procman_checkpid E ''restart'' (mo_pid mo) k mo p = Inr (-1, p1) \<and> px_out p1 = px_out p \<and>
    release_module E' k p1 = Inr (emit (To_Procman [''restart'', mo_spid mo]) p1)"
  by (rule deferred_restart [OF assms])

theorem restart_deferred_witness:
  "\<exists>p1. procman_checkpid (demo_env 5) ''restart'' 4711 ''00ABCD0102'' (worker\<lparr>mo_state := BUSY\<rparr>) (called 2000) = Inr (-1, p1) \<and>
    px_out p1 = px_out (called 2000) \<and>
    release_module (demo_env 6) ''00ABCD0102'' p1 = Inr (emit (To_Procman [''restart'', ''4711'']) p1)"
  using restart_deferred [OF called_worker, of "demo_env 5" 2000 "demo_env 6"] by (simp add: worker_def)

text \<open>A beacon of an unknown broker adds it under its endpoint if the connection can be made,
  and frees it twice if it cannot; a beacon of a known one changes nothing.\<close>

theorem beacon_outcome:
  assumes "CHR ''@'' \<notin> set pre" and "pre \<noteq> []" and "CHR ''@'' \<notin> set ep" and "ep \<noteq> []"
  shows "s_beacon_event connect (Some ip) (Some (pre @ ''@'' @ ep)) p =
    (if zh_lookup ep (px_fabs p) \<noteq> None then Inr p
     else if connect ep then
       Inr (p\<lparr>px_fabs := px_fabs p @ [(ep, \<lparr>fb_identity = (px_next p, ep), fb_peer = True, fb_alive = True\<rparr>)],
              px_next := Suc (px_next p)\<rparr>)
     else Inl Double_Free)"
  using fab_new_beacon [OF assms, of "px_next p"] by (simp add: s_beacon_event_def zh_insert_def)

theorem beacon_outcome_witness:
  "s_beacon_event (\<lambda>ep. False) (Some ''10.0.0.7'') (Some (''modbus'' @ ''@'' @ far_endpoint)) proxy_new = Inl Double_Free"
  by (subst beacon_outcome) (simp_all add: far_endpoint_def proxy_new_def)

section \<open>Inputs that bring the broker down\<close>

text \<open>A line with version 0 in the interface list of a fabric, for a function that is not
  known yet, makes the broker dereference the interface that was not created.\<close>

theorem version_zero_line:
  assumes "md \<noteq> []" and "CHR '':'' \<notin> set md" and "func \<noteq> []" and "CHR '':'' \<notin> set func"
    and "\<forall>a \<in> set (zl_items (px_ifaces p)). \<not> (if_mod (px_heap p a) = md \<and> if_func (px_heap p a) = func)"
  shows "learn_iface fab (md @ '':'' @ func @ '':0'') p = Inl Null_Deref"
proof -
  have path: "strtok_all (CHR '':'') (md @ CHR '':'' # func @ '':0'') = [md, func, ''0'']"
    using assms(1-4) by (simp add: strtok_all_field strtok_all_last)
  have zero: "atoi ''0'' = Inr 0" using atoi_show_int [of 0] by (simp add: int_range_def show_int_def show_nat.simps digit_chars)
  have none: "find (\<lambda>a. iface_serves md func 0 (px_heap p a)) (zl_items (px_ifaces p)) = None"
    using assms(5) by (auto simp: find_None_iff iface_serves_def)
  obtain l where "check_interface (Some md) (Some func) 0 p = Inr (None, p\<lparr>px_ifaces := l\<rparr>)"
    using check_interface_eq [of p md func 0] none by auto
  then show ?thesis
    by (simp add: learn_iface_def path zero u64_of_int_def find_or_new_iface_def iface_new_def)
qed

theorem version_zero_line_witness: "learn_iface far_fabric ''calc:add:0'' far_state = Inl Null_Deref"
  using version_zero_line [of "''calc''" "''add''" far_state far_fabric]
  by (simp add: far_state_def proxy_new_def)

text \<open>An interface list from a sender that is no known fabric (any local client can send one)
  makes the broker dereference the fabric it did not find.\<close>

theorem unknown_sender_list:
  assumes "zh_lookup (msg_actionid m) (px_queue p) = None" and "message_getIfaceList m = Inr (Some paths)"
    and "zh_lookup (msg_identity m) (px_fabs p) = None"
  shows "process_result E m p = Inl Null_Deref"
  using assms by (simp add: process_result_def process_ifacelist_def)

theorem unknown_sender_list_witness: "process_result (demo_env 5) list_message introduced = Inl Null_Deref"
  by (rule unknown_sender_list [OF _ list_message_list]) (simp_all add: introduced_def)

section \<open>Time\<close>



text \<open>The machine arithmetic of the waiting timeout is exact: with a timeout that is not negative and
  not out of range, a call is late if it has waited for more than that many milliseconds.\<close>

theorem in_timeout_exact:
  assumes "0 \<le> cf_in_timeout (ev_conf E)" and "int_range (cf_in_timeout (ev_conf E) * 1000)"
    and "msg_in_ts m \<le> ev_now E"
  shows "expired_in E m = Inr (nat (cf_in_timeout (ev_conf E) * 1000) < unat (ev_now E) - unat (msg_in_ts m) \<and>
    msg_proc_ts m = 0)"
proof -
  have "unat (u64_of_int (cf_in_timeout (ev_conf E) * 1000)) = nat (cf_in_timeout (ev_conf E) * 1000)"
    using assms(1,2) by (intro u64_of_int_nonneg) simp_all
  moreover have "unat (ev_now E - msg_in_ts m) = unat (ev_now E) - unat (msg_in_ts m)"
    using assms(3) by (simp add: unat_sub)
  ultimately show ?thesis
    using assms(2) by (simp add: expired_in_def timeout_us_def int_res_def getInTimeDelta_def word_less_nat_alt)
qed

theorem in_timeout_exact_witness: "expired_in (demo_env 4000000) (the_call 5) = Inr True"
  by (subst in_timeout_exact) (simp_all add: demo_env_def int_range_def the_call_def call_of_def)

end
